(* ===== verification/Prelude.thy ===== *)
theory Prelude
  imports Main "HOL-Library.Word" "HOL-Library.AList"
begin

text \<open>
  Shared vocabulary of the development.

  \<^item> The machine integers of the program (\<open>std::uint8_t\<close>, \<open>std::uint32_t\<close>,
    \<open>std::uint64_t\<close>), as words of their width.
  \<^item> The strong identities and generations of \<open>include/rdmabuffer/identity.hpp\<close> and
    \<open>generation.hpp\<close>: one datatype each, with a tag type that is declared and never
    defined, as \<open>struct NAMETag\<close> is in the macros.
  \<^item> \<open>std::unordered_map\<close> as an association list in iteration order, with the loop
    over its elements that several operations of the registry share.
  \<^item> Decimal and hexadecimal rendering of integers (\<open>std::to_string\<close>,
    \<open>std::to_chars\<close>).
  \<^item> The collections of facts (\<open>um_simps\<close>, \<open>exec_defs\<close>) that later proofs name.
\<close>

unbundle bit_operations_syntax

type_synonym u8 = "8 word"
type_synonym u32 = "32 word"
type_synonym u64 = "64 word"

named_theorems um_simps \<open>rewriting of the unordered-map operations\<close>
named_theorems exec_defs \<open>definitions unfolded to run the model on a concrete input\<close>

section \<open>Strong identities and generations\<close>

typedecl BufferIdTag
typedecl RegistrationIdTag
typedecl RegistrationLeaseIdTag
typedecl MemoryRegionIdTag
typedecl OwnerIdTag
typedecl ProcessIdTag
typedecl WorkerIdTag
typedecl WorkerBootIdTag
typedecl NodeIdTag
typedecl DeviceIdTag
typedecl NicIdTag
typedecl ProtectionDomainIdTag
typedecl TransportIdTag
typedecl BackendIdTag
typedecl TransferIdTag
typedecl AttemptIdTag
typedecl DispatchIdTag
typedecl RemoteKeyIdTag
typedecl LocalKeyIdTag

typedecl CoordinatorEpochTag
typedecl BufferGenerationTag
typedecl RegistrationGenerationTag
typedecl LeaseGenerationTag
typedecl OwnerGenerationTag
typedecl WorkerGenerationTag
typedecl NicGenerationTag
typedecl TransportGenerationTag
typedecl BackendGenerationTag
typedecl RemoteKeyGenerationTag
typedecl PolicyGenerationTag
typedecl ProtectionDomainGenerationTag

datatype 'tag StrongId = StrongId (id_value: u64)

definition id_valid :: "'tag StrongId \<Rightarrow> bool" where
  "id_valid i \<longleftrightarrow> id_value i \<noteq> 0"

definition no_id :: "'tag StrongId" where
  "no_id = StrongId 0"

datatype 'tag StrongGeneration = StrongGeneration (gen_value: u64)

definition gen_valid :: "'tag StrongGeneration \<Rightarrow> bool" where
  "gen_valid g \<longleftrightarrow> gen_value g \<noteq> 0"

definition no_gen :: "'tag StrongGeneration" where
  "no_gen = StrongGeneration 0"

definition gen_next :: "'tag StrongGeneration \<Rightarrow> 'tag StrongGeneration" where
  "gen_next g = StrongGeneration (gen_value g + 1)"

type_synonym BufferId = "BufferIdTag StrongId"
type_synonym RegistrationId = "RegistrationIdTag StrongId"
type_synonym RegistrationLeaseId = "RegistrationLeaseIdTag StrongId"
type_synonym MemoryRegionId = "MemoryRegionIdTag StrongId"
type_synonym OwnerId = "OwnerIdTag StrongId"
type_synonym ProcessId = "ProcessIdTag StrongId"
type_synonym WorkerId = "WorkerIdTag StrongId"
type_synonym WorkerBootId = "WorkerBootIdTag StrongId"
type_synonym NodeId = "NodeIdTag StrongId"
type_synonym DeviceId = "DeviceIdTag StrongId"
type_synonym NicId = "NicIdTag StrongId"
type_synonym ProtectionDomainId = "ProtectionDomainIdTag StrongId"
type_synonym TransportId = "TransportIdTag StrongId"
type_synonym BackendId = "BackendIdTag StrongId"
type_synonym TransferId = "TransferIdTag StrongId"
type_synonym AttemptId = "AttemptIdTag StrongId"
type_synonym DispatchId = "DispatchIdTag StrongId"
type_synonym RemoteKeyId = "RemoteKeyIdTag StrongId"
type_synonym LocalKeyId = "LocalKeyIdTag StrongId"

type_synonym CoordinatorEpoch = "CoordinatorEpochTag StrongGeneration"
type_synonym BufferGeneration = "BufferGenerationTag StrongGeneration"
type_synonym RegistrationGeneration = "RegistrationGenerationTag StrongGeneration"
type_synonym LeaseGeneration = "LeaseGenerationTag StrongGeneration"
type_synonym OwnerGeneration = "OwnerGenerationTag StrongGeneration"
type_synonym WorkerGeneration = "WorkerGenerationTag StrongGeneration"
type_synonym NicGeneration = "NicGenerationTag StrongGeneration"
type_synonym TransportGeneration = "TransportGenerationTag StrongGeneration"
type_synonym BackendGeneration = "BackendGenerationTag StrongGeneration"
type_synonym RemoteKeyGeneration = "RemoteKeyGenerationTag StrongGeneration"
type_synonym PolicyGeneration = "PolicyGenerationTag StrongGeneration"
type_synonym ProtectionDomainGeneration = "ProtectionDomainGenerationTag StrongGeneration"

text \<open>
  The comparison operators of \<open>StrongId\<close> and \<open>StrongGeneration\<close> compare the values:
  both are instances of \<open>linorder\<close>, so the library's orders and sorting apply.
\<close>

instantiation StrongId :: (type) linorder
begin

definition less_eq_StrongId :: "'a StrongId \<Rightarrow> 'a StrongId \<Rightarrow> bool" where
  "less_eq_StrongId a b \<longleftrightarrow> id_value a \<le> id_value b"

definition less_StrongId :: "'a StrongId \<Rightarrow> 'a StrongId \<Rightarrow> bool" where
  "less_StrongId a b \<longleftrightarrow> id_value a < id_value b"

instance
  by standard (auto simp: less_eq_StrongId_def less_StrongId_def StrongId.expand)

end

instantiation StrongGeneration :: (type) linorder
begin

definition less_eq_StrongGeneration :: "'a StrongGeneration \<Rightarrow> 'a StrongGeneration \<Rightarrow> bool" where
  "less_eq_StrongGeneration a b \<longleftrightarrow> gen_value a \<le> gen_value b"

definition less_StrongGeneration :: "'a StrongGeneration \<Rightarrow> 'a StrongGeneration \<Rightarrow> bool" where
  "less_StrongGeneration a b \<longleftrightarrow> gen_value a < gen_value b"

instance
  by standard
    (auto simp: less_eq_StrongGeneration_def less_StrongGeneration_def StrongGeneration.expand)

end

lemmas id_defs [exec_defs] =
  id_valid_def no_id_def gen_valid_def no_gen_def gen_next_def
  less_eq_StrongId_def less_StrongId_def less_eq_StrongGeneration_def less_StrongGeneration_def

lemma StrongId_le [simp]: "StrongId a \<le> StrongId b \<longleftrightarrow> a \<le> b"
  by (simp add: less_eq_StrongId_def)

lemma StrongId_less [simp]: "StrongId a < StrongId b \<longleftrightarrow> a < b"
  by (simp add: less_StrongId_def)

lemma gen_valid_simps [simp]:
  "gen_valid (StrongGeneration v) \<longleftrightarrow> v \<noteq> 0"
  "gen_next (StrongGeneration v) = StrongGeneration (v + 1)"
  "gen_value (gen_next g) = gen_value g + 1"
  by (simp_all add: gen_valid_def gen_next_def)

lemma id_valid_simps [simp]:
  "id_valid (StrongId v) \<longleftrightarrow> v \<noteq> 0"
  "\<not> id_valid no_id"
  by (simp_all add: id_valid_def no_id_def)

text \<open>A generation is left behind by \<open>next()\<close>, and is below it until the counter wraps.\<close>

lemma gen_next_neq [simp]: "gen_next g \<noteq> g"
  by (cases g) (simp add: gen_next_def)

lemma gen_next_greater: "gen_value g \<noteq> - 1 \<Longrightarrow> g < gen_next g"
  using inc_less_eq_triv_imp [of "gen_value g"]
  by (auto simp: less_StrongGeneration_def not_less [symmetric])


section \<open>Message literals\<close>

text \<open>
  \<open>msg\<close> marks the text of a diagnostic message. It is the identity; its congruence
  rule keeps the simplifier out of the characters, which no decision of the program reads.
\<close>

definition msg :: "string \<Rightarrow> string" where
  "msg t = t"

lemma msg_cong [cong]: "msg t = msg t"
  by (rule refl)

section \<open>Rendering integers\<close>

definition digit_char :: "nat \<Rightarrow> char" where
  "digit_char d = ''0123456789abcdef'' ! d"

text \<open>
  \<open>std::to_chars\<close> in base \<open>b\<close>, lower-case digits, no leading zero. The program uses the
  bases 10 and 16.
\<close>

fun digits :: "nat \<Rightarrow> nat \<Rightarrow> string" where
  "digits b n = (if b < 2 \<or> n < b then [digit_char n] else digits b (n div b) @ [digit_char (n mod b)])"

declare digits.simps [simp del]

definition int_to_str :: "u64 \<Rightarrow> string" where
  "int_to_str v = digits 10 (unat v)"

definition to_hex :: "u64 \<Rightarrow> string" where
  "to_hex v = digits 16 (unat v)"

lemma digit_char_inj:
  assumes "m < 16" and "n < 16" and "digit_char m = digit_char n"
  shows "m = n"
proof -
  have "list_all (\<lambda>i. list_all (\<lambda>j. digit_char i = digit_char j \<longrightarrow> i = j) [0..<16]) [0..<16]"
    by code_simp
  with assms show ?thesis
    by (simp add: list_all_iff)
qed

lemma digits_nonempty [simp]: "digits b n \<noteq> []" "[] \<noteq> digits b n"
  by (subst digits.simps, simp)+

lemma digits_inj:
  assumes b: "2 \<le> b" "b \<le> 16"
  shows "digits b m = digits b n \<Longrightarrow> m = n"
proof (induction m arbitrary: n rule: less_induct)
  case (less m)
  note eq = digits.simps [of b m] digits.simps [of b n]
  show ?case
  proof (cases "m < b \<or> n < b")
    case True
    with less.prems b show ?thesis
      by (auto simp: eq split: if_splits intro: digit_char_inj)
  next
    case False
    with less.prems b have q: "digits b (m div b) = digits b (n div b)"
      and r: "digit_char (m mod b) = digit_char (n mod b)"
      by (auto simp: eq)
    from False b have "m div b < m" by simp
    from less.IH [OF this q] have "m div b = n div b" .
    moreover from r b have "m mod b = n mod b"
      by (intro digit_char_inj) (auto intro: less_le_trans [OF mod_less_divisor])
    ultimately show ?thesis
      by (metis div_mult_mod_eq)
  qed
qed

lemma int_to_str_inj: "int_to_str a = int_to_str b \<Longrightarrow> a = b"
  using digits_inj [of 10 "unat a" "unat b"] by (simp add: int_to_str_def word_unat_eq_iff)

lemma to_hex_inj: "to_hex a = to_hex b \<Longrightarrow> a = b"
  using digits_inj [of 16 "unat a" "unat b"] by (simp add: to_hex_def word_unat_eq_iff)

section \<open>Unordered maps\<close>

text \<open>
  A \<open>std::unordered_map\<close> is an association list with distinct keys. Its order is the
  order in which the program iterates over the map, which the standard leaves open; every
  theorem is stated for every order. \<open>find\<close> is \<open>map_of\<close>, \<open>m[k] = v\<close> is \<open>AList.update\<close>,
  \<open>erase(k)\<close> is \<open>AList.delete\<close>.
\<close>

type_synonym ('k, 'v) umap = "('k \<times> 'v) list"

definition um_wf :: "('k, 'v) umap \<Rightarrow> bool" where
  "um_wf m \<longleftrightarrow> distinct (map fst m)"

text \<open>
  \<open>for (auto& [k, v] : m) if (p v) { v = f v; acc = g v acc; }\<close>: the loop that rewrites
  elements in place and accounts for each one it rewrites.
\<close>

fun um_for :: "('v \<Rightarrow> bool) \<Rightarrow> ('v \<Rightarrow> 'v) \<Rightarrow> ('v \<Rightarrow> 'a \<Rightarrow> 'a) \<Rightarrow>
    ('k, 'v) umap \<Rightarrow> 'a \<Rightarrow> ('k, 'v) umap \<times> 'a" where
  "um_for p f g [] acc = ([], acc)"
| "um_for p f g ((k, v) # m) acc =
     (if p v then (let (m', acc') = um_for p f g m (g (f v) acc) in ((k, f v) # m', acc'))
      else (let (m', acc') = um_for p f g m acc in ((k, v) # m', acc')))"

text \<open>\<open>for (it = m.begin(); ...) if (p v) it = m.erase(it); else ++it;\<close>\<close>

definition um_erase_if :: "('v \<Rightarrow> bool) \<Rightarrow> ('k, 'v) umap \<Rightarrow> ('k, 'v) umap" where
  "um_erase_if p m = filter (\<lambda>(k, v). \<not> p v) m"

lemma um_for_fst:
  "fst (um_for p f g m acc) = map (\<lambda>(k, v). (k, if p v then f v else v)) m"
  by (induction p f g m acc rule: um_for.induct) (auto simp: split_def)

lemma um_for_snd:
  "snd (um_for p f g m acc) = fold (\<lambda>v. g (f v)) (filter p (map snd m)) acc"
  by (induction p f g m acc rule: um_for.induct) (auto simp: split_def)

lemma map_of_um_for [um_simps]:
  "map_of (fst (um_for p f g m acc)) k = map_option (\<lambda>v. if p v then f v else v) (map_of m k)"
  unfolding um_for_fst by (induction m) auto

lemma keys_um_for [um_simps]: "map fst (fst (um_for p f g m acc)) = map fst m"
  unfolding um_for_fst by (induction m) auto

lemma um_wf_um_for [um_simps]: "um_wf (fst (um_for p f g m acc)) \<longleftrightarrow> um_wf m"
  by (simp add: um_wf_def keys_um_for)

lemma map_of_update [um_simps]: "map_of (AList.update k v m) = (map_of m)(k \<mapsto> v)"
  by (rule update_conv')

lemma map_of_delete [um_simps]: "map_of (AList.delete k m) = (map_of m)(k := None)"
  by (rule delete_conv')

lemma um_wf_Nil [um_simps]: "um_wf []"
  by (simp add: um_wf_def)

lemma um_wf_update [um_simps]: "um_wf m \<Longrightarrow> um_wf (AList.update k v m)"
  by (simp add: um_wf_def distinct_update)

lemma um_wf_delete [um_simps]: "um_wf m \<Longrightarrow> um_wf (AList.delete k m)"
  by (simp add: um_wf_def distinct_delete)

lemma um_wf_erase_if [um_simps]: "um_wf m \<Longrightarrow> um_wf (um_erase_if p m)"
  by (simp add: um_wf_def um_erase_if_def distinct_map_filter)

lemma map_of_erase_if [um_simps]:
  assumes "um_wf m"
  shows "map_of (um_erase_if p m) k = (case map_of m k of None \<Rightarrow> None | Some v \<Rightarrow> if p v then None else Some v)"
  using assms
proof (induction m)
  case Nil
  then show ?case by (simp add: um_erase_if_def)
next
  case (Cons kv m)
  obtain k' v where kv: "kv = (k', v)" by (cases kv)
  with Cons show ?case
    by (auto simp: um_erase_if_def um_wf_def map_of_eq_None_iff split: option.splits)
qed

lemma um_for_cong_pred:
  "(\<And>v. v \<in> snd ` set m \<Longrightarrow> \<not> p v) \<Longrightarrow> um_for p f g m acc = (m, acc)"
  by (induction m) auto

end
