(* ===== verification/Enums.thy ===== *)
theory Enums
  imports Prelude
begin

text \<open>
  The enumerations of \<open>include/rdmabuffer/enums.hpp\<close> and the pointer kinds of
  \<open>buffer_model.hpp\<close>: one datatype per \<open>enum class\<close>, each constructor under a two-letter
  prefix of its enum; the stable names of the \<open>*_name\<close> functions; and, for the enums that
  are written to the wire or to disk, the byte (\<open>static_cast<std::uint8_t>\<close>) and the checked
  cast back (a byte above the last enumerator is refused). The locale \<open>enum_code\<close> states what
  every such pair promises. The access-mask helpers and the capability tri-state follow.
\<close>

section \<open>Enumerations and their names\<close>

datatype MemoryDomain =
  MD_HOST_PAGEABLE
| MD_HOST_PINNED
| MD_CUDA_DEVICE
| MD_CUDA_MANAGED
| MD_SHARED_MEMORY
| MD_FILE_BACKED
| MD_SYNTHETIC_REMOTE_CAPABLE
| MD_UNKNOWN

datatype PointerKind =
  PK_VIRTUAL
| PK_DEVICE
| PK_SHARED
| PK_FILE
| PK_SYNTHETIC
| PK_UNKNOWN

datatype RegistrationLifecycle =
  RL_UNREGISTERED
| RL_REGISTERING
| RL_REGISTERED
| RL_ACTIVE
| RL_REVOKING
| RL_REVOKED
| RL_DEREGISTERING
| RL_DEREGISTERED
| RL_FAILED
| RL_STALE
| RL_REVALIDATION_REQUIRED

datatype AccessOutcome =
  AO_ALLOW
| AO_REJECT_STALE_EPOCH
| AO_REJECT_STALE_BOOT
| AO_REJECT_STALE_BUFFER
| AO_REJECT_STALE_REGISTRATION
| AO_REJECT_STALE_KEY
| AO_REJECT_RANGE
| AO_REJECT_PERMISSION
| AO_REJECT_DOMAIN
| AO_REJECT_BACKEND
| AO_REJECT_TRANSPORT
| AO_REJECT_REVOKED
| AO_REJECT_DEREGISTERED
| AO_REJECT_UNKNOWN_CAPABILITY
| AO_REJECT_NOT_REGISTERED
| AO_REJECT_LEASE

datatype TransportClass =
  TC_INFINIBAND_CLASS
| TC_ROCE_CLASS
| TC_IWARP_CLASS
| TC_WINDOWS_ND_CLASS
| TC_LIBFABRIC_CLASS
| TC_VERBS_CLASS
| TC_TCP_REFERENCE
| TC_SYNTHETIC
| TC_UNKNOWN

datatype Provenance =
  PV_REAL
| PV_SYNTHETIC
| PV_UNKNOWN

datatype RevocationMode =
  RV_SOFT_REVOKE
| RV_HARD_REVOKE

datatype RegistrationMode =
  RM_PIN_ONLY
| RM_REMOTE_ACCESS
| RM_ANY

datatype LifetimePolicy =
  LP_TRANSACTIONAL
| LP_PERSISTENT
| LP_EPHEMERAL

datatype DomainState =
  DS_CREATED
| DS_ACTIVE
| DS_DESTROYING
| DS_DESTROYED

datatype LeaseState =
  LS_PENDING
| LS_ACTIVE
| LS_RELEASED
| LS_REVOKED

datatype TransferDirection =
  TD_NONE
| TD_SEND
| TD_RECEIVE
| TD_BIDIRECTIONAL

datatype OperationKind =
  OP_READ
| OP_WRITE
| OP_ATOMIC_COMPARE_SWAP

datatype CapabilityState =
  CS_SUPPORTED
| CS_NOT_SUPPORTED
| CS_UNKNOWN

datatype RegistrationResult =
  RR_REGISTERED
| RR_REUSED
| RR_REJECTED
| RR_PARTIAL_FAILURE

datatype ReuseDecision =
  RD_REUSE_HIT
| RD_REUSE_MISS

datatype BackendState =
  BS_READY
| BS_DISCOVERING
| BS_FAILED
| BS_DESTROYED

datatype Freshness =
  FR_VALID
| FR_REVALIDATION_REQUIRED
| FR_STALE
| FR_UNKNOWN

fun memory_domain_name :: "MemoryDomain \<Rightarrow> string" where
  "memory_domain_name MD_HOST_PAGEABLE = ''HOST_PAGEABLE''"
| "memory_domain_name MD_HOST_PINNED = ''HOST_PINNED''"
| "memory_domain_name MD_CUDA_DEVICE = ''CUDA_DEVICE''"
| "memory_domain_name MD_CUDA_MANAGED = ''CUDA_MANAGED''"
| "memory_domain_name MD_SHARED_MEMORY = ''SHARED_MEMORY''"
| "memory_domain_name MD_FILE_BACKED = ''FILE_BACKED''"
| "memory_domain_name MD_SYNTHETIC_REMOTE_CAPABLE = ''SYNTHETIC_REMOTE_CAPABLE''"
| "memory_domain_name MD_UNKNOWN = ''UNKNOWN''"

fun pointer_kind_name :: "PointerKind \<Rightarrow> string" where
  "pointer_kind_name PK_VIRTUAL = ''VIRTUAL''"
| "pointer_kind_name PK_DEVICE = ''DEVICE''"
| "pointer_kind_name PK_SHARED = ''SHARED''"
| "pointer_kind_name PK_FILE = ''FILE''"
| "pointer_kind_name PK_SYNTHETIC = ''SYNTHETIC''"
| "pointer_kind_name PK_UNKNOWN = ''UNKNOWN''"

fun lifecycle_name :: "RegistrationLifecycle \<Rightarrow> string" where
  "lifecycle_name RL_UNREGISTERED = ''UNREGISTERED''"
| "lifecycle_name RL_REGISTERING = ''REGISTERING''"
| "lifecycle_name RL_REGISTERED = ''REGISTERED''"
| "lifecycle_name RL_ACTIVE = ''ACTIVE''"
| "lifecycle_name RL_REVOKING = ''REVOKING''"
| "lifecycle_name RL_REVOKED = ''REVOKED''"
| "lifecycle_name RL_DEREGISTERING = ''DEREGISTERING''"
| "lifecycle_name RL_DEREGISTERED = ''DEREGISTERED''"
| "lifecycle_name RL_FAILED = ''FAILED''"
| "lifecycle_name RL_STALE = ''STALE''"
| "lifecycle_name RL_REVALIDATION_REQUIRED = ''REVALIDATION_REQUIRED''"

fun access_outcome_name :: "AccessOutcome \<Rightarrow> string" where
  "access_outcome_name AO_ALLOW = ''ALLOW''"
| "access_outcome_name AO_REJECT_STALE_EPOCH = ''REJECT_STALE_EPOCH''"
| "access_outcome_name AO_REJECT_STALE_BOOT = ''REJECT_STALE_BOOT''"
| "access_outcome_name AO_REJECT_STALE_BUFFER = ''REJECT_STALE_BUFFER''"
| "access_outcome_name AO_REJECT_STALE_REGISTRATION = ''REJECT_STALE_REGISTRATION''"
| "access_outcome_name AO_REJECT_STALE_KEY = ''REJECT_STALE_KEY''"
| "access_outcome_name AO_REJECT_RANGE = ''REJECT_RANGE''"
| "access_outcome_name AO_REJECT_PERMISSION = ''REJECT_PERMISSION''"
| "access_outcome_name AO_REJECT_DOMAIN = ''REJECT_DOMAIN''"
| "access_outcome_name AO_REJECT_BACKEND = ''REJECT_BACKEND''"
| "access_outcome_name AO_REJECT_TRANSPORT = ''REJECT_TRANSPORT''"
| "access_outcome_name AO_REJECT_REVOKED = ''REJECT_REVOKED''"
| "access_outcome_name AO_REJECT_DEREGISTERED = ''REJECT_DEREGISTERED''"
| "access_outcome_name AO_REJECT_UNKNOWN_CAPABILITY = ''REJECT_UNKNOWN_CAPABILITY''"
| "access_outcome_name AO_REJECT_NOT_REGISTERED = ''REJECT_NOT_REGISTERED''"
| "access_outcome_name AO_REJECT_LEASE = ''REJECT_LEASE''"

fun transport_class_name :: "TransportClass \<Rightarrow> string" where
  "transport_class_name TC_INFINIBAND_CLASS = ''INFINIBAND_CLASS''"
| "transport_class_name TC_ROCE_CLASS = ''ROCE_CLASS''"
| "transport_class_name TC_IWARP_CLASS = ''IWARP_CLASS''"
| "transport_class_name TC_WINDOWS_ND_CLASS = ''WINDOWS_ND_CLASS''"
| "transport_class_name TC_LIBFABRIC_CLASS = ''LIBFABRIC_CLASS''"
| "transport_class_name TC_VERBS_CLASS = ''VERBS_CLASS''"
| "transport_class_name TC_TCP_REFERENCE = ''TCP_REFERENCE''"
| "transport_class_name TC_SYNTHETIC = ''SYNTHETIC''"
| "transport_class_name TC_UNKNOWN = ''UNKNOWN''"

fun provenance_name :: "Provenance \<Rightarrow> string" where
  "provenance_name PV_REAL = ''REAL''"
| "provenance_name PV_SYNTHETIC = ''SYNTHETIC''"
| "provenance_name PV_UNKNOWN = ''UNKNOWN''"

fun revocation_mode_name :: "RevocationMode \<Rightarrow> string" where
  "revocation_mode_name RV_SOFT_REVOKE = ''SOFT_REVOKE''"
| "revocation_mode_name RV_HARD_REVOKE = ''HARD_REVOKE''"

fun registration_mode_name :: "RegistrationMode \<Rightarrow> string" where
  "registration_mode_name RM_PIN_ONLY = ''PIN_ONLY''"
| "registration_mode_name RM_REMOTE_ACCESS = ''REMOTE_ACCESS''"
| "registration_mode_name RM_ANY = ''ANY''"

fun domain_state_name :: "DomainState \<Rightarrow> string" where
  "domain_state_name DS_CREATED = ''CREATED''"
| "domain_state_name DS_ACTIVE = ''ACTIVE''"
| "domain_state_name DS_DESTROYING = ''DESTROYING''"
| "domain_state_name DS_DESTROYED = ''DESTROYED''"

fun lease_state_name :: "LeaseState \<Rightarrow> string" where
  "lease_state_name LS_PENDING = ''PENDING''"
| "lease_state_name LS_ACTIVE = ''ACTIVE''"
| "lease_state_name LS_RELEASED = ''RELEASED''"
| "lease_state_name LS_REVOKED = ''REVOKED''"

fun operation_kind_name :: "OperationKind \<Rightarrow> string" where
  "operation_kind_name OP_READ = ''READ''"
| "operation_kind_name OP_WRITE = ''WRITE''"
| "operation_kind_name OP_ATOMIC_COMPARE_SWAP = ''ATOMIC_COMPARE_SWAP''"

fun capability_state_name :: "CapabilityState \<Rightarrow> string" where
  "capability_state_name CS_SUPPORTED = ''SUPPORTED''"
| "capability_state_name CS_NOT_SUPPORTED = ''NOT_SUPPORTED''"
| "capability_state_name CS_UNKNOWN = ''UNKNOWN''"

fun freshness_name :: "Freshness \<Rightarrow> string" where
  "freshness_name FR_VALID = ''VALID''"
| "freshness_name FR_REVALIDATION_REQUIRED = ''REVALIDATION_REQUIRED''"
| "freshness_name FR_STALE = ''STALE''"
| "freshness_name FR_UNKNOWN = ''UNKNOWN''"

section \<open>Enum codes\<close>

text \<open>
  \<open>code\<close> is the cast of an enumerator to its byte; \<open>of_code\<close> is the check against the last
  enumerator followed by the cast back. \<open>last_code\<close> is the byte of the last enumerator.
\<close>

locale enum_code =
  fixes code :: "'e \<Rightarrow> u8"
    and of_code :: "u8 \<Rightarrow> 'e option"
    and last_code :: u8
  assumes of_code_code: "of_code (code e) = Some e"
    and code_of_code: "of_code u = Some e \<Longrightarrow> code e = u"
    and of_code_None: "of_code u = None \<longleftrightarrow> last_code < u"
begin

lemma of_code_iff: "of_code u = Some e \<longleftrightarrow> u = code e"
  using of_code_code code_of_code by blast

lemma code_inj: "code a = code b \<longleftrightarrow> a = b"
  by (metis of_code_code option.inject)

lemma code_le: "code e \<le> last_code"
  using of_code_None [of "code e"] by (simp add: of_code_code not_less)

lemma of_code_total: "u \<le> last_code \<Longrightarrow> \<exists>e. of_code u = Some e"
  using of_code_None [of u] by (cases "of_code u") auto

end

text \<open>A byte below a bound is one of the bytes up to it.\<close>

lemma u8_le_step: "n \<noteq> 0 \<Longrightarrow> (u :: u8) \<le> n \<longleftrightarrow> u = n \<or> u \<le> n - 1"
  by unat_arith

lemma u8_le_numeral:
  "(numeral k :: u8) \<noteq> 0 \<Longrightarrow> (u :: u8) \<le> numeral k \<longleftrightarrow> u = numeral k \<or> u \<le> numeral k - 1"
  "(u :: u8) \<le> 1 \<longleftrightarrow> u = 1 \<or> u = 0"
  using u8_le_step [of "numeral k" u] u8_le_step [of 1 u] by simp_all

fun memory_domain_code :: "MemoryDomain \<Rightarrow> u8" where
  "memory_domain_code MD_HOST_PAGEABLE = 0"
| "memory_domain_code MD_HOST_PINNED = 1"
| "memory_domain_code MD_CUDA_DEVICE = 2"
| "memory_domain_code MD_CUDA_MANAGED = 3"
| "memory_domain_code MD_SHARED_MEMORY = 4"
| "memory_domain_code MD_FILE_BACKED = 5"
| "memory_domain_code MD_SYNTHETIC_REMOTE_CAPABLE = 6"
| "memory_domain_code MD_UNKNOWN = 7"

definition memory_domain_of_code :: "u8 \<Rightarrow> MemoryDomain option" where
  "memory_domain_of_code u =
     (if u = 0 then Some MD_HOST_PAGEABLE
      else if u = 1 then Some MD_HOST_PINNED
      else if u = 2 then Some MD_CUDA_DEVICE
      else if u = 3 then Some MD_CUDA_MANAGED
      else if u = 4 then Some MD_SHARED_MEMORY
      else if u = 5 then Some MD_FILE_BACKED
      else if u = 6 then Some MD_SYNTHETIC_REMOTE_CAPABLE
      else if u = 7 then Some MD_UNKNOWN
      else None)"

interpretation memory_domain_enum: enum_code memory_domain_code memory_domain_of_code 7
proof
  show "memory_domain_of_code (memory_domain_code e) = Some e" for e
    by (cases e) (simp_all add: memory_domain_of_code_def)
  show "memory_domain_of_code u = Some e \<Longrightarrow> memory_domain_code e = u" for u e
    by (auto simp: memory_domain_of_code_def split: if_splits)
  show "memory_domain_of_code u = None \<longleftrightarrow> (7 :: u8) < u" for u
    by (simp add: not_le [symmetric] u8_le_numeral memory_domain_of_code_def)
qed

fun pointer_kind_code :: "PointerKind \<Rightarrow> u8" where
  "pointer_kind_code PK_VIRTUAL = 0"
| "pointer_kind_code PK_DEVICE = 1"
| "pointer_kind_code PK_SHARED = 2"
| "pointer_kind_code PK_FILE = 3"
| "pointer_kind_code PK_SYNTHETIC = 4"
| "pointer_kind_code PK_UNKNOWN = 5"

definition pointer_kind_of_code :: "u8 \<Rightarrow> PointerKind option" where
  "pointer_kind_of_code u =
     (if u = 0 then Some PK_VIRTUAL
      else if u = 1 then Some PK_DEVICE
      else if u = 2 then Some PK_SHARED
      else if u = 3 then Some PK_FILE
      else if u = 4 then Some PK_SYNTHETIC
      else if u = 5 then Some PK_UNKNOWN
      else None)"

interpretation pointer_kind_enum: enum_code pointer_kind_code pointer_kind_of_code 5
proof
  show "pointer_kind_of_code (pointer_kind_code e) = Some e" for e
    by (cases e) (simp_all add: pointer_kind_of_code_def)
  show "pointer_kind_of_code u = Some e \<Longrightarrow> pointer_kind_code e = u" for u e
    by (auto simp: pointer_kind_of_code_def split: if_splits)
  show "pointer_kind_of_code u = None \<longleftrightarrow> (5 :: u8) < u" for u
    by (simp add: not_le [symmetric] u8_le_numeral pointer_kind_of_code_def)
qed

fun lifecycle_code :: "RegistrationLifecycle \<Rightarrow> u8" where
  "lifecycle_code RL_UNREGISTERED = 0"
| "lifecycle_code RL_REGISTERING = 1"
| "lifecycle_code RL_REGISTERED = 2"
| "lifecycle_code RL_ACTIVE = 3"
| "lifecycle_code RL_REVOKING = 4"
| "lifecycle_code RL_REVOKED = 5"
| "lifecycle_code RL_DEREGISTERING = 6"
| "lifecycle_code RL_DEREGISTERED = 7"
| "lifecycle_code RL_FAILED = 8"
| "lifecycle_code RL_STALE = 9"
| "lifecycle_code RL_REVALIDATION_REQUIRED = 10"

definition lifecycle_of_code :: "u8 \<Rightarrow> RegistrationLifecycle option" where
  "lifecycle_of_code u =
     (if u = 0 then Some RL_UNREGISTERED
      else if u = 1 then Some RL_REGISTERING
      else if u = 2 then Some RL_REGISTERED
      else if u = 3 then Some RL_ACTIVE
      else if u = 4 then Some RL_REVOKING
      else if u = 5 then Some RL_REVOKED
      else if u = 6 then Some RL_DEREGISTERING
      else if u = 7 then Some RL_DEREGISTERED
      else if u = 8 then Some RL_FAILED
      else if u = 9 then Some RL_STALE
      else if u = 10 then Some RL_REVALIDATION_REQUIRED
      else None)"

interpretation lifecycle_enum: enum_code lifecycle_code lifecycle_of_code 10
proof
  show "lifecycle_of_code (lifecycle_code e) = Some e" for e
    by (cases e) (simp_all add: lifecycle_of_code_def)
  show "lifecycle_of_code u = Some e \<Longrightarrow> lifecycle_code e = u" for u e
    by (auto simp: lifecycle_of_code_def split: if_splits)
  show "lifecycle_of_code u = None \<longleftrightarrow> (10 :: u8) < u" for u
    by (simp add: not_le [symmetric] u8_le_numeral lifecycle_of_code_def)
qed

fun access_outcome_code :: "AccessOutcome \<Rightarrow> u8" where
  "access_outcome_code AO_ALLOW = 0"
| "access_outcome_code AO_REJECT_STALE_EPOCH = 1"
| "access_outcome_code AO_REJECT_STALE_BOOT = 2"
| "access_outcome_code AO_REJECT_STALE_BUFFER = 3"
| "access_outcome_code AO_REJECT_STALE_REGISTRATION = 4"
| "access_outcome_code AO_REJECT_STALE_KEY = 5"
| "access_outcome_code AO_REJECT_RANGE = 6"
| "access_outcome_code AO_REJECT_PERMISSION = 7"
| "access_outcome_code AO_REJECT_DOMAIN = 8"
| "access_outcome_code AO_REJECT_BACKEND = 9"
| "access_outcome_code AO_REJECT_TRANSPORT = 10"
| "access_outcome_code AO_REJECT_REVOKED = 11"
| "access_outcome_code AO_REJECT_DEREGISTERED = 12"
| "access_outcome_code AO_REJECT_UNKNOWN_CAPABILITY = 13"
| "access_outcome_code AO_REJECT_NOT_REGISTERED = 14"
| "access_outcome_code AO_REJECT_LEASE = 15"

definition access_outcome_of_code :: "u8 \<Rightarrow> AccessOutcome option" where
  "access_outcome_of_code u =
     (if u = 0 then Some AO_ALLOW
      else if u = 1 then Some AO_REJECT_STALE_EPOCH
      else if u = 2 then Some AO_REJECT_STALE_BOOT
      else if u = 3 then Some AO_REJECT_STALE_BUFFER
      else if u = 4 then Some AO_REJECT_STALE_REGISTRATION
      else if u = 5 then Some AO_REJECT_STALE_KEY
      else if u = 6 then Some AO_REJECT_RANGE
      else if u = 7 then Some AO_REJECT_PERMISSION
      else if u = 8 then Some AO_REJECT_DOMAIN
      else if u = 9 then Some AO_REJECT_BACKEND
      else if u = 10 then Some AO_REJECT_TRANSPORT
      else if u = 11 then Some AO_REJECT_REVOKED
      else if u = 12 then Some AO_REJECT_DEREGISTERED
      else if u = 13 then Some AO_REJECT_UNKNOWN_CAPABILITY
      else if u = 14 then Some AO_REJECT_NOT_REGISTERED
      else if u = 15 then Some AO_REJECT_LEASE
      else None)"

interpretation access_outcome_enum: enum_code access_outcome_code access_outcome_of_code 15
proof
  show "access_outcome_of_code (access_outcome_code e) = Some e" for e
    by (cases e) (simp_all add: access_outcome_of_code_def)
  show "access_outcome_of_code u = Some e \<Longrightarrow> access_outcome_code e = u" for u e
    by (auto simp: access_outcome_of_code_def split: if_splits)
  show "access_outcome_of_code u = None \<longleftrightarrow> (15 :: u8) < u" for u
    by (simp add: not_le [symmetric] u8_le_numeral access_outcome_of_code_def)
qed

fun transport_class_code :: "TransportClass \<Rightarrow> u8" where
  "transport_class_code TC_INFINIBAND_CLASS = 0"
| "transport_class_code TC_ROCE_CLASS = 1"
| "transport_class_code TC_IWARP_CLASS = 2"
| "transport_class_code TC_WINDOWS_ND_CLASS = 3"
| "transport_class_code TC_LIBFABRIC_CLASS = 4"
| "transport_class_code TC_VERBS_CLASS = 5"
| "transport_class_code TC_TCP_REFERENCE = 6"
| "transport_class_code TC_SYNTHETIC = 7"
| "transport_class_code TC_UNKNOWN = 8"

definition transport_class_of_code :: "u8 \<Rightarrow> TransportClass option" where
  "transport_class_of_code u =
     (if u = 0 then Some TC_INFINIBAND_CLASS
      else if u = 1 then Some TC_ROCE_CLASS
      else if u = 2 then Some TC_IWARP_CLASS
      else if u = 3 then Some TC_WINDOWS_ND_CLASS
      else if u = 4 then Some TC_LIBFABRIC_CLASS
      else if u = 5 then Some TC_VERBS_CLASS
      else if u = 6 then Some TC_TCP_REFERENCE
      else if u = 7 then Some TC_SYNTHETIC
      else if u = 8 then Some TC_UNKNOWN
      else None)"

interpretation transport_class_enum: enum_code transport_class_code transport_class_of_code 8
proof
  show "transport_class_of_code (transport_class_code e) = Some e" for e
    by (cases e) (simp_all add: transport_class_of_code_def)
  show "transport_class_of_code u = Some e \<Longrightarrow> transport_class_code e = u" for u e
    by (auto simp: transport_class_of_code_def split: if_splits)
  show "transport_class_of_code u = None \<longleftrightarrow> (8 :: u8) < u" for u
    by (simp add: not_le [symmetric] u8_le_numeral transport_class_of_code_def)
qed

fun provenance_code :: "Provenance \<Rightarrow> u8" where
  "provenance_code PV_REAL = 0"
| "provenance_code PV_SYNTHETIC = 1"
| "provenance_code PV_UNKNOWN = 2"

definition provenance_of_code :: "u8 \<Rightarrow> Provenance option" where
  "provenance_of_code u =
     (if u = 0 then Some PV_REAL
      else if u = 1 then Some PV_SYNTHETIC
      else if u = 2 then Some PV_UNKNOWN
      else None)"

interpretation provenance_enum: enum_code provenance_code provenance_of_code 2
proof
  show "provenance_of_code (provenance_code e) = Some e" for e
    by (cases e) (simp_all add: provenance_of_code_def)
  show "provenance_of_code u = Some e \<Longrightarrow> provenance_code e = u" for u e
    by (auto simp: provenance_of_code_def split: if_splits)
  show "provenance_of_code u = None \<longleftrightarrow> (2 :: u8) < u" for u
    by (simp add: not_le [symmetric] u8_le_numeral provenance_of_code_def)
qed

fun registration_mode_code :: "RegistrationMode \<Rightarrow> u8" where
  "registration_mode_code RM_PIN_ONLY = 0"
| "registration_mode_code RM_REMOTE_ACCESS = 1"
| "registration_mode_code RM_ANY = 2"

definition registration_mode_of_code :: "u8 \<Rightarrow> RegistrationMode option" where
  "registration_mode_of_code u =
     (if u = 0 then Some RM_PIN_ONLY
      else if u = 1 then Some RM_REMOTE_ACCESS
      else if u = 2 then Some RM_ANY
      else None)"

interpretation registration_mode_enum: enum_code registration_mode_code registration_mode_of_code 2
proof
  show "registration_mode_of_code (registration_mode_code e) = Some e" for e
    by (cases e) (simp_all add: registration_mode_of_code_def)
  show "registration_mode_of_code u = Some e \<Longrightarrow> registration_mode_code e = u" for u e
    by (auto simp: registration_mode_of_code_def split: if_splits)
  show "registration_mode_of_code u = None \<longleftrightarrow> (2 :: u8) < u" for u
    by (simp add: not_le [symmetric] u8_le_numeral registration_mode_of_code_def)
qed

fun lifetime_policy_code :: "LifetimePolicy \<Rightarrow> u8" where
  "lifetime_policy_code LP_TRANSACTIONAL = 0"
| "lifetime_policy_code LP_PERSISTENT = 1"
| "lifetime_policy_code LP_EPHEMERAL = 2"

definition lifetime_policy_of_code :: "u8 \<Rightarrow> LifetimePolicy option" where
  "lifetime_policy_of_code u =
     (if u = 0 then Some LP_TRANSACTIONAL
      else if u = 1 then Some LP_PERSISTENT
      else if u = 2 then Some LP_EPHEMERAL
      else None)"

interpretation lifetime_policy_enum: enum_code lifetime_policy_code lifetime_policy_of_code 2
proof
  show "lifetime_policy_of_code (lifetime_policy_code e) = Some e" for e
    by (cases e) (simp_all add: lifetime_policy_of_code_def)
  show "lifetime_policy_of_code u = Some e \<Longrightarrow> lifetime_policy_code e = u" for u e
    by (auto simp: lifetime_policy_of_code_def split: if_splits)
  show "lifetime_policy_of_code u = None \<longleftrightarrow> (2 :: u8) < u" for u
    by (simp add: not_le [symmetric] u8_le_numeral lifetime_policy_of_code_def)
qed

fun transfer_direction_code :: "TransferDirection \<Rightarrow> u8" where
  "transfer_direction_code TD_NONE = 0"
| "transfer_direction_code TD_SEND = 1"
| "transfer_direction_code TD_RECEIVE = 2"
| "transfer_direction_code TD_BIDIRECTIONAL = 3"

definition transfer_direction_of_code :: "u8 \<Rightarrow> TransferDirection option" where
  "transfer_direction_of_code u =
     (if u = 0 then Some TD_NONE
      else if u = 1 then Some TD_SEND
      else if u = 2 then Some TD_RECEIVE
      else if u = 3 then Some TD_BIDIRECTIONAL
      else None)"

interpretation transfer_direction_enum: enum_code transfer_direction_code transfer_direction_of_code 3
proof
  show "transfer_direction_of_code (transfer_direction_code e) = Some e" for e
    by (cases e) (simp_all add: transfer_direction_of_code_def)
  show "transfer_direction_of_code u = Some e \<Longrightarrow> transfer_direction_code e = u" for u e
    by (auto simp: transfer_direction_of_code_def split: if_splits)
  show "transfer_direction_of_code u = None \<longleftrightarrow> (3 :: u8) < u" for u
    by (simp add: not_le [symmetric] u8_le_numeral transfer_direction_of_code_def)
qed

fun capability_state_code :: "CapabilityState \<Rightarrow> u8" where
  "capability_state_code CS_SUPPORTED = 0"
| "capability_state_code CS_NOT_SUPPORTED = 1"
| "capability_state_code CS_UNKNOWN = 2"

definition capability_state_of_code :: "u8 \<Rightarrow> CapabilityState option" where
  "capability_state_of_code u =
     (if u = 0 then Some CS_SUPPORTED
      else if u = 1 then Some CS_NOT_SUPPORTED
      else if u = 2 then Some CS_UNKNOWN
      else None)"

interpretation capability_state_enum: enum_code capability_state_code capability_state_of_code 2
proof
  show "capability_state_of_code (capability_state_code e) = Some e" for e
    by (cases e) (simp_all add: capability_state_of_code_def)
  show "capability_state_of_code u = Some e \<Longrightarrow> capability_state_code e = u" for u e
    by (auto simp: capability_state_of_code_def split: if_splits)
  show "capability_state_of_code u = None \<longleftrightarrow> (2 :: u8) < u" for u
    by (simp add: not_le [symmetric] u8_le_numeral capability_state_of_code_def)
qed

fun backend_state_code :: "BackendState \<Rightarrow> u8" where
  "backend_state_code BS_READY = 0"
| "backend_state_code BS_DISCOVERING = 1"
| "backend_state_code BS_FAILED = 2"
| "backend_state_code BS_DESTROYED = 3"

definition backend_state_of_code :: "u8 \<Rightarrow> BackendState option" where
  "backend_state_of_code u =
     (if u = 0 then Some BS_READY
      else if u = 1 then Some BS_DISCOVERING
      else if u = 2 then Some BS_FAILED
      else if u = 3 then Some BS_DESTROYED
      else None)"

interpretation backend_state_enum: enum_code backend_state_code backend_state_of_code 3
proof
  show "backend_state_of_code (backend_state_code e) = Some e" for e
    by (cases e) (simp_all add: backend_state_of_code_def)
  show "backend_state_of_code u = Some e \<Longrightarrow> backend_state_code e = u" for u e
    by (auto simp: backend_state_of_code_def split: if_splits)
  show "backend_state_of_code u = None \<longleftrightarrow> (3 :: u8) < u" for u
    by (simp add: not_le [symmetric] u8_le_numeral backend_state_of_code_def)
qed

fun freshness_code :: "Freshness \<Rightarrow> u8" where
  "freshness_code FR_VALID = 0"
| "freshness_code FR_REVALIDATION_REQUIRED = 1"
| "freshness_code FR_STALE = 2"
| "freshness_code FR_UNKNOWN = 3"

definition freshness_of_code :: "u8 \<Rightarrow> Freshness option" where
  "freshness_of_code u =
     (if u = 0 then Some FR_VALID
      else if u = 1 then Some FR_REVALIDATION_REQUIRED
      else if u = 2 then Some FR_STALE
      else if u = 3 then Some FR_UNKNOWN
      else None)"

interpretation freshness_enum: enum_code freshness_code freshness_of_code 3
proof
  show "freshness_of_code (freshness_code e) = Some e" for e
    by (cases e) (simp_all add: freshness_of_code_def)
  show "freshness_of_code u = Some e \<Longrightarrow> freshness_code e = u" for u e
    by (auto simp: freshness_of_code_def split: if_splits)
  show "freshness_of_code u = None \<longleftrightarrow> (3 :: u8) < u" for u
    by (simp add: not_le [symmetric] u8_le_numeral freshness_of_code_def)
qed

lemmas enum_of_code_code [simp] =
  memory_domain_enum.of_code_code
  pointer_kind_enum.of_code_code
  lifecycle_enum.of_code_code
  access_outcome_enum.of_code_code
  transport_class_enum.of_code_code
  provenance_enum.of_code_code
  registration_mode_enum.of_code_code
  lifetime_policy_enum.of_code_code
  transfer_direction_enum.of_code_code
  capability_state_enum.of_code_code
  backend_state_enum.of_code_code
  freshness_enum.of_code_code

section \<open>Access masks\<close>

type_synonym AccessMask = u8

datatype AccessRight =
  AR_LOCAL_READ
| AR_LOCAL_WRITE
| AR_REMOTE_READ
| AR_REMOTE_WRITE
| AR_REMOTE_ATOMIC

fun access_mask :: "AccessRight \<Rightarrow> AccessMask" where
  "access_mask AR_LOCAL_READ = 0x01"
| "access_mask AR_LOCAL_WRITE = 0x02"
| "access_mask AR_REMOTE_READ = 0x04"
| "access_mask AR_REMOTE_WRITE = 0x08"
| "access_mask AR_REMOTE_ATOMIC = 0x10"

definition access_has :: "AccessMask \<Rightarrow> AccessRight \<Rightarrow> bool" where
  "access_has m r \<longleftrightarrow> m AND access_mask r \<noteq> 0"

definition access_add :: "AccessMask \<Rightarrow> AccessRight \<Rightarrow> AccessMask" where
  "access_add m r = m OR access_mask r"

definition is_strict_cuda_domain :: "MemoryDomain \<Rightarrow> bool" where
  "is_strict_cuda_domain v \<longleftrightarrow> v = MD_CUDA_DEVICE \<or> v = MD_CUDA_MANAGED"

text \<open>\<open>access_superset\<close> of \<open>registry.cpp\<close>: every requested bit is granted.\<close>

definition access_superset :: "AccessMask \<Rightarrow> AccessMask \<Rightarrow> bool" where
  "access_superset granted requested \<longleftrightarrow> granted AND requested = requested"

definition right_bit :: "AccessRight \<Rightarrow> nat" where
  "right_bit r =
     (case r of AR_LOCAL_READ \<Rightarrow> 0 | AR_LOCAL_WRITE \<Rightarrow> 1 | AR_REMOTE_READ \<Rightarrow> 2
      | AR_REMOTE_WRITE \<Rightarrow> 3 | AR_REMOTE_ATOMIC \<Rightarrow> 4)"

lemma access_mask_bit: "access_mask r = push_bit (right_bit r) 1"
  by (cases r) (simp_all add: right_bit_def push_bit_eq_mult)

lemma access_has_bit: "access_has m r \<longleftrightarrow> bit m (right_bit r)"
proof -
  have len: "right_bit r < 8" by (cases r) (simp_all add: right_bit_def)
  have "m AND access_mask r = (if bit m (right_bit r) then access_mask r else 0)"
    unfolding access_mask_bit
    by (rule bit_word_eqI) (auto simp: bit_simps)
  moreover have "access_mask r \<noteq> 0" by (cases r) simp_all
  ultimately show ?thesis by (simp add: access_has_def)
qed

lemma access_superset_bits:
  "access_superset g q \<longleftrightarrow> (\<forall>i. bit q i \<longrightarrow> bit g i)"
proof
  assume "access_superset g q"
  then show "\<forall>i. bit q i \<longrightarrow> bit g i"
    unfolding access_superset_def by (metis bit_and_iff)
next
  assume "\<forall>i. bit q i \<longrightarrow> bit g i"
  then show "access_superset g q"
    unfolding access_superset_def by (auto intro!: bit_word_eqI simp: bit_and_iff)
qed

text \<open>A superset grants every single right that is requested.\<close>

lemma access_superset_has: "access_superset g q \<Longrightarrow> access_has q r \<Longrightarrow> access_has g r"
  by (auto simp: access_superset_bits access_has_bit)

lemma access_has_add: "access_has (access_add m r) r' \<longleftrightarrow> r = r' \<or> access_has m r'"
  unfolding access_has_bit access_add_def access_mask_bit
  by (cases r; cases r') (auto simp: bit_simps right_bit_def)

lemma access_superset_refl [simp]: "access_superset m m"
  by (simp add: access_superset_bits)

lemma access_superset_zero [simp]: "access_superset m 0"
  by (simp add: access_superset_bits)

section \<open>Capabilities\<close>

text \<open>\<open>capability_allows\<close>: only \<open>SUPPORTED\<close> is a permission; \<open>UNKNOWN\<close> is not.\<close>

definition capability_allows :: "CapabilityState \<Rightarrow> bool" where
  "capability_allows s \<longleftrightarrow> s = CS_SUPPORTED"

text \<open>The right an operation needs of itself (\<open>validate_remote_access\<close>).\<close>

definition intrinsic_right :: "OperationKind \<Rightarrow> AccessRight" where
  "intrinsic_right k =
     (if k = OP_WRITE then AR_REMOTE_WRITE else if k = OP_READ then AR_REMOTE_READ
      else AR_REMOTE_ATOMIC)"

declare access_has_def [exec_defs] access_superset_def [exec_defs] intrinsic_right_def [exec_defs] capability_allows_def [exec_defs]

end
