(* ===== verification/BufferModel.thy ===== *)
theory BufferModel
  imports Enums
begin

text \<open>
  Buffer descriptors and their range arithmetic (\<open>include/rdmabuffer/buffer_model.hpp\<close>).
  Addresses and lengths are 64-bit words; the lemmas state over natural numbers what the
  overflow checks buy: a range that passes lies in the buffer without wrapping around.
\<close>

section \<open>Descriptors\<close>

record BufferPointer =
  bp_address :: u64
  bp_kind :: PointerKind

definition bp_valid :: "BufferPointer \<Rightarrow> bool" where
  "bp_valid p \<longleftrightarrow> bp_address p \<noteq> 0"

record BufferDescriptor =
  bd_id :: BufferId
  bd_generation :: BufferGeneration
  bd_domain :: MemoryDomain
  bd_base :: BufferPointer
  bd_byte_length :: u64
  bd_alignment :: u64
  bd_page_size :: u64
  bd_owner :: OwnerId
  bd_process :: ProcessId
  bd_worker :: WorkerId
  bd_node :: NodeId
  bd_device :: DeviceId
  bd_direction :: TransferDirection
  bd_requested_access :: AccessMask
  bd_registration_mode :: RegistrationMode
  bd_lifetime :: LifetimePolicy
  bd_provenance :: Provenance
  bd_freshness :: Freshness
  bd_policy_generation :: PolicyGeneration

section \<open>Range checks\<close>

record BufferValidation =
  bv_ok :: bool
  bv_code :: string

text \<open>\<open>UINT64_MAX\<close> is the word \<open>- 1\<close>; the result of the addition is the out parameter.\<close>

definition checked_add :: "u64 \<Rightarrow> u64 \<Rightarrow> u64 option" where
  "checked_add a b = (if a > - 1 - b then None else Some (a + b))"

definition validate_range :: "BufferDescriptor \<Rightarrow> BufferValidation" where
  "validate_range d =
     (if bd_byte_length d = 0 then \<lparr>bv_ok = False, bv_code = ''ZERO_LENGTH''\<rparr>
      else if \<not> bp_valid (bd_base d) \<and> bd_domain d \<noteq> MD_SYNTHETIC_REMOTE_CAPABLE \<and>
              bd_domain d \<noteq> MD_FILE_BACKED
      then \<lparr>bv_ok = False, bv_code = ''NULL_OR_INVALID_POINTER''\<rparr>
      else if bd_alignment d = 0 then \<lparr>bv_ok = False, bv_code = ''ZERO_ALIGNMENT''\<rparr>
      else if bd_alignment d \<noteq> 0 \<and> bp_address (bd_base d) mod bd_alignment d \<noteq> 0
      then \<lparr>bv_ok = False, bv_code = ''MISALIGNED_BASE''\<rparr>
      else (case checked_add (bp_address (bd_base d)) (bd_byte_length d) of
              None \<Rightarrow> \<lparr>bv_ok = False, bv_code = ''OVERFLOW''\<rparr>
            | Some _ \<Rightarrow> \<lparr>bv_ok = True, bv_code = ''OK''\<rparr>))"

definition range_inside :: "BufferDescriptor \<Rightarrow> u64 \<Rightarrow> u64 \<Rightarrow> bool" where
  "range_inside d offset len =
     (if offset > bd_byte_length d then False
      else (case checked_add offset len of
              None \<Rightarrow> False
            | Some requested_end \<Rightarrow> requested_end \<le> bd_byte_length d))"

section \<open>What the checks establish\<close>

lemma unat_max_minus: "unat (- 1 - b :: u64) = 2 ^ 64 - 1 - unat b"
proof -
  have "b \<le> - 1" by simp
  then have "unat (- 1 - b) = unat (- 1 :: u64) - unat b" by (rule unat_sub)
  then show ?thesis by (simp add: unsigned_minus_1_eq_mask mask_eq_exp_minus_1)
qed

lemma unat_u64_bound: "unat (a :: u64) < 2 ^ 64"
  using unsigned_less [of a] by simp

lemma checked_add_Some_iff:
  "checked_add a b = Some c \<longleftrightarrow> unat a + unat b < 2 ^ 64 \<and> unat c = unat a + unat b"
proof -
  have guard: "a > - 1 - b \<longleftrightarrow> \<not> unat a + unat b < 2 ^ 64"
    using unat_u64_bound [of b] by (simp add: word_less_nat_alt unat_max_minus) linarith
  show ?thesis
  proof (cases "unat a + unat b < 2 ^ 64")
    case True
    then have "unat (a + b) = unat a + unat b" by (subst unat_add_lem [symmetric]) simp
    with True guard show ?thesis by (auto simp: checked_add_def word_unat_eq_iff)
  next
    case False
    with guard show ?thesis by (simp add: checked_add_def)
  qed
qed

lemma checked_add_None_iff: "checked_add a b = None \<longleftrightarrow> 2 ^ 64 \<le> unat a + unat b"
proof -
  have "checked_add a b = Some (a + b) \<or> checked_add a b = None"
    by (simp add: checked_add_def)
  then show ?thesis
    using checked_add_Some_iff [of a b "a + b"] unat_add_lem [of a b]
    by (auto simp: not_less)
qed

lemma range_inside_iff:
  "range_inside d off len \<longleftrightarrow> unat off + unat len \<le> unat (bd_byte_length d)"
proof (cases "checked_add off len")
  case None
  then have "2 ^ 64 \<le> unat off + unat len" by (simp only: checked_add_None_iff)
  with None show ?thesis
    using unat_u64_bound [of "bd_byte_length d"] by (simp add: range_inside_def)
next
  case (Some c)
  then have c: "unat c = unat off + unat len" by (simp add: checked_add_Some_iff)
  with Some show ?thesis
    by (auto simp: range_inside_def word_less_nat_alt word_le_nat_alt)
qed

lemma validate_range_ok_iff:
  "bv_ok (validate_range d) \<longleftrightarrow>
     bd_byte_length d \<noteq> 0 \<and>
     (bp_valid (bd_base d) \<or> bd_domain d \<in> {MD_SYNTHETIC_REMOTE_CAPABLE, MD_FILE_BACKED}) \<and>
     bd_alignment d \<noteq> 0 \<and>
     unat (bd_alignment d) dvd unat (bp_address (bd_base d)) \<and>
     unat (bp_address (bd_base d)) + unat (bd_byte_length d) < 2 ^ 64"
proof -
  have "bp_address (bd_base d) mod bd_alignment d = 0 \<longleftrightarrow>
    unat (bd_alignment d) dvd unat (bp_address (bd_base d))"
    by (simp add: word_unat_eq_iff unat_mod_distrib dvd_eq_mod_eq_0)
  moreover have "(\<exists>c. checked_add (bp_address (bd_base d)) (bd_byte_length d) = Some c) \<longleftrightarrow>
    unat (bp_address (bd_base d)) + unat (bd_byte_length d) < 2 ^ 64"
    using checked_add_None_iff [of "bp_address (bd_base d)" "bd_byte_length d"]
    by (cases "checked_add (bp_address (bd_base d)) (bd_byte_length d)") (auto simp: not_le)
  ultimately show ?thesis
    by (auto simp: validate_range_def split: option.splits)
qed

lemma validate_range_ok_code: "bv_ok (validate_range d) \<longleftrightarrow> bv_code (validate_range d) = ''OK''"
  by (simp add: validate_range_def split: option.splits)

declare checked_add_def [exec_defs] validate_range_def [exec_defs] range_inside_def [exec_defs]
  bp_valid_def [exec_defs]

section \<open>Property\<close>

text \<open>C38. A sub-range that \<open>range_inside\<close> accepts, of a descriptor that \<open>validate_range\<close>
  accepts, lies within the buffer as an interval of absolute addresses, and none of the
  additions the runtime or a backend performs on it wraps around. Conversely a sub-range
  that does lie within the buffer is accepted.\<close>

theorem accepted_range_is_contained:
  assumes "bv_ok (validate_range d)"
  defines "base \<equiv> bp_address (bd_base d)"
  shows "range_inside d off len \<longleftrightarrow>
    unat (base + off) = unat base + unat off \<and>
    unat (base + off + len) = unat base + unat off + unat len \<and>
    unat base \<le> unat (base + off) \<and>
    unat (base + off + len) \<le> unat (base + bd_byte_length d)"
proof -
  from assms have len: "unat base + unat (bd_byte_length d) < 2 ^ 64"
    by (simp add: validate_range_ok_iff)
  then have e: "unat (base + bd_byte_length d) = unat base + unat (bd_byte_length d)"
    by (subst unat_add_lem [symmetric]) simp
  show ?thesis
  proof
    assume "range_inside d off len"
    then have le: "unat off + unat len \<le> unat (bd_byte_length d)"
      by (simp add: range_inside_iff)
    with len have 1: "unat (base + off) = unat base + unat off"
      by (subst unat_add_lem [symmetric]) simp
    with le len have "unat (base + off + len) = unat base + unat off + unat len"
      by (subst unat_add_lem [THEN iffD1]) simp_all
    with 1 le e show "unat (base + off) = unat base + unat off \<and>
      unat (base + off + len) = unat base + unat off + unat len \<and>
      unat base \<le> unat (base + off) \<and>
      unat (base + off + len) \<le> unat (base + bd_byte_length d)" by simp
  qed (simp add: range_inside_iff e)
qed

definition page_buffer :: BufferDescriptor where
  "page_buffer =
     \<lparr>bd_id = StrongId 1, bd_generation = StrongGeneration 1,
      bd_domain = MD_SYNTHETIC_REMOTE_CAPABLE,
      bd_base = \<lparr>bp_address = 0x1000, bp_kind = PK_SYNTHETIC\<rparr>,
      bd_byte_length = 4096, bd_alignment = 4096, bd_page_size = 4096,
      bd_owner = StrongId 1, bd_process = StrongId 1, bd_worker = StrongId 1,
      bd_node = StrongId 1, bd_device = no_id, bd_direction = TD_BIDIRECTIONAL,
      bd_requested_access = 0x0C, bd_registration_mode = RM_REMOTE_ACCESS,
      bd_lifetime = LP_TRANSACTIONAL, bd_provenance = PV_SYNTHETIC, bd_freshness = FR_VALID,
      bd_policy_generation = StrongGeneration 1\<rparr>"

theorem accepted_range_is_contained_witness:
  "bv_ok (validate_range page_buffer) \<and>
   (range_inside page_buffer 4000 96 \<longleftrightarrow>
    unat (0x1000 + 4000 :: u64) = unat (0x1000 :: u64) + unat (4000 :: u64) \<and>
    unat (0x1000 + 4000 + 96 :: u64) = unat (0x1000 :: u64) + unat (4000 :: u64) + unat (96 :: u64) \<and>
    unat (0x1000 :: u64) \<le> unat (0x1000 + 4000 :: u64) \<and>
    unat (0x1000 + 4000 + 96 :: u64) \<le> unat (0x1000 + 4096 :: u64))"
proof -
  have ok: "bv_ok (validate_range page_buffer)"
    by (simp add: exec_defs page_buffer_def)
  then show ?thesis
    using accepted_range_is_contained [OF ok, of 4000 96]
    by (simp add: page_buffer_def)
qed

end
