(* ===== verification/Authority.thy ===== *)
theory Authority
  imports Enums
begin

text \<open>
  The authority model of \<open>include/rdmabuffer/authority.hpp\<close>: the snapshot the runtime holds,
  the envelope a caller supplies, and the decision \<open>validate_authority\<close> takes between them.
\<close>

record AuthoritySnapshot =
  as_coordinator_epoch :: CoordinatorEpoch
  as_worker_boot :: WorkerBootId
  as_worker :: WorkerId
  as_owner :: OwnerId
  as_owner_generation :: OwnerGeneration
  as_worker_generation :: WorkerGeneration
  as_policy_generation :: PolicyGeneration
  as_backend_generation :: BackendGeneration
  as_transport_generation :: TransportGeneration
  as_nic_generation :: NicGeneration
  as_node :: NodeId
  as_process :: ProcessId
  as_provenance :: Provenance

definition default_snapshot :: AuthoritySnapshot where
  "default_snapshot =
     \<lparr>as_coordinator_epoch = no_gen, as_worker_boot = no_id, as_worker = no_id,
      as_owner = no_id, as_owner_generation = no_gen, as_worker_generation = no_gen,
      as_policy_generation = no_gen, as_backend_generation = no_gen,
      as_transport_generation = no_gen, as_nic_generation = no_gen,
      as_node = no_id, as_process = no_id, as_provenance = PV_UNKNOWN\<rparr>"

record AuthorityEnvelope =
  ae_coordinator_epoch :: CoordinatorEpoch
  ae_worker_boot :: WorkerBootId
  ae_owner :: OwnerId
  ae_owner_generation :: OwnerGeneration
  ae_worker_generation :: WorkerGeneration
  ae_node :: NodeId
  ae_process :: ProcessId

record AccessDecision =
  ad_outcome :: AccessOutcome
  ad_code :: string
  ad_explanation :: string

definition make_decision :: "AccessOutcome \<Rightarrow> string \<Rightarrow> AccessDecision" where
  "make_decision oc explanation =
     \<lparr>ad_outcome = oc, ad_code = access_outcome_name oc, ad_explanation = explanation\<rparr>"

definition incarnation_matches :: "AuthoritySnapshot \<Rightarrow> WorkerBootId \<Rightarrow> bool" where
  "incarnation_matches snap boot \<longleftrightarrow> id_valid boot \<and> as_worker_boot snap = boot"

definition authority_current :: "AuthoritySnapshot \<Rightarrow> AuthorityEnvelope \<Rightarrow> bool" where
  "authority_current snap env =
     (if \<not> incarnation_matches snap (ae_worker_boot env) then False
      else if \<not> gen_valid (as_coordinator_epoch snap) \<or>
              as_coordinator_epoch snap \<noteq> ae_coordinator_epoch env then False
      else True)"

definition boot_current :: "AuthoritySnapshot \<Rightarrow> WorkerBootId \<Rightarrow> bool" where
  "boot_current snap boot = incarnation_matches snap boot"

definition owner_current :: "AuthoritySnapshot \<Rightarrow> AuthorityEnvelope \<Rightarrow> bool" where
  "owner_current snap env \<longleftrightarrow>
     id_valid (as_owner snap) \<and> as_owner snap = ae_owner env \<and>
     gen_valid (as_owner_generation snap) \<and> as_owner_generation snap = ae_owner_generation env"

definition validate_authority :: "AuthoritySnapshot \<Rightarrow> AuthorityEnvelope \<Rightarrow> AccessDecision" where
  "validate_authority snap env =
     (if \<not> gen_valid (ae_coordinator_epoch env) \<or> \<not> gen_valid (as_coordinator_epoch snap) \<or>
         ae_coordinator_epoch env \<noteq> as_coordinator_epoch snap
      then make_decision AO_REJECT_STALE_EPOCH
             (msg ''CoordinatorEpoch mismatch: request '' @
              int_to_str (gen_value (ae_coordinator_epoch env)) @ msg '' is not current '' @
              int_to_str (gen_value (as_coordinator_epoch snap)) @ msg ''.'')
      else if \<not> id_valid (ae_worker_boot env) \<or> \<not> id_valid (as_worker_boot snap) \<or>
              ae_worker_boot env \<noteq> as_worker_boot snap
      then make_decision AO_REJECT_STALE_BOOT
             (msg ''WorkerBootId is stale or absent; authority is incarnation-scoped.'')
      else if \<not> id_valid (ae_owner env) \<or> \<not> id_valid (as_owner snap) \<or>
              ae_owner env \<noteq> as_owner snap
      then make_decision AO_REJECT_PERMISSION
             (msg ''Owner is not current for this authority snapshot.'')
      else if gen_valid (ae_owner_generation env) \<and> gen_valid (as_owner_generation snap) \<and>
              ae_owner_generation env \<noteq> as_owner_generation snap
      then make_decision AO_REJECT_PERMISSION
             (msg ''OwnerGeneration mismatch; owner authority has been reissued.'')
      else if gen_valid (ae_worker_generation env) \<and> gen_valid (as_worker_generation snap) \<and>
              ae_worker_generation env \<noteq> as_worker_generation snap
      then make_decision AO_REJECT_PERMISSION
             (msg ''WorkerGeneration mismatch; worker incarnation has been reissued.'')
      else if \<not> id_valid (ae_node env) \<or> \<not> id_valid (as_node snap) \<or> ae_node env \<noteq> as_node snap
      then make_decision AO_REJECT_PERMISSION (msg ''Node identity mismatch.'')
      else make_decision AO_ALLOW (msg ''Authority is current.''))"

section \<open>Facts\<close>

lemma make_decision_outcome [simp]: "ad_outcome (make_decision oc e) = oc"
  by (simp add: make_decision_def)

text \<open>A guard that rejects: the decision allows exactly when the guard fails and the rest allows.\<close>

lemma decision_gate:
  "oc \<noteq> AO_ALLOW \<Longrightarrow>
     ad_outcome (if p then make_decision oc e else d) = AO_ALLOW \<longleftrightarrow> \<not> p \<and> ad_outcome d = AO_ALLOW"
  by simp

text \<open>The facts an accepted envelope shares with the snapshot, in one predicate.\<close>

definition authority_agrees :: "AuthoritySnapshot \<Rightarrow> AuthorityEnvelope \<Rightarrow> bool" where
  "authority_agrees snap env \<longleftrightarrow>
     gen_valid (as_coordinator_epoch snap) \<and> ae_coordinator_epoch env = as_coordinator_epoch snap \<and>
     id_valid (as_worker_boot snap) \<and> ae_worker_boot env = as_worker_boot snap \<and>
     id_valid (as_owner snap) \<and> ae_owner env = as_owner snap \<and>
     (gen_valid (ae_owner_generation env) \<and> gen_valid (as_owner_generation snap) \<longrightarrow>
        ae_owner_generation env = as_owner_generation snap) \<and>
     (gen_valid (ae_worker_generation env) \<and> gen_valid (as_worker_generation snap) \<longrightarrow>
        ae_worker_generation env = as_worker_generation snap) \<and>
     id_valid (as_node snap) \<and> ae_node env = as_node snap"

lemma validate_authority_allow_iff:
  "ad_outcome (validate_authority snap env) = AO_ALLOW \<longleftrightarrow> authority_agrees snap env"
  unfolding validate_authority_def authority_agrees_def
  by (simp only: decision_gate make_decision_outcome AccessOutcome.distinct simp_thms de_Morgan_disj
      de_Morgan_conj not_not) metis

lemma validate_authority_outcomes:
  "ad_outcome (validate_authority snap env) \<in>
     {AO_ALLOW, AO_REJECT_STALE_EPOCH, AO_REJECT_STALE_BOOT, AO_REJECT_PERMISSION}"
  by (simp add: validate_authority_def)

text \<open>
  Authority is incarnation-scoped: the verdict on epoch and boot is an equality test, so a
  numerically larger epoch or boot is as stale as a smaller one.
\<close>

lemma stale_epoch_rejected:
  "ae_coordinator_epoch env \<noteq> as_coordinator_epoch snap \<Longrightarrow>
     ad_outcome (validate_authority snap env) = AO_REJECT_STALE_EPOCH"
  by (simp add: validate_authority_def)

lemma stale_boot_rejected:
  "ae_worker_boot env \<noteq> as_worker_boot snap \<Longrightarrow>
     ad_outcome (validate_authority snap env) \<in> {AO_REJECT_STALE_EPOCH, AO_REJECT_STALE_BOOT}"
  by (simp add: validate_authority_def)

lemma validate_authority_current:
  "ad_outcome (validate_authority snap env) = AO_ALLOW \<Longrightarrow> authority_current snap env"
  by (simp add: validate_authority_allow_iff authority_agrees_def authority_current_def
      incarnation_matches_def)

declare validate_authority_def [exec_defs] make_decision_def [exec_defs]

end
