(* ===== verification/Records.thy ===== *)
theory Records
  imports BufferModel Authority
begin

text \<open>
  The value types the runtime stores and exchanges: keys (\<open>remote_key.hpp\<close>), registration
  records with the table of lifecycle transitions (\<open>registration.hpp\<close>), leases
  (\<open>lease.hpp\<close>), capabilities (\<open>capabilities.hpp\<close>) and remote-access requests
  (\<open>transfer.hpp\<close>), each with the default values of its members.
\<close>

section \<open>Keys\<close>

record RemoteKey =
  rk_id :: RemoteKeyId
  rk_registration :: RegistrationId
  rk_registration_generation :: RegistrationGeneration
  rk_key_generation :: RemoteKeyGeneration
  rk_buffer_generation :: BufferGeneration
  rk_boot :: WorkerBootId
  rk_process :: ProcessId
  rk_backend :: BackendId
  rk_transport :: TransportClass
  rk_access :: AccessMask
  rk_start :: u64
  rk_length :: u64
  rk_opaque_value :: u64
  rk_revoked :: bool
  rk_provenance :: Provenance

record LocalKey =
  lk_id :: LocalKeyId
  lk_registration :: RegistrationId
  lk_registration_generation :: RegistrationGeneration
  lk_boot :: WorkerBootId
  lk_backend :: BackendId
  lk_transport :: TransportClass
  lk_access :: AccessMask
  lk_opaque_value :: u64
  lk_provenance :: Provenance

definition default_remote_key :: RemoteKey where
  "default_remote_key =
     \<lparr>rk_id = no_id, rk_registration = no_id, rk_registration_generation = no_gen,
      rk_key_generation = no_gen, rk_buffer_generation = no_gen, rk_boot = no_id,
      rk_process = no_id, rk_backend = no_id, rk_transport = TC_UNKNOWN, rk_access = 0,
      rk_start = 0, rk_length = 0, rk_opaque_value = 0, rk_revoked = False,
      rk_provenance = PV_UNKNOWN\<rparr>"

definition default_local_key :: LocalKey where
  "default_local_key =
     \<lparr>lk_id = no_id, lk_registration = no_id, lk_registration_generation = no_gen,
      lk_boot = no_id, lk_backend = no_id, lk_transport = TC_UNKNOWN, lk_access = 0,
      lk_opaque_value = 0, lk_provenance = PV_UNKNOWN\<rparr>"

section \<open>Registration records\<close>

record RegistrationRecord =
  r_id :: RegistrationId
  r_buffer_id :: BufferId
  r_buffer_generation :: BufferGeneration
  r_registration_generation :: RegistrationGeneration
  r_descriptor :: BufferDescriptor
  r_backend :: BackendId
  r_backend_generation :: BackendGeneration
  r_transport :: TransportId
  r_transport_class :: TransportClass
  r_nic :: NicId
  r_domain :: MemoryDomain
  r_granted_access :: AccessMask
  r_local_key :: LocalKey
  r_remote_key :: RemoteKey
  r_start :: u64
  r_length :: u64
  r_page_alignment :: u64
  r_memory_region_id :: MemoryRegionId
  r_backend_handle :: string
  r_owner :: OwnerId
  r_process :: ProcessId
  r_worker :: WorkerId
  r_boot :: WorkerBootId
  r_epoch :: CoordinatorEpoch
  r_device :: DeviceId
  r_domain_id :: ProtectionDomainId
  r_registration_timestamp_ns :: u64
  r_provenance :: Provenance
  r_freshness :: Freshness
  r_lifecycle :: RegistrationLifecycle
  r_lease_count :: u64
  r_ref_count :: u64
  r_invalidation_reason :: string
  r_policy_generation :: PolicyGeneration

definition has_valid_remote_key :: "RegistrationRecord \<Rightarrow> bool" where
  "has_valid_remote_key r \<longleftrightarrow> id_valid (rk_id (r_remote_key r)) \<and> \<not> rk_revoked (r_remote_key r)"

text \<open>\<open>can_transition\<close>: the guarded lifecycle transitions.\<close>

fun can_transition :: "RegistrationLifecycle \<Rightarrow> RegistrationLifecycle \<Rightarrow> bool" where
  "can_transition RL_UNREGISTERED t \<longleftrightarrow> t = RL_REGISTERING"
| "can_transition RL_REGISTERING t \<longleftrightarrow>
     t = RL_REGISTERED \<or> t = RL_ACTIVE \<or> t = RL_FAILED \<or> t = RL_UNREGISTERED"
| "can_transition RL_REGISTERED t \<longleftrightarrow>
     t = RL_ACTIVE \<or> t = RL_DEREGISTERING \<or> t = RL_REVOKING \<or> t = RL_STALE \<or>
     t = RL_REVALIDATION_REQUIRED"
| "can_transition RL_ACTIVE t \<longleftrightarrow>
     t = RL_REVOKING \<or> t = RL_DEREGISTERING \<or> t = RL_STALE \<or> t = RL_REVALIDATION_REQUIRED"
| "can_transition RL_REVOKING t \<longleftrightarrow>
     t = RL_REVOKED \<or> t = RL_DEREGISTERING \<or> t = RL_DEREGISTERED \<or> t = RL_FAILED"
| "can_transition RL_REVOKED t \<longleftrightarrow> t = RL_DEREGISTERING \<or> t = RL_DEREGISTERED"
| "can_transition RL_DEREGISTERING t \<longleftrightarrow> t = RL_DEREGISTERED \<or> t = RL_FAILED"
| "can_transition RL_DEREGISTERED t \<longleftrightarrow> False"
| "can_transition RL_FAILED t \<longleftrightarrow> t = RL_UNREGISTERED \<or> t = RL_DEREGISTERED"
| "can_transition RL_STALE t \<longleftrightarrow>
     t = RL_REVALIDATION_REQUIRED \<or> t = RL_DEREGISTERING \<or> t = RL_DEREGISTERED"
| "can_transition RL_REVALIDATION_REQUIRED t \<longleftrightarrow> t = RL_REGISTERING \<or> t = RL_DEREGISTERED"

text \<open>The lifecycles from which the registry leases, reuses, revokes and rotates.\<close>

definition is_live :: "RegistrationLifecycle \<Rightarrow> bool" where
  "is_live l \<longleftrightarrow> l = RL_ACTIVE \<or> l = RL_REGISTERED"

section \<open>Leases\<close>

record Lease =
  l_id :: RegistrationLeaseId
  l_registration :: RegistrationId
  l_registration_generation :: RegistrationGeneration
  l_lease_generation :: LeaseGeneration
  l_buffer_generation :: BufferGeneration
  l_boot :: WorkerBootId
  l_owner :: OwnerId
  l_domain :: ProtectionDomainId
  l_access :: AccessMask
  l_state :: LeaseState
  l_provenance :: Provenance
  l_acquired_at_ns :: u64

definition default_lease :: Lease where
  "default_lease =
     \<lparr>l_id = no_id, l_registration = no_id, l_registration_generation = no_gen,
      l_lease_generation = no_gen, l_buffer_generation = no_gen, l_boot = no_id,
      l_owner = no_id, l_domain = no_id, l_access = 0, l_state = LS_PENDING,
      l_provenance = PV_UNKNOWN, l_acquired_at_ns = 0\<rparr>"

section \<open>Capabilities\<close>

record BackendCapabilities =
  bc_supported_domains :: "MemoryDomain list"
  bc_max_registration_length :: u64
  bc_required_alignment :: u64
  bc_remote_read :: CapabilityState
  bc_remote_write :: CapabilityState
  bc_remote_atomic :: CapabilityState
  bc_host_pinned :: CapabilityState
  bc_pageable_registration :: CapabilityState
  bc_cuda_device :: CapabilityState
  bc_cuda_managed :: CapabilityState
  bc_on_demand_paging :: CapabilityState
  bc_one_sided :: CapabilityState
  bc_multiprocess :: CapabilityState
  bc_multinode :: CapabilityState
  bc_key_rotation :: CapabilityState
  bc_revocation :: CapabilityState
  bc_provenance :: Provenance

definition default_capabilities :: BackendCapabilities where
  "default_capabilities =
     \<lparr>bc_supported_domains = [], bc_max_registration_length = 0, bc_required_alignment = 1,
      bc_remote_read = CS_UNKNOWN, bc_remote_write = CS_UNKNOWN, bc_remote_atomic = CS_UNKNOWN,
      bc_host_pinned = CS_UNKNOWN, bc_pageable_registration = CS_UNKNOWN,
      bc_cuda_device = CS_UNKNOWN, bc_cuda_managed = CS_UNKNOWN,
      bc_on_demand_paging = CS_UNKNOWN, bc_one_sided = CS_UNKNOWN,
      bc_multiprocess = CS_UNKNOWN, bc_multinode = CS_UNKNOWN, bc_key_rotation = CS_UNKNOWN,
      bc_revocation = CS_UNKNOWN, bc_provenance = PV_UNKNOWN\<rparr>"

record BackendInfo =
  bi_id :: BackendId
  bi_name :: string
  bi_description :: string
  bi_provenance :: Provenance
  bi_capabilities :: BackendCapabilities
  bi_state :: BackendState
  bi_generation :: BackendGeneration
  bi_prot_domain_count :: u64
  bi_registration_count :: u64

text \<open>\<open>domain_supported\<close>: the loop over \<open>supported_domains\<close>.\<close>

definition domain_supported :: "BackendCapabilities \<Rightarrow> MemoryDomain \<Rightarrow> bool" where
  "domain_supported caps domain = list_ex (\<lambda>d. d = domain) (bc_supported_domains caps)"

section \<open>Remote-access requests\<close>

record RemoteAccessRequest =
  q_transfer_id :: TransferId
  q_source_registration :: RegistrationId
  q_offset :: u64
  q_length :: u64
  q_kind :: OperationKind
  q_required_rights :: AccessMask
  q_expected_buffer_generation :: BufferGeneration
  q_expected_registration_generation :: RegistrationGeneration
  q_expected_remote_key_generation :: RemoteKeyGeneration
  q_attempt :: AttemptId
  q_dispatch :: DispatchId
  q_authority :: AuthorityEnvelope
  q_domain :: ProtectionDomainId
  q_backend :: BackendId
  q_transport :: TransportId
  q_nic :: NicId
  q_process :: ProcessId
  q_node :: NodeId
  q_sim_seed :: u64

section \<open>Facts about lifecycles\<close>

text \<open>
  \<open>DEREGISTERED\<close> is terminal, and a registration that has left the live states returns to
  them only through \<open>REGISTERING\<close>, that is, through a new registration.
\<close>

lemma can_transition_live_only:
  "can_transition f t \<Longrightarrow> is_live t \<Longrightarrow> f = RL_REGISTERING \<or> f = RL_REGISTERED"
  by (cases f) (auto simp: is_live_def)

lemma deregistered_terminal: "\<not> can_transition RL_DEREGISTERED t"
  by simp

declare is_live_def [exec_defs] domain_supported_def [exec_defs] default_remote_key_def [exec_defs]
  default_local_key_def [exec_defs] default_lease_def [exec_defs]

end
