(* ===== verification/Backend.thy ===== *)
theory Backend
  imports Records
begin

text \<open>
  The backend contract (\<open>include/rdmabuffer/backend.hpp\<close>): the types that cross the
  interface and, as two locales, what the runtime relies on when it calls an
  \<open>IBackend\<close>.

  A backend is described by its \<open>view\<close>: for each handle the key generation, length and
  granted rights of the live registration behind it, and whether its key material is usable.
  \<open>ibackend\<close> says how every operation of the interface changes the view and that
  \<open>query_remote_access\<close> answers exactly by it; \<open>fresh_backend\<close> adds that a new registration
  never takes over the handle of a live one. The synthetic and the reference backend and the
  dispatch over both are proved instances in their own theories.
\<close>

section \<open>Types of the interface\<close>

record RegistrationContext =
  cx_domain :: ProtectionDomainId
  cx_node :: NodeId
  cx_process :: ProcessId
  cx_worker :: WorkerId
  cx_worker_boot :: WorkerBootId
  cx_epoch :: CoordinatorEpoch
  cx_owner :: OwnerId
  cx_owner_generation :: OwnerGeneration
  cx_registration_generation :: RegistrationGeneration
  cx_backend_generation :: BackendGeneration
  cx_requested_access :: AccessMask
  cx_mode :: RegistrationMode

record BackendKey =
  bk_remote_key_id :: RemoteKeyId
  bk_local_key_id :: LocalKeyId
  bk_remote_key_generation :: RemoteKeyGeneration
  bk_opaque_value :: u64
  bk_granted_access :: AccessMask
  bk_provenance :: Provenance

record BackendRegistration =
  br_memory_region_id :: MemoryRegionId
  br_handle :: string
  br_registered_base :: u64
  br_registered_length :: u64
  br_granted_access :: AccessMask
  br_keys :: BackendKey
  br_transport :: TransportId
  br_nic :: NicId
  br_device :: DeviceId
  br_provenance :: Provenance
  br_freshness :: Freshness

record RegisterOutcome =
  ro_ok :: bool
  ro_code :: string
  ro_message :: string

record RegisterHandle =
  rh_memory_region_id :: MemoryRegionId
  rh_handle :: string

section \<open>The view of a backend\<close>

record EntryView =
  ev_generation :: RemoteKeyGeneration
  ev_length :: u64
  ev_access :: AccessMask
  ev_usable :: bool

text \<open>The capability an operation kind rests on.\<close>

definition kind_capability :: "BackendCapabilities \<Rightarrow> OperationKind \<Rightarrow> CapabilityState" where
  "kind_capability caps k =
     (case k of OP_READ \<Rightarrow> bc_remote_read caps | OP_WRITE \<Rightarrow> bc_remote_write caps
      | OP_ATOMIC_COMPARE_SWAP \<Rightarrow> bc_remote_atomic caps)"

text \<open>What must hold of a live registration for a remote operation to be permitted.\<close>

definition entry_permits ::
    "BackendCapabilities \<Rightarrow> EntryView \<Rightarrow> RemoteKeyGeneration \<Rightarrow> OperationKind \<Rightarrow> u64 \<Rightarrow> u64 \<Rightarrow> bool" where
  "entry_permits caps v g k off len \<longleftrightarrow>
     ev_usable v \<and> ev_generation v = g \<and> unat off + unat len \<le> unat (ev_length v) \<and>
     capability_allows (kind_capability caps k) \<and> access_has (ev_access v) (intrinsic_right k)"

text \<open>The range test of both backends, which never adds: \<open>length > registered_length - offset\<close>.\<close>

lemma backend_range_test:
  "(off > n \<or> len > n - off) \<longleftrightarrow> \<not> unat off + unat len \<le> unat (n :: u64)"
  by (auto simp: not_less word_less_nat_alt word_le_nat_alt unat_sub_if_size)

text \<open>A chain of refusals, each with a non-empty reason: the empty reason means none applied.\<close>

lemma reason_gate: "c \<noteq> '''' \<Longrightarrow> (if p then c else r) = '''' \<longleftrightarrow> \<not> p \<and> r = ''''"
  by simp

section \<open>The contract\<close>

locale ibackend =
  fixes view :: "'b \<Rightarrow> string \<Rightarrow> EntryView option"
    and caps :: "'b \<Rightarrow> BackendCapabilities"
    and generation :: "'b \<Rightarrow> BackendGeneration"
    and can_register :: "BufferDescriptor \<Rightarrow> 'b \<Rightarrow> string"
    and register :: "BufferDescriptor \<Rightarrow> RegistrationContext \<Rightarrow> 'b \<Rightarrow>
          (RegisterOutcome \<times> BackendRegistration option) \<times> 'b"
    and deregister :: "RegisterHandle \<Rightarrow> 'b \<Rightarrow> RegisterOutcome \<times> 'b"
    and query :: "RegisterHandle \<Rightarrow> BackendKey \<Rightarrow> OperationKind \<Rightarrow> u64 \<Rightarrow> u64 \<Rightarrow> 'b \<Rightarrow>
          AccessOutcome \<times> string"
    and rotate :: "RegisterHandle \<Rightarrow> RemoteKeyGeneration \<Rightarrow> 'b \<Rightarrow> (bool \<times> string) \<times> 'b"
  assumes query_allow_iff:
    "fst (query h key k off len b) = AO_ALLOW \<longleftrightarrow>
       (\<exists>v. view b (rh_handle h) = Some v \<and>
            entry_permits (caps b) v (bk_remote_key_generation key) k off len)"
  and register_refused:
    "can_register d b \<noteq> '''' \<Longrightarrow> register d cx b = ((ro, out), b') \<Longrightarrow>
       \<not> ro_ok ro \<and> out = None \<and> b' = b"
  and register_accepted:
    "can_register d b = '''' \<Longrightarrow> register d cx b = ((ro, out), b') \<Longrightarrow>
       ro_ok ro \<and>
       (\<exists>r. out = Some r \<and> br_handle r \<noteq> '''' \<and>
          br_registered_base r = bp_address (bd_base d) \<and>
          br_registered_length r = bd_byte_length d \<and>
          br_granted_access r = bd_requested_access d \<and>
          gen_valid (bk_remote_key_generation (br_keys r)) \<and>
          view b' = (view b)(br_handle r \<mapsto>
            \<lparr>ev_generation = bk_remote_key_generation (br_keys r),
             ev_length = bd_byte_length d, ev_access = bd_requested_access d,
             ev_usable = True\<rparr>))"
  and can_register_range: "can_register d b = '''' \<Longrightarrow> bv_ok (validate_range d)"
  and can_register_domain:
    "can_register d b = '''' \<Longrightarrow> domain_supported (caps b) (bd_domain d)"
  and can_register_rights:
    "can_register d b = '''' \<Longrightarrow> access_has (bd_requested_access d) (intrinsic_right k) \<Longrightarrow>
       capability_allows (kind_capability (caps b) k)"
  and deregister_effect:
    "deregister h b = (ro, b') \<Longrightarrow>
       (ro_ok ro \<longleftrightarrow> view b (rh_handle h) \<noteq> None) \<and> view b' = (view b)(rh_handle h := None)"
  and rotate_missing:
    "view b (rh_handle h) = None \<Longrightarrow> rotate h g b = ((ok, ex), b') \<Longrightarrow> \<not> ok \<and> view b' = view b"
  and rotate_live:
    "view b (rh_handle h) = Some v \<Longrightarrow> rotate h g b = ((ok, ex), b') \<Longrightarrow>
       ok \<and> (\<exists>u. (ev_usable v \<longrightarrow> u) \<and>
         view b' = (view b)(rh_handle h \<mapsto> v\<lparr>ev_generation := g, ev_usable := u\<rparr>))"
  and register_frame:
    "register d cx b = (x, b') \<Longrightarrow> caps b' = caps b \<and> generation b' = generation b"
  and deregister_frame:
    "deregister h b = (ro, b') \<Longrightarrow> caps b' = caps b \<and> generation b' = generation b"
  and rotate_frame:
    "rotate h g b = (y, b') \<Longrightarrow> caps b' = caps b \<and> generation b' = generation b"
begin

lemma register_ok_iff: "register d cx b = ((ro, out), b') \<Longrightarrow> ro_ok ro \<longleftrightarrow> can_register d b = ''''"
  using register_refused register_accepted by blast

lemma register_failed:
  "register d cx b = ((ro, out), b') \<Longrightarrow> \<not> ro_ok ro \<Longrightarrow> out = None \<and> b' = b"
  using register_refused register_accepted by blast

lemma register_ok_out:
  "register d cx b = ((ro, out), b') \<Longrightarrow> ro_ok ro \<longleftrightarrow> (\<exists>r. out = Some r)"
  using register_refused register_accepted by (metis option.distinct(1))

lemma register_other:
  assumes "register d cx b = ((ro, Some r), b')" and "h \<noteq> br_handle r"
  shows "view b' h = view b h"
proof (cases "can_register d b = ''''")
  case True
  with assms show ?thesis using register_accepted [OF True assms(1)] by auto
next
  case False
  with assms show ?thesis using register_refused [OF False assms(1)] by simp
qed

text \<open>Without a live registration behind the handle, no operation is permitted.\<close>

lemma query_needs_live:
  "view b (rh_handle h) = None \<Longrightarrow> fst (query h key k off len b) \<noteq> AO_ALLOW"
  by (simp add: query_allow_iff)

text \<open>A key of another generation than the live one is never accepted.\<close>

lemma query_stale_generation:
  "view b (rh_handle h) = Some v \<Longrightarrow> ev_generation v \<noteq> bk_remote_key_generation key \<Longrightarrow>
     fst (query h key k off len b) \<noteq> AO_ALLOW"
  by (auto simp: query_allow_iff entry_permits_def)

text \<open>A permitted operation lies in the registered range and rests on a granted right and a
  supported capability.\<close>

lemma query_allow_bounds:
  assumes "fst (query h key k off len b) = AO_ALLOW"
  shows "\<exists>v. view b (rh_handle h) = Some v \<and> unat off + unat len \<le> unat (ev_length v) \<and>
    access_has (ev_access v) (intrinsic_right k) \<and> capability_allows (kind_capability (caps b) k)"
  using assms by (auto simp: query_allow_iff entry_permits_def)

text \<open>The key a registration hands out opens exactly what was asked for.\<close>

lemma register_then_query:
  assumes reg: "register d cx b = ((ro, Some r), b')"
    and handle: "rh_handle h = br_handle r"
    and key: "bk_remote_key_generation key = bk_remote_key_generation (br_keys r)"
  shows "fst (query h key k off len b') = AO_ALLOW \<longleftrightarrow>
    unat off + unat len \<le> unat (bd_byte_length d) \<and>
    access_has (bd_requested_access d) (intrinsic_right k)"
proof -
  have can: "can_register d b = ''''"
    using reg register_refused by (metis option.distinct(1))
  from register_accepted [OF can reg] have "view b' (br_handle r) =
      Some \<lparr>ev_generation = bk_remote_key_generation (br_keys r),
            ev_length = bd_byte_length d, ev_access = bd_requested_access d, ev_usable = True\<rparr>"
    by auto
  moreover have "caps b' = caps b" using register_frame [OF reg] by simp
  ultimately show ?thesis
    using can_register_rights [OF can] by (auto simp: query_allow_iff entry_permits_def handle key)
qed

lemma deregister_then_query:
  assumes "deregister h b = (ro, b')" and "rh_handle h' = rh_handle h"
  shows "fst (query h' key k off len b') \<noteq> AO_ALLOW"
  using deregister_effect [OF assms(1)] assms(2) by (intro query_needs_live) simp

lemma rotate_then_stale_key:
  assumes "rotate h g b = ((ok, ex), b')" and "rh_handle h' = rh_handle h"
    and "bk_remote_key_generation key \<noteq> g"
  shows "fst (query h' key k off len b') \<noteq> AO_ALLOW"
proof (cases "view b (rh_handle h)")
  case None
  with rotate_missing [OF None assms(1)] assms(2) show ?thesis
    by (intro query_needs_live) simp
next
  case (Some v)
  with rotate_live [OF Some assms(1)] assms(2,3) show ?thesis
    by (auto simp: query_allow_iff entry_permits_def)
qed

lemma rotate_other:
  assumes "rotate h g b = ((ok, ex), b')" and "h' \<noteq> rh_handle h"
  shows "view b' h' = view b h'"
  using assms rotate_missing [OF _ assms(1)] rotate_live [OF _ assms(1)]
  by (cases "view b (rh_handle h)") auto

lemma deregister_other:
  assumes "deregister h b = (ro, b')" and "h' \<noteq> rh_handle h"
  shows "view b' h' = view b h'"
  using deregister_effect [OF assms(1)] assms(2) by simp

end

text \<open>
  \<open>wf\<close> is an invariant of the backend's own state and \<open>room\<close> says that its sequence counter
  has not run through its range. With both, a new registration gets a handle that is not live.
\<close>

locale fresh_backend = ibackend +
  fixes wf :: "'b \<Rightarrow> bool"
    and room :: "'b \<Rightarrow> bool"
  assumes wf_register: "wf b \<Longrightarrow> room b \<Longrightarrow> register d cx b = (x, b') \<Longrightarrow> wf b'"
    and wf_deregister: "wf b \<Longrightarrow> deregister h b = (ro, b') \<Longrightarrow> wf b'"
    and wf_rotate: "wf b \<Longrightarrow> rotate h g b = (y, b') \<Longrightarrow> wf b'"
    and handle_fresh:
      "wf b \<Longrightarrow> room b \<Longrightarrow> register d cx b = ((ro, Some r), b') \<Longrightarrow> view b (br_handle r) = None"
begin

text \<open>A registration leaves every live registration of the backend as it was.\<close>

lemma register_preserves_live:
  assumes "wf b" and "room b" and "register d cx b = ((ro, out), b')"
    and "view b h = Some v"
  shows "view b' h = Some v"
proof (cases out)
  case None
  with assms(3) have "\<not> ro_ok ro"
    using register_ok_out by blast
  with assms(3,4) show ?thesis using register_failed by blast
next
  case (Some r)
  with assms(3) have reg: "register d cx b = ((ro, Some r), b')" by simp
  from handle_fresh [OF assms(1,2) reg] assms(4) have "h \<noteq> br_handle r" by auto
  with register_other [OF reg] assms(4) show ?thesis by simp
qed

end

declare kind_capability_def [exec_defs]

end
