(* ===== verification/Synthetic.thy ===== *)
theory Synthetic
  imports Backend "HOL-Library.Char_ord" "HOL-Library.List_Lexorder"
begin

text \<open>
  The deterministic synthetic backend (\<open>src/synthetic_backend.cpp\<close>,
  \<open>include/rdmabuffer/synthetic_backend.hpp\<close>): its state, every operation of the \<open>IBackend\<close>
  interface, the configuration and scenario controls and the remote-access simulation. The
  last section proves that it is a \<open>fresh_backend\<close>.
\<close>

section \<open>State\<close>

record SynEntry =
  se_ctx :: RegistrationContext
  se_reg :: BackendRegistration
  se_key_generation :: RemoteKeyGeneration
  se_revoked :: bool
  se_revalidate_required :: bool

record SyntheticBackend =
  sb_id :: BackendId
  sb_backend_gen :: BackendGeneration
  sb_transport_gen :: TransportGeneration
  sb_nic_gen :: NicGeneration
  sb_nic :: NicId
  sb_state :: BackendState
  sb_seed :: u64
  sb_next_seq :: u64
  sb_host_pinned_supported :: bool
  sb_pageable_supported :: bool
  sb_shared_supported :: bool
  sb_file_backed_supported :: bool
  sb_cuda_device_supported :: bool
  sb_cuda_managed_supported :: bool
  sb_synthetic_domain_supported :: bool
  sb_remote_read_supported :: bool
  sb_remote_write_supported :: bool
  sb_atomic_supported :: bool
  sb_one_sided_supported :: bool
  sb_required_alignment :: u64
  sb_entries :: "(string, SynEntry) umap"
  sb_region_handle :: "(MemoryRegionId, string) umap"

definition syn_create :: "u64 \<Rightarrow> SyntheticBackend" where
  "syn_create seed =
     \<lparr>sb_id = StrongId 0x53594E54, sb_backend_gen = StrongGeneration 1,
      sb_transport_gen = StrongGeneration 1, sb_nic_gen = StrongGeneration 1,
      sb_nic = StrongId 0x53594E49, sb_state = BS_READY, sb_seed = seed, sb_next_seq = 1,
      sb_host_pinned_supported = True, sb_pageable_supported = True,
      sb_shared_supported = True, sb_file_backed_supported = True,
      sb_cuda_device_supported = False, sb_cuda_managed_supported = False,
      sb_synthetic_domain_supported = True, sb_remote_read_supported = True,
      sb_remote_write_supported = True, sb_atomic_supported = False,
      sb_one_sided_supported = True, sb_required_alignment = 4096,
      sb_entries = [], sb_region_handle = []\<rparr>"

section \<open>Capabilities and configuration\<close>

definition cap_of :: "bool \<Rightarrow> CapabilityState" where
  "cap_of supported = (if supported then CS_SUPPORTED else CS_NOT_SUPPORTED)"

definition syn_capabilities :: "SyntheticBackend \<Rightarrow> BackendCapabilities" where
  "syn_capabilities b =
     \<lparr>bc_supported_domains =
        (if sb_synthetic_domain_supported b then [MD_SYNTHETIC_REMOTE_CAPABLE] else []) @
        (if sb_host_pinned_supported b then [MD_HOST_PINNED] else []) @
        (if sb_pageable_supported b then [MD_HOST_PAGEABLE] else []) @
        (if sb_shared_supported b then [MD_SHARED_MEMORY] else []) @
        (if sb_file_backed_supported b then [MD_FILE_BACKED] else []) @
        (if sb_cuda_device_supported b then [MD_CUDA_DEVICE] else []) @
        (if sb_cuda_managed_supported b then [MD_CUDA_MANAGED] else []),
      bc_max_registration_length = 0,
      bc_required_alignment = sb_required_alignment b,
      bc_remote_read = cap_of (sb_remote_read_supported b),
      bc_remote_write = cap_of (sb_remote_write_supported b),
      bc_remote_atomic = cap_of (sb_atomic_supported b),
      bc_host_pinned = cap_of (sb_host_pinned_supported b),
      bc_pageable_registration = cap_of (sb_pageable_supported b),
      bc_cuda_device = cap_of (sb_cuda_device_supported b),
      bc_cuda_managed = cap_of (sb_cuda_managed_supported b),
      bc_on_demand_paging = CS_UNKNOWN,
      bc_one_sided = cap_of (sb_one_sided_supported b),
      bc_multiprocess = CS_SUPPORTED, bc_multinode = CS_SUPPORTED,
      bc_key_rotation = CS_SUPPORTED, bc_revocation = CS_SUPPORTED,
      bc_provenance = PV_SYNTHETIC\<rparr>"

definition syn_configure_device_memory_support :: "bool \<Rightarrow> SyntheticBackend \<Rightarrow> SyntheticBackend" where
  "syn_configure_device_memory_support s b = b\<lparr>sb_cuda_device_supported := s\<rparr>"

definition syn_configure_atomic_support :: "bool \<Rightarrow> SyntheticBackend \<Rightarrow> SyntheticBackend" where
  "syn_configure_atomic_support s b = b\<lparr>sb_atomic_supported := s\<rparr>"

definition syn_configure_remote_write :: "bool \<Rightarrow> SyntheticBackend \<Rightarrow> SyntheticBackend" where
  "syn_configure_remote_write s b = b\<lparr>sb_remote_write_supported := s\<rparr>"

definition syn_configure_remote_read :: "bool \<Rightarrow> SyntheticBackend \<Rightarrow> SyntheticBackend" where
  "syn_configure_remote_read s b = b\<lparr>sb_remote_read_supported := s\<rparr>"

definition syn_configure_required_alignment :: "u64 \<Rightarrow> SyntheticBackend \<Rightarrow> SyntheticBackend" where
  "syn_configure_required_alignment a b = b\<lparr>sb_required_alignment := a\<rparr>"

definition syn_configure_synthetic_domain_support :: "bool \<Rightarrow> SyntheticBackend \<Rightarrow> SyntheticBackend" where
  "syn_configure_synthetic_domain_support s b = b\<lparr>sb_synthetic_domain_supported := s\<rparr>"

section \<open>Registration\<close>

definition syn_can_register :: "BufferDescriptor \<Rightarrow> SyntheticBackend \<Rightarrow> string" where
  "syn_can_register d b =
     (let wants_read = access_has (bd_requested_access d) AR_REMOTE_READ;
          wants_write = access_has (bd_requested_access d) AR_REMOTE_WRITE;
          wants_atomic = access_has (bd_requested_access d) AR_REMOTE_ATOMIC
      in if \<not> domain_supported (syn_capabilities b) (bd_domain d) then ''DOMAIN_UNSUPPORTED''
      else if bd_byte_length d = 0 then ''ZERO_LENGTH''
      else if \<not> bv_ok (validate_range d) then bv_code (validate_range d)
      else if sb_required_alignment b \<noteq> 0 \<and> bd_alignment d \<noteq> 0 \<and>
              (bd_alignment d mod sb_required_alignment b \<noteq> 0 \<or>
               sb_required_alignment b mod bd_alignment d \<noteq> 0) then ''ALIGNMENT_INCOMPATIBLE''
      else if wants_read \<and> \<not> sb_remote_read_supported b then ''REMOTE_READ_UNSUPPORTED''
      else if wants_write \<and> \<not> sb_remote_write_supported b then ''REMOTE_WRITE_UNSUPPORTED''
      else if wants_atomic \<and> \<not> sb_atomic_supported b then ''REMOTE_ATOMIC_UNSUPPORTED''
      else if (wants_read \<or> wants_write \<or> wants_atomic) \<and> bd_domain d = MD_CUDA_DEVICE \<and>
              \<not> sb_cuda_device_supported b then ''CUDA_DEVICE_UNSUPPORTED''
      else '''')"

definition syn_make_handle :: "MemoryRegionId \<Rightarrow> string" where
  "syn_make_handle region = ''syn-'' @ to_hex (id_value region)"

text \<open>The region of sequence number \<open>n\<close>: \<open>seed ^ (n << 7) ^ 0x9E3779B97F4A7C15\<close>.\<close>

definition syn_region :: "u64 \<Rightarrow> u64 \<Rightarrow> MemoryRegionId" where
  "syn_region seed n = StrongId (seed XOR push_bit 7 n XOR 0x9E3779B97F4A7C15)"

definition syn_make_registration ::
    "SyntheticBackend \<Rightarrow> MemoryRegionId \<Rightarrow> BufferDescriptor \<Rightarrow> RegistrationContext \<Rightarrow> BackendRegistration" where
  "syn_make_registration b region d cx =
     \<lparr>br_memory_region_id = region,
      br_handle = syn_make_handle region,
      br_registered_base = bp_address (bd_base d),
      br_registered_length = bd_byte_length d,
      br_granted_access = bd_requested_access d,
      br_keys =
        \<lparr>bk_remote_key_id = StrongId (id_value region * 3 + 1),
         bk_local_key_id = StrongId (id_value region * 3 + 2),
         bk_remote_key_generation = StrongGeneration 1,
         bk_opaque_value = id_value region XOR 0xA5A5A5A5A5A5A5A5,
         bk_granted_access = bd_requested_access d,
         bk_provenance = PV_SYNTHETIC\<rparr>,
      br_transport = StrongId 0x53594E54,
      br_nic = sb_nic b,
      br_device = (if id_valid (cx_worker cx) then StrongId (id_value (cx_worker cx) + 1) else no_id),
      br_provenance = PV_SYNTHETIC,
      br_freshness = FR_VALID\<rparr>"

definition syn_register ::
    "BufferDescriptor \<Rightarrow> RegistrationContext \<Rightarrow> SyntheticBackend \<Rightarrow>
     (RegisterOutcome \<times> BackendRegistration option) \<times> SyntheticBackend" where
  "syn_register d cx b =
     (let reason = syn_can_register d b
      in if reason \<noteq> '''' then
           ((\<lparr>ro_ok = False, ro_code = reason,
              ro_message = msg ''Synthetic backend rejects registration: '' @ reason\<rparr>, None), b)
         else
           (let region = syn_region (sb_seed b) (sb_next_seq b);
                r = syn_make_registration b region d cx;
                e = \<lparr>se_ctx = cx, se_reg = r, se_key_generation = StrongGeneration 1,
                     se_revoked = False, se_revalidate_required = False\<rparr>
            in ((\<lparr>ro_ok = True, ro_code = ''REGISTERED'',
                  ro_message = msg ''Synthetic registration committed.''\<rparr>, Some r),
                b\<lparr>sb_next_seq := sb_next_seq b + 1,
                  sb_entries := AList.update (br_handle r) e (sb_entries b),
                  sb_region_handle := AList.update region (br_handle r) (sb_region_handle b)\<rparr>)))"

text \<open>Erasing an entry, shared by \<open>deregister_buffer\<close> and \<open>abort_registration\<close>.\<close>

definition syn_erase :: "string \<Rightarrow> SynEntry \<Rightarrow> SyntheticBackend \<Rightarrow> SyntheticBackend" where
  "syn_erase h e b =
     b\<lparr>sb_region_handle := AList.delete (br_memory_region_id (se_reg e)) (sb_region_handle b),
       sb_entries := AList.delete h (sb_entries b)\<rparr>"

definition syn_deregister :: "RegisterHandle \<Rightarrow> SyntheticBackend \<Rightarrow> RegisterOutcome \<times> SyntheticBackend" where
  "syn_deregister h b =
     (case map_of (sb_entries b) (rh_handle h) of
        None \<Rightarrow> (\<lparr>ro_ok = False, ro_code = ''NOT_FOUND'',
                  ro_message = msg ''No synthetic registration for handle.''\<rparr>, b)
      | Some e \<Rightarrow> (\<lparr>ro_ok = True, ro_code = ''DEREGISTERED'',
                    ro_message = msg ''Synthetic registration released.''\<rparr>,
                   syn_erase (rh_handle h) e b))"

definition syn_query_registration ::
    "RegisterHandle \<Rightarrow> SyntheticBackend \<Rightarrow> RegisterOutcome \<times> BackendRegistration option" where
  "syn_query_registration h b =
     (case map_of (sb_entries b) (rh_handle h) of
        None \<Rightarrow> (\<lparr>ro_ok = False, ro_code = ''NOT_FOUND'',
                  ro_message = msg ''No synthetic registration for handle.''\<rparr>, None)
      | Some e \<Rightarrow> (\<lparr>ro_ok = True, ro_code = ''QUERIED'',
                    ro_message = msg ''Synthetic registration revalidated.''\<rparr>, Some (se_reg e)))"

section \<open>Access\<close>

definition syn_query ::
    "RegisterHandle \<Rightarrow> BackendKey \<Rightarrow> OperationKind \<Rightarrow> u64 \<Rightarrow> u64 \<Rightarrow> SyntheticBackend \<Rightarrow>
     AccessOutcome \<times> string" where
  "syn_query h key k off len b =
     (case map_of (sb_entries b) (rh_handle h) of
        None \<Rightarrow> (AO_REJECT_NOT_REGISTERED,
                 msg ''Synthetic backend has no live registration for this handle.'')
      | Some e \<Rightarrow>
          if se_revalidate_required e then
            (AO_REJECT_STALE_REGISTRATION,
             msg ''Synthetic registration requires revalidation; key is not authoritative.'')
          else if se_revoked e then
            (AO_REJECT_REVOKED, msg ''Synthetic registration has been revoked.'')
          else if bk_remote_key_generation key \<noteq> se_key_generation e then
            (AO_REJECT_STALE_KEY,
             msg ''Synthetic remote key generation '' @
             int_to_str (gen_value (bk_remote_key_generation key)) @
             msg '' is stale; current is '' @ int_to_str (gen_value (se_key_generation e)) @ msg ''.'')
          else if off > br_registered_length (se_reg e) \<or>
                  len > br_registered_length (se_reg e) - off then
            (AO_REJECT_RANGE,
             msg ''Synthetic access range ['' @ int_to_str off @ msg '', '' @ int_to_str len @
             msg ''] exceeds registered length '' @
             int_to_str (br_registered_length (se_reg e)) @ msg ''.'')
          else (case k of
            OP_WRITE \<Rightarrow>
              if \<not> sb_remote_write_supported b then
                (AO_REJECT_UNKNOWN_CAPABILITY, msg ''Synthetic backend does not support REMOTE_WRITE.'')
              else if \<not> access_has (br_granted_access (se_reg e)) AR_REMOTE_WRITE then
                (AO_REJECT_PERMISSION, msg ''Synthetic registration does not grant REMOTE_WRITE.'')
              else (AO_ALLOW, msg ''Synthetic backend permits this remote operation.'')
          | OP_READ \<Rightarrow>
              if \<not> sb_remote_read_supported b then
                (AO_REJECT_UNKNOWN_CAPABILITY, msg ''Synthetic backend does not support REMOTE_READ.'')
              else if \<not> access_has (br_granted_access (se_reg e)) AR_REMOTE_READ then
                (AO_REJECT_PERMISSION, msg ''Synthetic registration does not grant REMOTE_READ.'')
              else (AO_ALLOW, msg ''Synthetic backend permits this remote operation.'')
          | OP_ATOMIC_COMPARE_SWAP \<Rightarrow>
              if \<not> sb_atomic_supported b then
                (AO_REJECT_UNKNOWN_CAPABILITY, msg ''Synthetic backend does not support REMOTE_ATOMIC.'')
              else if \<not> access_has (br_granted_access (se_reg e)) AR_REMOTE_ATOMIC then
                (AO_REJECT_PERMISSION, msg ''Synthetic registration does not grant REMOTE_ATOMIC.'')
              else (AO_ALLOW, msg ''Synthetic backend permits this remote operation.'')))"

definition syn_revalidate ::
    "RegisterHandle \<Rightarrow> SyntheticBackend \<Rightarrow> (AccessOutcome \<times> string) \<times> SyntheticBackend" where
  "syn_revalidate h b =
     (case map_of (sb_entries b) (rh_handle h) of
        None \<Rightarrow> ((AO_REJECT_NOT_REGISTERED,
                  msg ''Cannot revalidate: synthetic registration not found.''), b)
      | Some e \<Rightarrow> ((AO_ALLOW, msg ''Synthetic registration revalidated.''),
                   b\<lparr>sb_entries := AList.update (rh_handle h)
                        (e\<lparr>se_revalidate_required := False\<rparr>) (sb_entries b)\<rparr>))"

definition syn_abort :: "RegisterHandle \<Rightarrow> SyntheticBackend \<Rightarrow> (bool \<times> string) \<times> SyntheticBackend" where
  "syn_abort h b =
     (case map_of (sb_entries b) (rh_handle h) of
        None \<Rightarrow> ((False, msg ''Abort: synthetic registration not found.''), b)
      | Some e \<Rightarrow> ((True, msg ''Synthetic registration aborted.''), syn_erase (rh_handle h) e b))"

text \<open>The entry a key rotation leaves: both generations replaced, revalidation no longer due.\<close>

definition syn_rotate_entry :: "RemoteKeyGeneration \<Rightarrow> SynEntry \<Rightarrow> SynEntry" where
  "syn_rotate_entry g e =
     e\<lparr>se_key_generation := g,
       se_reg := (se_reg e)\<lparr>br_keys := (br_keys (se_reg e))\<lparr>bk_remote_key_generation := g\<rparr>\<rparr>,
       se_revalidate_required := False\<rparr>"

definition syn_rotate ::
    "RegisterHandle \<Rightarrow> RemoteKeyGeneration \<Rightarrow> SyntheticBackend \<Rightarrow> (bool \<times> string) \<times> SyntheticBackend" where
  "syn_rotate h g b =
     (case map_of (sb_entries b) (rh_handle h) of
        None \<Rightarrow> ((False, msg ''rotate_key: synthetic registration not found.''), b)
      | Some e \<Rightarrow>
          ((True, msg ''synthetic key rotated to generation '' @ int_to_str (gen_value g)),
           b\<lparr>sb_entries := AList.update (rh_handle h) (syn_rotate_entry g e) (sb_entries b)\<rparr>))"

section \<open>Scenario control\<close>

definition syn_rollover_backend :: "SyntheticBackend \<Rightarrow> SyntheticBackend" where
  "syn_rollover_backend b = b\<lparr>sb_backend_gen := gen_next (sb_backend_gen b)\<rparr>"

definition syn_advance_generation :: "SyntheticBackend \<Rightarrow> SyntheticBackend" where
  "syn_advance_generation b = syn_rollover_backend b"

definition syn_rollover_transport :: "SyntheticBackend \<Rightarrow> SyntheticBackend" where
  "syn_rollover_transport b =
     b\<lparr>sb_transport_gen := gen_next (sb_transport_gen b),
       sb_entries := fst (um_for (\<lambda>e. True)
         (\<lambda>e. e\<lparr>se_revalidate_required := True, se_key_generation := gen_next (se_key_generation e)\<rparr>)
         (\<lambda>e acc. acc) (sb_entries b) ())\<rparr>"

definition syn_rollover_nic :: "SyntheticBackend \<Rightarrow> SyntheticBackend" where
  "syn_rollover_nic b = b\<lparr>sb_nic_gen := gen_next (sb_nic_gen b)\<rparr>"

definition syn_restart :: "SyntheticBackend \<Rightarrow> SyntheticBackend" where
  "syn_restart b =
     b\<lparr>sb_entries := [], sb_region_handle := [],
       sb_backend_gen := gen_next (sb_backend_gen b),
       sb_transport_gen := gen_next (sb_transport_gen b),
       sb_nic_gen := gen_next (sb_nic_gen b),
       sb_state := BS_READY\<rparr>"

section \<open>Remote-access simulation\<close>

definition xorshift64 :: "u64 \<Rightarrow> u64" where
  "xorshift64 s =
     (let x1 = s XOR push_bit 13 s;
          x2 = x1 XOR drop_bit 7 x1
      in x2 XOR push_bit 17 x2)"

text \<open>
  The scan for the lexicographically smallest live handle with the given key generation;
  \<open>''''\<close> when there is none, as in the code. The order on strings is that of the bytes.
\<close>

fun syn_best_handle :: "u64 \<Rightarrow> (string, SynEntry) umap \<Rightarrow> string \<Rightarrow> string" where
  "syn_best_handle g [] best = best"
| "syn_best_handle g ((h, e) # m) best =
     (if se_revoked e \<or> se_revalidate_required e then syn_best_handle g m best
      else if gen_value (se_key_generation e) \<noteq> g then syn_best_handle g m best
      else if best = '''' \<or> h < best then syn_best_handle g m h
      else syn_best_handle g m best)"

text \<open>
  The result is \<open>None\<close> where the code does not return: an allowed operation of length zero
  divides by zero (and \<open>entries_.at\<close> would throw for a handle that is not there); otherwise
  the outcome, the explanation and \<open>result_delta\<close>.
\<close>

definition syn_simulate_remote ::
    "OperationKind \<Rightarrow> u64 \<Rightarrow> u64 \<Rightarrow> u64 \<Rightarrow> SyntheticBackend \<Rightarrow> (AccessOutcome \<times> string \<times> u64) option" where
  "syn_simulate_remote k off len g b =
     (let best = syn_best_handle g (sb_entries b) ''''
      in if best = '''' then
           Some (AO_REJECT_STALE_KEY,
             msg ''Synthetic backend could not locate a live registration with the supplied key generation.'', 0)
         else
           (case map_of (sb_entries b) best of
              None \<Rightarrow> None
            | Some e \<Rightarrow>
                (let (oc, ex) = syn_query \<lparr>rh_memory_region_id = br_memory_region_id (se_reg e),
                                           rh_handle = br_handle (se_reg e)\<rparr>
                                   (br_keys (se_reg e)) k off len b
                 in if oc = AO_ALLOW then
                      (if len = 0 then None
                       else Some (AO_ALLOW,
                         msg ''Synthetic remote '' @ access_outcome_name AO_ALLOW @
                         msg '' simulated (provenance=SYNTHETIC).'',
                         xorshift64 (sb_seed b XOR id_value (br_memory_region_id (se_reg e)) XOR
                                     push_bit 3 off) mod len))
                    else Some (oc, ex, 0))))"

section \<open>The synthetic backend meets the contract\<close>

definition syn_entry_view :: "SynEntry \<Rightarrow> EntryView" where
  "syn_entry_view e =
     \<lparr>ev_generation = se_key_generation e, ev_length = br_registered_length (se_reg e),
      ev_access = br_granted_access (se_reg e),
      ev_usable = (\<not> se_revoked e \<and> \<not> se_revalidate_required e)\<rparr>"

definition syn_view :: "SyntheticBackend \<Rightarrow> string \<Rightarrow> EntryView option" where
  "syn_view b h = map_option syn_entry_view (map_of (sb_entries b) h)"

text \<open>Every live handle was made from a sequence number already spent.\<close>

definition syn_wf :: "SyntheticBackend \<Rightarrow> bool" where
  "syn_wf b \<longleftrightarrow> um_wf (sb_entries b) \<and>
     (\<forall>h \<in> fst ` set (sb_entries b).
        \<exists>n < sb_next_seq b. h = syn_make_handle (syn_region (sb_seed b) n))"

definition syn_room :: "SyntheticBackend \<Rightarrow> bool" where
  "syn_room b \<longleftrightarrow> unat (sb_next_seq b) < 2 ^ 57"

lemma push_bit_7_inj:
  assumes "unat m < 2 ^ 57" and "unat n < 2 ^ 57" and "push_bit 7 m = push_bit 7 (n :: u64)"
  shows "m = n"
proof -
  have "unat (push_bit 7 x) = unat x * 128" if "unat x < 2 ^ 57" for x :: u64
    using that by (simp add: push_bit_eq_mult unat_word_ariths)
  with assms show ?thesis by (simp add: word_unat_eq_iff)
qed

lemma syn_make_handle_inj:
  assumes "unat m < 2 ^ 57" and "unat n < 2 ^ 57"
    and "syn_make_handle (syn_region s m) = syn_make_handle (syn_region s n)"
  shows "m = n"
proof -
  from assms(3) have "s XOR push_bit 7 m XOR 0x9E3779B97F4A7C15 = s XOR push_bit 7 n XOR 0x9E3779B97F4A7C15"
    by (auto simp: syn_make_handle_def syn_region_def dest: to_hex_inj)
  moreover have "s XOR (s XOR x XOR c) XOR c = x" for x c :: u64
    by (rule bit_word_eqI) (auto simp: bit_simps)
  ultimately have "push_bit 7 m = push_bit 7 n" by metis
  with assms(1,2) show ?thesis by (rule push_bit_7_inj)
qed

lemma syn_can_register_ok:
  "syn_can_register d b = '''' \<longleftrightarrow>
     domain_supported (syn_capabilities b) (bd_domain d) \<and> bv_ok (validate_range d) \<and>
     (sb_required_alignment b \<noteq> 0 \<longrightarrow>
        bd_alignment d mod sb_required_alignment b = 0 \<and> sb_required_alignment b mod bd_alignment d = 0) \<and>
     (access_has (bd_requested_access d) AR_REMOTE_READ \<longrightarrow> sb_remote_read_supported b) \<and>
     (access_has (bd_requested_access d) AR_REMOTE_WRITE \<longrightarrow> sb_remote_write_supported b) \<and>
     (access_has (bd_requested_access d) AR_REMOTE_ATOMIC \<longrightarrow> sb_atomic_supported b) \<and>
     (bd_domain d = MD_CUDA_DEVICE \<longrightarrow> sb_cuda_device_supported b)"
proof -
  have code: "bv_code (validate_range d) \<noteq> ''''"
    by (simp add: validate_range_def split: option.splits)
  have len: "bv_ok (validate_range d) \<Longrightarrow> bd_byte_length d \<noteq> 0 \<and> bd_alignment d \<noteq> 0"
    by (simp add: validate_range_ok_iff)
  have cuda: "domain_supported (syn_capabilities b) MD_CUDA_DEVICE \<longleftrightarrow> sb_cuda_device_supported b"
    by (auto simp: domain_supported_def syn_capabilities_def list_ex_iff)
  show ?thesis
    unfolding syn_can_register_def Let_def
    by (simp only: reason_gate code list.distinct not_False_eq_True simp_thms) (metis len cuda)
qed
lemma syn_query_allow_iff:
  "fst (syn_query h key k off len b) = AO_ALLOW \<longleftrightarrow>
     (\<exists>v. syn_view b (rh_handle h) = Some v \<and>
          entry_permits (syn_capabilities b) v (bk_remote_key_generation key) k off len)"
proof (cases "map_of (sb_entries b) (rh_handle h)")
  case None
  then show ?thesis by (simp add: syn_query_def syn_view_def)
next
  case (Some e)
  then show ?thesis
    by (cases k) (auto simp: backend_range_test syn_query_def syn_view_def syn_entry_view_def entry_permits_def
        kind_capability_def capability_allows_def syn_capabilities_def cap_of_def intrinsic_right_def)
qed

lemma syn_register_cases:
  assumes "syn_register d cx b = ((ro, out), b')"
  obtains (refused) "syn_can_register d b \<noteq> ''''" "\<not> ro_ok ro" "out = None" "b' = b"
  | (accepted) region r e where "syn_can_register d b = ''''" "ro_ok ro" "out = Some r"
      "region = syn_region (sb_seed b) (sb_next_seq b)"
      "r = syn_make_registration b region d cx"
      "e = \<lparr>se_ctx = cx, se_reg = r, se_key_generation = StrongGeneration 1,
            se_revoked = False, se_revalidate_required = False\<rparr>"
      "b' = b\<lparr>sb_next_seq := sb_next_seq b + 1,
              sb_entries := AList.update (br_handle r) e (sb_entries b),
              sb_region_handle := AList.update region (br_handle r) (sb_region_handle b)\<rparr>"
  using assms by (auto simp: syn_register_def Let_def split: if_splits)

lemma syn_capabilities_frame [simp]:
  "syn_capabilities (b\<lparr>sb_next_seq := n, sb_entries := es, sb_region_handle := rh\<rparr>) = syn_capabilities b"
  "syn_capabilities (b\<lparr>sb_region_handle := rh, sb_entries := es\<rparr>) = syn_capabilities b"
  "syn_capabilities (b\<lparr>sb_entries := es\<rparr>) = syn_capabilities b"
  "syn_capabilities (b\<lparr>sb_region_handle := rh\<rparr>) = syn_capabilities b"
  "syn_capabilities (b\<lparr>sb_next_seq := n\<rparr>) = syn_capabilities b"
  by (simp_all add: syn_capabilities_def)

lemma syn_can_register_right:
  assumes "syn_can_register d b = ''''" and "access_has (bd_requested_access d) (intrinsic_right k)"
  shows "capability_allows (kind_capability (syn_capabilities b) k)"
  using assms unfolding syn_can_register_ok
  by (cases k) (simp_all add: kind_capability_def capability_allows_def syn_capabilities_def
      cap_of_def intrinsic_right_def)

lemma syn_view_rotate:
  assumes "map_of (sb_entries b) h = Some e"
  shows "syn_view (b\<lparr>sb_entries := AList.update h (syn_rotate_entry g e) (sb_entries b)\<rparr>) =
    (syn_view b)(h \<mapsto> (syn_entry_view e)\<lparr>ev_generation := g, ev_usable := \<not> se_revoked e\<rparr>)"
  by (rule ext) (simp add: syn_view_def um_simps syn_rotate_entry_def syn_entry_view_def)

lemma syn_view_insert:
  "syn_view (b\<lparr>sb_next_seq := n, sb_entries := AList.update h e (sb_entries b),
     sb_region_handle := rh\<rparr>) = (syn_view b)(h \<mapsto> syn_entry_view e)"
  by (rule ext) (simp add: syn_view_def um_simps)

lemma syn_view_erase: "syn_view (syn_erase h e b) = (syn_view b)(h := None)"
  by (rule ext) (simp add: syn_view_def syn_erase_def um_simps)

lemma syn_wf_erase:
  assumes "syn_wf b"
  shows "syn_wf (syn_erase h e b)"
proof -
  have "fst ` set (AList.delete h (sb_entries b)) \<subseteq> fst ` set (sb_entries b)"
    by (rule dom_delete_subset)
  with assms have "\<forall>k \<in> fst ` set (AList.delete h (sb_entries b)).
      \<exists>n < sb_next_seq b. k = syn_make_handle (syn_region (sb_seed b) n)"
    unfolding syn_wf_def by (meson subsetD)
  moreover from assms have "um_wf (AList.delete h (sb_entries b))"
    by (simp add: syn_wf_def um_simps)
  ultimately show ?thesis
    unfolding syn_wf_def syn_erase_def by simp
qed
lemma syn_wf_update_live:
  "syn_wf b \<Longrightarrow> map_of (sb_entries b) h = Some e \<Longrightarrow>
     syn_wf (b\<lparr>sb_entries := AList.update h e' (sb_entries b)\<rparr>)"
  by (auto simp: syn_wf_def um_simps dom_update dom_map_of_conv_image_fst [symmetric])

lemma syn_wf_register:
  assumes "syn_wf b" and "syn_room b" and "syn_register d cx b = (x, b')"
  shows "syn_wf b'"
proof -
  obtain ro out where "x = (ro, out)" by (cases x)
  with assms(3) have "syn_register d cx b = ((ro, out), b')" by simp
  then show ?thesis
  proof (cases rule: syn_register_cases)
    case refused
    with assms(1) show ?thesis by simp
  next
    case (accepted region r e)
    from assms(2) have "unat (sb_next_seq b) < 2 ^ 64 - 1" by (simp add: syn_room_def)
    then have inc: "sb_next_seq b < sb_next_seq b + 1"
      by (simp add: word_less_nat_alt unat_word_ariths)
    have keys: "fst ` set (sb_entries b') = insert (br_handle r) (fst ` set (sb_entries b))"
      by (simp add: accepted AList.dom_update)
    show ?thesis
      using assms(1) inc unfolding syn_wf_def keys
      by (auto simp: accepted um_simps syn_make_registration_def intro: less_trans)
  qed
qed

lemma syn_handle_fresh:
  assumes "syn_wf b" and "syn_room b" and "syn_register d cx b = ((ro, Some r), b')"
  shows "syn_view b (br_handle r) = None"
proof (rule ccontr)
  assume "syn_view b (br_handle r) \<noteq> None"
  then have live: "br_handle r \<in> fst ` set (sb_entries b)"
    by (auto simp: syn_view_def dom_map_of_conv_image_fst [symmetric])
  from assms(3) have r: "br_handle r = syn_make_handle (syn_region (sb_seed b) (sb_next_seq b))"
    by (cases rule: syn_register_cases) (simp_all add: syn_make_registration_def)
  from live assms(1) obtain n where n: "n < sb_next_seq b"
    and "br_handle r = syn_make_handle (syn_region (sb_seed b) n)"
    by (auto simp: syn_wf_def)
  with r assms(2) have "n = sb_next_seq b"
    by (intro syn_make_handle_inj [of n "sb_next_seq b" "sb_seed b"])
      (auto simp: syn_room_def word_less_nat_alt)
  with n show False by simp
qed

text \<open>The laws of the contract, one lemma each; the interpretation collects them.\<close>

lemma syn_register_refused:
  "syn_can_register d b \<noteq> '''' \<Longrightarrow> syn_register d cx b = ((ro, out), b') \<Longrightarrow> \<not> ro_ok ro \<and> out = None \<and> b' = b"
  by (auto elim: syn_register_cases)

lemma syn_register_accepted:
  assumes "syn_can_register d b = ''''" and "syn_register d cx b = ((ro, out), b')"
  shows "ro_ok ro \<and> (\<exists>r. out = Some r \<and> br_handle r \<noteq> '''' \<and>
      br_registered_base r = bp_address (bd_base d) \<and>
      br_registered_length r = bd_byte_length d \<and>
      br_granted_access r = bd_requested_access d \<and>
      gen_valid (bk_remote_key_generation (br_keys r)) \<and>
      syn_view b' = (syn_view b)(br_handle r \<mapsto>
        \<lparr>ev_generation = bk_remote_key_generation (br_keys r), ev_length = bd_byte_length d,
         ev_access = bd_requested_access d, ev_usable = True\<rparr>))"
  using assms(2)
proof (cases rule: syn_register_cases)
  case refused
  with assms(1) show ?thesis by simp
next
  case (accepted region r e)
  from accepted have "syn_view b' = (syn_view b)(br_handle r \<mapsto> syn_entry_view e)"
    by (simp add: syn_view_insert)
  with accepted show ?thesis
    by (simp add: syn_make_registration_def syn_make_handle_def syn_entry_view_def gen_valid_def)
qed

lemma syn_can_register_range: "syn_can_register d b = '''' \<Longrightarrow> bv_ok (validate_range d)"
  and syn_can_register_domain:
    "syn_can_register d b = '''' \<Longrightarrow> domain_supported (syn_capabilities b) (bd_domain d)"
  by (simp_all add: syn_can_register_ok)

lemma syn_deregister_effect:
  "syn_deregister h b = (ro, b') \<Longrightarrow>
    (ro_ok ro \<longleftrightarrow> syn_view b (rh_handle h) \<noteq> None) \<and> syn_view b' = (syn_view b)(rh_handle h := None)"
  by (auto simp: syn_deregister_def syn_view_erase split: option.splits) (auto simp: syn_view_def fun_eq_iff)

lemma syn_rotate_missing:
  "syn_view b (rh_handle h) = None \<Longrightarrow> syn_rotate h g b = ((ok, ex), b') \<Longrightarrow> \<not> ok \<and> syn_view b' = syn_view b"
  by (auto simp: syn_view_def syn_rotate_def)

lemma syn_rotate_live:
  assumes "syn_view b (rh_handle h) = Some v" and "syn_rotate h g b = ((ok, ex), b')"
  shows "ok \<and> (\<exists>u. (ev_usable v \<longrightarrow> u) \<and>
    syn_view b' = (syn_view b)(rh_handle h \<mapsto> v\<lparr>ev_generation := g, ev_usable := u\<rparr>))"
proof -
  from assms obtain e where e: "map_of (sb_entries b) (rh_handle h) = Some e" "v = syn_entry_view e"
    by (auto simp: syn_view_def)
  with assms(2) have "ok" and "b' = b\<lparr>sb_entries :=
      AList.update (rh_handle h) (syn_rotate_entry g e) (sb_entries b)\<rparr>"
    by (simp_all add: syn_rotate_def)
  moreover have "ev_usable v \<longrightarrow> \<not> se_revoked e" by (simp add: e(2) syn_entry_view_def)
  ultimately show ?thesis using syn_view_rotate [OF e(1)] e(2) by blast
qed

lemma syn_register_frame:
    "syn_register d cx b = (x, b') \<Longrightarrow> syn_capabilities b' = syn_capabilities b \<and> sb_backend_gen b' = sb_backend_gen b"
  and syn_deregister_frame:
    "syn_deregister h b = (ro, b') \<Longrightarrow> syn_capabilities b' = syn_capabilities b \<and> sb_backend_gen b' = sb_backend_gen b"
  and syn_rotate_frame:
    "syn_rotate h g b = (y, b') \<Longrightarrow> syn_capabilities b' = syn_capabilities b \<and> sb_backend_gen b' = sb_backend_gen b"
  by (auto simp: syn_register_def syn_deregister_def syn_rotate_def syn_erase_def Let_def split: if_splits option.splits)

lemma syn_wf_deregister: "syn_wf b \<Longrightarrow> syn_deregister h b = (ro, b') \<Longrightarrow> syn_wf b'"
  and syn_wf_rotate: "syn_wf b \<Longrightarrow> syn_rotate h g b = (y, b') \<Longrightarrow> syn_wf b'"
  by (auto simp: syn_deregister_def syn_rotate_def syn_wf_erase syn_wf_update_live split: option.splits)

lemmas syn_laws = syn_query_allow_iff syn_register_refused syn_register_accepted syn_can_register_range
  syn_can_register_domain syn_can_register_right syn_deregister_effect syn_rotate_missing syn_rotate_live
  syn_register_frame syn_deregister_frame syn_rotate_frame syn_wf_register syn_wf_deregister syn_wf_rotate
  syn_handle_fresh

interpretation syn: fresh_backend syn_view syn_capabilities sb_backend_gen syn_can_register
  syn_register syn_deregister syn_query syn_rotate syn_wf syn_room
  by unfold_locales (rule syn_laws; assumption)+

text \<open>
  The scenario controls: a transport rollover makes every live key unusable until it is
  rotated or revalidated, a restart leaves nothing live. A stale key is refused after both.
\<close>

lemma syn_rollover_transport_unusable:
  "syn_view (syn_rollover_transport b) h = Some v \<Longrightarrow> \<not> ev_usable v"
  by (auto simp: syn_view_def syn_rollover_transport_def um_simps syn_entry_view_def)

lemma syn_restart_empty: "syn_view (syn_restart b) h = None"
  by (simp add: syn_view_def syn_restart_def)

declare syn_create_def [exec_defs] syn_capabilities_def [exec_defs] cap_of_def [exec_defs]
  syn_can_register_def [exec_defs] syn_make_handle_def [exec_defs] syn_region_def [exec_defs]
  syn_make_registration_def [exec_defs] syn_register_def [exec_defs] syn_erase_def [exec_defs]
  syn_deregister_def [exec_defs] syn_query_def [exec_defs] syn_rotate_def [exec_defs]
  syn_rotate_entry_def [exec_defs] xorshift64_def [exec_defs]

end
