(* ===== verification/Reference.thy ===== *)
theory Reference
  imports Backend
begin

text \<open>
  The reference backend (\<open>src/reference_backend.cpp\<close>, \<open>include/rdmabuffer/reference_backend.hpp\<close>)
  as it is built off Windows, where \<open>windows_os::page_size\<close> is 4096: its state, every operation
  of the \<open>IBackend\<close> interface, the pinning probe, and the proof that it is a
  \<open>fresh_backend\<close>. It never supports remote atomics.
\<close>

section \<open>State\<close>

record RefEntry =
  re_ctx :: RegistrationContext
  re_reg :: BackendRegistration
  re_revoked :: bool

record ReferenceBackend =
  rb_id :: BackendId
  rb_backend_gen :: BackendGeneration
  rb_state :: BackendState
  rb_next_seq :: u64
  rb_entries :: "(string, RefEntry) umap"

definition ref_create :: "BackendId \<Rightarrow> ReferenceBackend" where
  "ref_create i =
     \<lparr>rb_id = i, rb_backend_gen = StrongGeneration 1, rb_state = BS_READY, rb_next_seq = 1,
      rb_entries = []\<rparr>"

definition os_page_size :: u64 where
  "os_page_size = 4096"

section \<open>Capabilities\<close>

definition ref_capabilities :: "ReferenceBackend \<Rightarrow> BackendCapabilities" where
  "ref_capabilities b =
     \<lparr>bc_supported_domains =
        [MD_HOST_PAGEABLE, MD_HOST_PINNED, MD_SHARED_MEMORY, MD_FILE_BACKED],
      bc_max_registration_length = 0,
      bc_required_alignment = os_page_size,
      bc_remote_read = CS_SUPPORTED,
      bc_remote_write = CS_SUPPORTED,
      bc_remote_atomic = CS_NOT_SUPPORTED,
      bc_host_pinned = CS_SUPPORTED,
      bc_pageable_registration = CS_SUPPORTED,
      bc_cuda_device = CS_NOT_SUPPORTED,
      bc_cuda_managed = CS_NOT_SUPPORTED,
      bc_on_demand_paging = CS_UNKNOWN,
      bc_one_sided = CS_NOT_SUPPORTED,
      bc_multiprocess = CS_SUPPORTED, bc_multinode = CS_SUPPORTED,
      bc_key_rotation = CS_SUPPORTED, bc_revocation = CS_SUPPORTED,
      bc_provenance = PV_REAL\<rparr>"

section \<open>Registration\<close>

definition ref_can_register :: "BufferDescriptor \<Rightarrow> ReferenceBackend \<Rightarrow> string" where
  "ref_can_register d b =
     (if \<not> domain_supported (ref_capabilities b) (bd_domain d) then ''DOMAIN_UNSUPPORTED''
      else if bd_byte_length d = 0 then ''ZERO_LENGTH''
      else if \<not> bv_ok (validate_range d) then bv_code (validate_range d)
      else if access_has (bd_requested_access d) AR_REMOTE_ATOMIC then ''REMOTE_ATOMIC_UNSUPPORTED''
      else '''')"

definition ref_region :: "u64 \<Rightarrow> MemoryRegionId" where
  "ref_region n = StrongId (0x100000000 + n)"

definition ref_make_handle :: "MemoryRegionId \<Rightarrow> string" where
  "ref_make_handle region = ''ref-'' @ int_to_str (id_value region)"

definition ref_make_registration :: "MemoryRegionId \<Rightarrow> BufferDescriptor \<Rightarrow> BackendRegistration" where
  "ref_make_registration region d =
     \<lparr>br_memory_region_id = region,
      br_handle = ref_make_handle region,
      br_registered_base = bp_address (bd_base d),
      br_registered_length = bd_byte_length d,
      br_granted_access = bd_requested_access d,
      br_keys =
        \<lparr>bk_remote_key_id = StrongId (id_value region * 3 + 1),
         bk_local_key_id = StrongId (id_value region * 3 + 2),
         bk_remote_key_generation = StrongGeneration 1,
         bk_opaque_value = id_value region XOR 0x5A5A5A5A5A5A5A5A,
         bk_granted_access = bd_requested_access d,
         bk_provenance = PV_REAL\<rparr>,
      br_transport = StrongId 0x525046,
      br_nic = no_id,
      br_device = no_id,
      br_provenance = PV_REAL,
      br_freshness = FR_VALID\<rparr>"

definition ref_register ::
    "BufferDescriptor \<Rightarrow> RegistrationContext \<Rightarrow> ReferenceBackend \<Rightarrow>
     (RegisterOutcome \<times> BackendRegistration option) \<times> ReferenceBackend" where
  "ref_register d cx b =
     (let reason = ref_can_register d b
      in if reason \<noteq> '''' then
           ((\<lparr>ro_ok = False, ro_code = reason,
              ro_message = msg ''Reference backend rejects registration: '' @ reason\<rparr>, None), b)
         else
           (let region = ref_region (rb_next_seq b);
                r = ref_make_registration region d;
                e = \<lparr>re_ctx = cx, re_reg = r, re_revoked = False\<rparr>
            in ((\<lparr>ro_ok = True, ro_code = ''REGISTERED'',
                  ro_message = msg ''Reference registration committed (TCP_REFERENCE).''\<rparr>, Some r),
                b\<lparr>rb_next_seq := rb_next_seq b + 1,
                  rb_entries := AList.update (br_handle r) e (rb_entries b)\<rparr>)))"

definition ref_deregister :: "RegisterHandle \<Rightarrow> ReferenceBackend \<Rightarrow> RegisterOutcome \<times> ReferenceBackend" where
  "ref_deregister h b =
     (case map_of (rb_entries b) (rh_handle h) of
        None \<Rightarrow> (\<lparr>ro_ok = False, ro_code = ''NOT_FOUND'',
                  ro_message = msg ''No reference registration for handle.''\<rparr>, b)
      | Some e \<Rightarrow> (\<lparr>ro_ok = True, ro_code = ''DEREGISTERED'',
                    ro_message = msg ''Reference registration released.''\<rparr>,
                   b\<lparr>rb_entries := AList.delete (rh_handle h) (rb_entries b)\<rparr>))"

definition ref_query_registration ::
    "RegisterHandle \<Rightarrow> ReferenceBackend \<Rightarrow> RegisterOutcome \<times> BackendRegistration option" where
  "ref_query_registration h b =
     (case map_of (rb_entries b) (rh_handle h) of
        None \<Rightarrow> (\<lparr>ro_ok = False, ro_code = ''NOT_FOUND'',
                  ro_message = msg ''No reference registration for handle.''\<rparr>, None)
      | Some e \<Rightarrow> (\<lparr>ro_ok = True, ro_code = ''QUERIED'',
                    ro_message = msg ''Reference registration revalidated.''\<rparr>, Some (re_reg e)))"

section \<open>Access\<close>

definition ref_query ::
    "RegisterHandle \<Rightarrow> BackendKey \<Rightarrow> OperationKind \<Rightarrow> u64 \<Rightarrow> u64 \<Rightarrow> ReferenceBackend \<Rightarrow>
     AccessOutcome \<times> string" where
  "ref_query h key k off len b =
     (case map_of (rb_entries b) (rh_handle h) of
        None \<Rightarrow> (AO_REJECT_NOT_REGISTERED,
                 msg ''Reference backend has no live registration for this handle.'')
      | Some e \<Rightarrow>
          if re_revoked e then
            (AO_REJECT_REVOKED, msg ''Reference registration has been revoked.'')
          else if bk_remote_key_generation key \<noteq> bk_remote_key_generation (br_keys (re_reg e)) then
            (AO_REJECT_STALE_KEY, msg ''Reference remote key generation is stale.'')
          else if off > br_registered_length (re_reg e) \<or>
                  len > br_registered_length (re_reg e) - off then
            (AO_REJECT_RANGE, msg ''Reference access range exceeds registered length.'')
          else if k = OP_WRITE \<and> \<not> access_has (br_granted_access (re_reg e)) AR_REMOTE_WRITE then
            (AO_REJECT_PERMISSION, msg ''Reference registration does not grant REMOTE_WRITE.'')
          else if k = OP_READ \<and> \<not> access_has (br_granted_access (re_reg e)) AR_REMOTE_READ then
            (AO_REJECT_PERMISSION, msg ''Reference registration does not grant REMOTE_READ.'')
          else if k = OP_ATOMIC_COMPARE_SWAP then
            (AO_REJECT_UNKNOWN_CAPABILITY, msg ''Reference backend does not support REMOTE_ATOMIC.'')
          else (AO_ALLOW, msg ''Reference backend permits this reference transport operation.''))"

definition ref_revalidate ::
    "RegisterHandle \<Rightarrow> ReferenceBackend \<Rightarrow> (AccessOutcome \<times> string) \<times> ReferenceBackend" where
  "ref_revalidate h b =
     (case map_of (rb_entries b) (rh_handle h) of
        None \<Rightarrow> ((AO_REJECT_NOT_REGISTERED,
                  msg ''Cannot revalidate: reference registration not found.''), b)
      | Some e \<Rightarrow> ((AO_ALLOW, msg ''Reference registration revalidated.''), b))"

definition ref_abort :: "RegisterHandle \<Rightarrow> ReferenceBackend \<Rightarrow> (bool \<times> string) \<times> ReferenceBackend" where
  "ref_abort h b =
     (case map_of (rb_entries b) (rh_handle h) of
        None \<Rightarrow> ((False, msg ''Abort: reference registration not found.''), b)
      | Some e \<Rightarrow> ((True, msg ''Reference registration aborted.''),
                   b\<lparr>rb_entries := AList.delete (rh_handle h) (rb_entries b)\<rparr>))"

definition ref_rotate_entry :: "RemoteKeyGeneration \<Rightarrow> RefEntry \<Rightarrow> RefEntry" where
  "ref_rotate_entry g e =
     e\<lparr>re_reg := (re_reg e)\<lparr>br_keys := (br_keys (re_reg e))\<lparr>bk_remote_key_generation := g\<rparr>\<rparr>\<rparr>"

definition ref_rotate ::
    "RegisterHandle \<Rightarrow> RemoteKeyGeneration \<Rightarrow> ReferenceBackend \<Rightarrow> (bool \<times> string) \<times> ReferenceBackend" where
  "ref_rotate h g b =
     (case map_of (rb_entries b) (rh_handle h) of
        None \<Rightarrow> ((False, msg ''rotate_key: reference registration not found.''), b)
      | Some e \<Rightarrow>
          ((True, msg ''reference key rotated to generation '' @ int_to_str (gen_value g)),
           b\<lparr>rb_entries := AList.update (rh_handle h) (ref_rotate_entry g e) (rb_entries b)\<rparr>))"

definition ref_advance_generation :: "ReferenceBackend \<Rightarrow> ReferenceBackend" where
  "ref_advance_generation b = b\<lparr>rb_backend_gen := gen_next (rb_backend_gen b)\<rparr>"

section \<open>The pinning probe\<close>

record PinProbeResult =
  pp_ok :: bool
  pp_bytes :: u64
  pp_detail :: string
  pp_allocation_committed :: bool
  pp_locked :: bool
  pp_provenance :: Provenance

text \<open>
  The branch built off Windows. \<open>allocated\<close> is whether \<open>operator new[]\<close> returned memory.
\<close>

definition ref_probe_host_pinning :: "bool \<Rightarrow> u64 \<Rightarrow> PinProbeResult" where
  "ref_probe_host_pinning allocated len =
     (let r = \<lparr>pp_ok = False, pp_bytes = len, pp_detail = '''', pp_allocation_committed = False,
               pp_locked = False, pp_provenance = PV_UNKNOWN\<rparr>
      in if len = 0 then r\<lparr>pp_detail := msg ''zero length probe''\<rparr>
         else if \<not> allocated then
           r\<lparr>pp_detail := msg ''allocation failed: '' @ msg ''commit_pages: allocation failed''\<rparr>
         else
           r\<lparr>pp_allocation_committed := True,
             pp_detail := msg ''allocation committed + touched; VirtualLock unsupported on this platform'',
             pp_provenance := PV_UNKNOWN\<rparr>)"

lemma ref_probe_never_claims_pinning:
  "\<not> pp_ok (ref_probe_host_pinning a n) \<and> \<not> pp_locked (ref_probe_host_pinning a n) \<and>
   pp_provenance (ref_probe_host_pinning a n) \<noteq> PV_REAL"
  by (simp add: ref_probe_host_pinning_def Let_def)

section \<open>The reference backend meets the contract\<close>

definition ref_entry_view :: "RefEntry \<Rightarrow> EntryView" where
  "ref_entry_view e =
     \<lparr>ev_generation = bk_remote_key_generation (br_keys (re_reg e)),
      ev_length = br_registered_length (re_reg e),
      ev_access = br_granted_access (re_reg e),
      ev_usable = (\<not> re_revoked e)\<rparr>"

definition ref_view :: "ReferenceBackend \<Rightarrow> string \<Rightarrow> EntryView option" where
  "ref_view b h = map_option ref_entry_view (map_of (rb_entries b) h)"

definition ref_wf :: "ReferenceBackend \<Rightarrow> bool" where
  "ref_wf b \<longleftrightarrow> um_wf (rb_entries b) \<and>
     (\<forall>h \<in> fst ` set (rb_entries b). \<exists>n < rb_next_seq b. h = ref_make_handle (ref_region n))"

definition ref_room :: "ReferenceBackend \<Rightarrow> bool" where
  "ref_room b \<longleftrightarrow> rb_next_seq b \<noteq> - 1"

lemma ref_make_handle_inj:
  "ref_make_handle (ref_region m) = ref_make_handle (ref_region n) \<Longrightarrow> m = n"
  by (auto simp: ref_make_handle_def ref_region_def dest: int_to_str_inj)

lemma ref_can_register_ok:
  "ref_can_register d b = '''' \<longleftrightarrow>
     domain_supported (ref_capabilities b) (bd_domain d) \<and> bv_ok (validate_range d) \<and>
     \<not> access_has (bd_requested_access d) AR_REMOTE_ATOMIC"
proof -
  have code: "bv_code (validate_range d) \<noteq> ''''"
    by (simp add: validate_range_def split: option.splits)
  have len: "bv_ok (validate_range d) \<Longrightarrow> bd_byte_length d \<noteq> 0"
    by (simp add: validate_range_ok_iff)
  show ?thesis
    unfolding ref_can_register_def
    by (simp only: reason_gate code list.distinct not_False_eq_True simp_thms) (metis len)
qed

lemma ref_query_allow_iff:
  "fst (ref_query h key k off len b) = AO_ALLOW \<longleftrightarrow>
     (\<exists>v. ref_view b (rh_handle h) = Some v \<and>
          entry_permits (ref_capabilities b) v (bk_remote_key_generation key) k off len)"
proof (cases "map_of (rb_entries b) (rh_handle h)")
  case None
  then show ?thesis by (simp add: ref_query_def ref_view_def)
next
  case (Some e)
  then show ?thesis
    by (cases k) (auto simp: backend_range_test ref_query_def ref_view_def ref_entry_view_def
        entry_permits_def kind_capability_def capability_allows_def ref_capabilities_def
        intrinsic_right_def)
qed

lemma ref_register_cases:
  assumes "ref_register d cx b = ((ro, out), b')"
  obtains (refused) "ref_can_register d b \<noteq> ''''" "\<not> ro_ok ro" "out = None" "b' = b"
  | (accepted) r e where "ref_can_register d b = ''''" "ro_ok ro" "out = Some r"
      "r = ref_make_registration (ref_region (rb_next_seq b)) d"
      "e = \<lparr>re_ctx = cx, re_reg = r, re_revoked = False\<rparr>"
      "b' = b\<lparr>rb_next_seq := rb_next_seq b + 1,
              rb_entries := AList.update (br_handle r) e (rb_entries b)\<rparr>"
  using assms by (auto simp: ref_register_def Let_def split: if_splits)

lemma ref_capabilities_const: "ref_capabilities b = ref_capabilities b'"
  by (simp add: ref_capabilities_def)

lemma ref_view_insert:
  "ref_view (b\<lparr>rb_next_seq := n, rb_entries := AList.update h e (rb_entries b)\<rparr>) =
     (ref_view b)(h \<mapsto> ref_entry_view e)"
  "ref_view (b\<lparr>rb_entries := AList.update h e (rb_entries b)\<rparr>) =
     (ref_view b)(h \<mapsto> ref_entry_view e)"
  by (rule ext, simp add: ref_view_def um_simps)+

lemma ref_view_delete:
  "ref_view (b\<lparr>rb_entries := AList.delete h (rb_entries b)\<rparr>) = (ref_view b)(h := None)"
  by (rule ext) (simp add: ref_view_def um_simps)

lemma ref_wf_register:
  assumes "ref_wf b" and "ref_room b" and "ref_register d cx b = (x, b')"
  shows "ref_wf b'"
proof -
  obtain ro out where "x = (ro, out)" by (cases x)
  with assms(3) have "ref_register d cx b = ((ro, out), b')" by simp
  then show ?thesis
  proof (cases rule: ref_register_cases)
    case refused
    with assms(1) show ?thesis by simp
  next
    case (accepted r e)
    from assms(2) have inc: "rb_next_seq b < rb_next_seq b + 1"
      by (metis ref_room_def add_eq_0_iff inc_less_eq_triv_imp not_less)
    have keys: "fst ` set (rb_entries b') = insert (br_handle r) (fst ` set (rb_entries b))"
      by (simp add: accepted AList.dom_update)
    show ?thesis
      using assms(1) inc unfolding ref_wf_def keys
      by (auto simp: accepted um_simps ref_make_registration_def intro: less_trans)
  qed
qed

lemma ref_wf_delete:
  assumes "ref_wf b"
  shows "ref_wf (b\<lparr>rb_entries := AList.delete h (rb_entries b)\<rparr>)"
proof -
  have "fst ` set (AList.delete h (rb_entries b)) \<subseteq> fst ` set (rb_entries b)"
    by (rule dom_delete_subset)
  with assms have "\<forall>k \<in> fst ` set (AList.delete h (rb_entries b)).
      \<exists>n < rb_next_seq b. k = ref_make_handle (ref_region n)"
    unfolding ref_wf_def by (meson subsetD)
  moreover from assms have "um_wf (AList.delete h (rb_entries b))"
    by (simp add: ref_wf_def um_simps)
  ultimately show ?thesis
    unfolding ref_wf_def by simp
qed

lemma ref_wf_update_live:
  assumes "ref_wf b" and "map_of (rb_entries b) h = Some e"
  shows "ref_wf (b\<lparr>rb_entries := AList.update h e' (rb_entries b)\<rparr>)"
proof -
  from map_of_SomeD [OF assms(2)] have "h \<in> fst ` set (rb_entries b)" by force
  then have "fst ` set (AList.update h e' (rb_entries b)) = fst ` set (rb_entries b)"
    by (auto simp: AList.dom_update)
  with assms(1) show ?thesis by (simp add: ref_wf_def um_simps)
qed

lemma ref_handle_fresh:
  assumes "ref_wf b" and "ref_register d cx b = ((ro, Some r), b')"
  shows "ref_view b (br_handle r) = None"
proof (rule ccontr)
  assume "ref_view b (br_handle r) \<noteq> None"
  then have live: "br_handle r \<in> fst ` set (rb_entries b)"
    by (auto simp: ref_view_def dom_map_of_conv_image_fst [symmetric])
  from assms(2) have r: "br_handle r = ref_make_handle (ref_region (rb_next_seq b))"
    by (cases rule: ref_register_cases) (simp_all add: ref_make_registration_def)
  from live assms(1) obtain n where n: "n < rb_next_seq b"
    and "br_handle r = ref_make_handle (ref_region n)"
    by (auto simp: ref_wf_def)
  with r have "n = rb_next_seq b"
    using ref_make_handle_inj by simp
  with n show False by simp
qed

text \<open>The laws of the contract, one lemma each; the interpretation collects them.\<close>

lemma ref_register_refused:
  "ref_can_register d b \<noteq> '''' \<Longrightarrow> ref_register d cx b = ((ro, out), b') \<Longrightarrow> \<not> ro_ok ro \<and> out = None \<and> b' = b"
  by (auto elim: ref_register_cases)

lemma ref_register_accepted:
  assumes "ref_can_register d b = ''''" and "ref_register d cx b = ((ro, out), b')"
  shows "ro_ok ro \<and> (\<exists>r. out = Some r \<and> br_handle r \<noteq> '''' \<and>
      br_registered_base r = bp_address (bd_base d) \<and>
      br_registered_length r = bd_byte_length d \<and>
      br_granted_access r = bd_requested_access d \<and>
      gen_valid (bk_remote_key_generation (br_keys r)) \<and>
      ref_view b' = (ref_view b)(br_handle r \<mapsto>
        \<lparr>ev_generation = bk_remote_key_generation (br_keys r), ev_length = bd_byte_length d,
         ev_access = bd_requested_access d, ev_usable = True\<rparr>))"
  using assms(2)
proof (cases rule: ref_register_cases)
  case refused
  with assms(1) show ?thesis by simp
next
  case (accepted r e)
  from accepted have "ref_view b' = (ref_view b)(br_handle r \<mapsto> ref_entry_view e)"
    by (simp add: ref_view_insert)
  with accepted show ?thesis
    by (simp add: ref_make_registration_def ref_make_handle_def ref_entry_view_def gen_valid_def)
qed

lemma ref_can_register_range: "ref_can_register d b = '''' \<Longrightarrow> bv_ok (validate_range d)"
  and ref_can_register_domain:
    "ref_can_register d b = '''' \<Longrightarrow> domain_supported (ref_capabilities b) (bd_domain d)"
  by (simp_all add: ref_can_register_ok)

lemma ref_can_register_right:
  "ref_can_register d b = '''' \<Longrightarrow> access_has (bd_requested_access d) (intrinsic_right k) \<Longrightarrow>
    capability_allows (kind_capability (ref_capabilities b) k)"
  by (cases k) (simp_all add: ref_can_register_ok kind_capability_def capability_allows_def
      ref_capabilities_def intrinsic_right_def)

lemma ref_deregister_effect:
  "ref_deregister h b = (ro, b') \<Longrightarrow>
    (ro_ok ro \<longleftrightarrow> ref_view b (rh_handle h) \<noteq> None) \<and> ref_view b' = (ref_view b)(rh_handle h := None)"
  by (auto simp: ref_deregister_def ref_view_delete split: option.splits) (auto simp: ref_view_def fun_eq_iff)

lemma ref_rotate_missing:
  "ref_view b (rh_handle h) = None \<Longrightarrow> ref_rotate h g b = ((ok, ex), b') \<Longrightarrow> \<not> ok \<and> ref_view b' = ref_view b"
  by (auto simp: ref_view_def ref_rotate_def)

lemma ref_rotate_live:
  assumes "ref_view b (rh_handle h) = Some v" and "ref_rotate h g b = ((ok, ex), b')"
  shows "ok \<and> (\<exists>u. (ev_usable v \<longrightarrow> u) \<and>
    ref_view b' = (ref_view b)(rh_handle h \<mapsto> v\<lparr>ev_generation := g, ev_usable := u\<rparr>))"
proof -
  from assms(1) obtain e where e: "map_of (rb_entries b) (rh_handle h) = Some e" "v = ref_entry_view e"
    by (auto simp: ref_view_def)
  with assms(2) have "ok" and b': "b' = b\<lparr>rb_entries :=
      AList.update (rh_handle h) (ref_rotate_entry g e) (rb_entries b)\<rparr>"
    by (simp_all add: ref_rotate_def)
  have "ref_entry_view (ref_rotate_entry g e) = v\<lparr>ev_generation := g, ev_usable := ev_usable v\<rparr>"
    by (simp add: ref_entry_view_def ref_rotate_entry_def e(2))
  with \<open>ok\<close> show ?thesis unfolding b' ref_view_insert by metis
qed

lemma ref_register_frame:
    "ref_register d cx b = (x, b') \<Longrightarrow> ref_capabilities b' = ref_capabilities b \<and> rb_backend_gen b' = rb_backend_gen b"
  and ref_deregister_frame:
    "ref_deregister h b = (ro, b') \<Longrightarrow> ref_capabilities b' = ref_capabilities b \<and> rb_backend_gen b' = rb_backend_gen b"
  and ref_rotate_frame:
    "ref_rotate h g b = (y, b') \<Longrightarrow> ref_capabilities b' = ref_capabilities b \<and> rb_backend_gen b' = rb_backend_gen b"
  by (auto simp: ref_register_def ref_deregister_def ref_rotate_def Let_def intro: ref_capabilities_const split: if_splits option.splits)

lemma ref_wf_deregister: "ref_wf b \<Longrightarrow> ref_deregister h b = (ro, b') \<Longrightarrow> ref_wf b'"
  and ref_wf_rotate: "ref_wf b \<Longrightarrow> ref_rotate h g b = (y, b') \<Longrightarrow> ref_wf b'"
  by (auto simp: ref_deregister_def ref_rotate_def ref_wf_delete ref_wf_update_live split: option.splits)

lemmas ref_laws = ref_query_allow_iff ref_register_refused ref_register_accepted ref_can_register_range
  ref_can_register_domain ref_can_register_right ref_deregister_effect ref_rotate_missing ref_rotate_live
  ref_register_frame ref_deregister_frame ref_rotate_frame ref_wf_register ref_wf_deregister ref_wf_rotate
  ref_handle_fresh

interpretation ref: fresh_backend ref_view ref_capabilities rb_backend_gen ref_can_register
  ref_register ref_deregister ref_query ref_rotate ref_wf ref_room
  by unfold_locales (rule ref_laws; assumption)+

text \<open>A remote atomic is never permitted by the reference backend.\<close>

lemma ref_never_atomic: "fst (ref_query h key OP_ATOMIC_COMPARE_SWAP off len b) \<noteq> AO_ALLOW"
  by (auto simp: ref_query_allow_iff entry_permits_def kind_capability_def capability_allows_def
      ref_capabilities_def)

declare ref_create_def [exec_defs] os_page_size_def [exec_defs] ref_capabilities_def [exec_defs]
  ref_can_register_def [exec_defs] ref_region_def [exec_defs] ref_make_handle_def [exec_defs]
  ref_make_registration_def [exec_defs] ref_register_def [exec_defs] ref_deregister_def [exec_defs]
  ref_query_def [exec_defs] ref_rotate_def [exec_defs] ref_rotate_entry_def [exec_defs]

end
