(* ===== verification/Dispatch.thy ===== *)
theory Dispatch
  imports Synthetic Reference
begin

text \<open>
  The objects behind \<open>std::shared_ptr<IBackend>\<close>: a synthetic or a reference backend, and
  the virtual calls of \<open>include/rdmabuffer/backend.hpp\<close> that the registry makes on them. The
  last section proves that the dispatch is itself a \<open>fresh_backend\<close>, so that the registry's
  proofs rest on the contract and not on one backend.
\<close>

section \<open>Virtual calls\<close>

datatype IBackend =
  SyntheticObj SyntheticBackend
| ReferenceObj ReferenceBackend

fun be_id :: "IBackend \<Rightarrow> BackendId" where
  "be_id (SyntheticObj b) = sb_id b"
| "be_id (ReferenceObj b) = rb_id b"

fun be_name :: "IBackend \<Rightarrow> string" where
  "be_name (SyntheticObj b) = ''synthetic-rdma''"
| "be_name (ReferenceObj b) = ''reference-tcp''"

fun be_provenance :: "IBackend \<Rightarrow> Provenance" where
  "be_provenance (SyntheticObj b) = PV_SYNTHETIC"
| "be_provenance (ReferenceObj b) = PV_REAL"

fun be_generation :: "IBackend \<Rightarrow> BackendGeneration" where
  "be_generation (SyntheticObj b) = sb_backend_gen b"
| "be_generation (ReferenceObj b) = rb_backend_gen b"

fun be_state :: "IBackend \<Rightarrow> BackendState" where
  "be_state (SyntheticObj b) = sb_state b"
| "be_state (ReferenceObj b) = rb_state b"

fun be_capabilities :: "IBackend \<Rightarrow> BackendCapabilities" where
  "be_capabilities (SyntheticObj b) = syn_capabilities b"
| "be_capabilities (ReferenceObj b) = ref_capabilities b"

fun be_can_register :: "BufferDescriptor \<Rightarrow> IBackend \<Rightarrow> string" where
  "be_can_register d (SyntheticObj b) = syn_can_register d b"
| "be_can_register d (ReferenceObj b) = ref_can_register d b"

fun be_register :: "BufferDescriptor \<Rightarrow> RegistrationContext \<Rightarrow> IBackend \<Rightarrow>
    (RegisterOutcome \<times> BackendRegistration option) \<times> IBackend" where
  "be_register d cx (SyntheticObj b) = apsnd SyntheticObj (syn_register d cx b)"
| "be_register d cx (ReferenceObj b) = apsnd ReferenceObj (ref_register d cx b)"

fun be_deregister :: "RegisterHandle \<Rightarrow> IBackend \<Rightarrow> RegisterOutcome \<times> IBackend" where
  "be_deregister h (SyntheticObj b) = apsnd SyntheticObj (syn_deregister h b)"
| "be_deregister h (ReferenceObj b) = apsnd ReferenceObj (ref_deregister h b)"

fun be_query_registration ::
    "RegisterHandle \<Rightarrow> IBackend \<Rightarrow> RegisterOutcome \<times> BackendRegistration option" where
  "be_query_registration h (SyntheticObj b) = syn_query_registration h b"
| "be_query_registration h (ReferenceObj b) = ref_query_registration h b"

fun be_query :: "RegisterHandle \<Rightarrow> BackendKey \<Rightarrow> OperationKind \<Rightarrow> u64 \<Rightarrow> u64 \<Rightarrow> IBackend \<Rightarrow>
    AccessOutcome \<times> string" where
  "be_query h key k off len (SyntheticObj b) = syn_query h key k off len b"
| "be_query h key k off len (ReferenceObj b) = ref_query h key k off len b"

fun be_revalidate :: "RegisterHandle \<Rightarrow> IBackend \<Rightarrow> (AccessOutcome \<times> string) \<times> IBackend" where
  "be_revalidate h (SyntheticObj b) = apsnd SyntheticObj (syn_revalidate h b)"
| "be_revalidate h (ReferenceObj b) = apsnd ReferenceObj (ref_revalidate h b)"

fun be_abort :: "RegisterHandle \<Rightarrow> IBackend \<Rightarrow> (bool \<times> string) \<times> IBackend" where
  "be_abort h (SyntheticObj b) = apsnd SyntheticObj (syn_abort h b)"
| "be_abort h (ReferenceObj b) = apsnd ReferenceObj (ref_abort h b)"

fun be_rotate :: "RegisterHandle \<Rightarrow> RemoteKeyGeneration \<Rightarrow> IBackend \<Rightarrow> (bool \<times> string) \<times> IBackend" where
  "be_rotate h g (SyntheticObj b) = apsnd SyntheticObj (syn_rotate h g b)"
| "be_rotate h g (ReferenceObj b) = apsnd ReferenceObj (ref_rotate h g b)"

fun be_advance_generation :: "IBackend \<Rightarrow> IBackend" where
  "be_advance_generation (SyntheticObj b) = SyntheticObj (syn_advance_generation b)"
| "be_advance_generation (ReferenceObj b) = ReferenceObj (ref_advance_generation b)"

section \<open>The dispatch meets the contract\<close>

fun be_view :: "IBackend \<Rightarrow> string \<Rightarrow> EntryView option" where
  "be_view (SyntheticObj b) = syn_view b"
| "be_view (ReferenceObj b) = ref_view b"

fun be_wf :: "IBackend \<Rightarrow> bool" where
  "be_wf (SyntheticObj b) \<longleftrightarrow> syn_wf b"
| "be_wf (ReferenceObj b) \<longleftrightarrow> ref_wf b"

fun be_room :: "IBackend \<Rightarrow> bool" where
  "be_room (SyntheticObj b) \<longleftrightarrow> syn_room b"
| "be_room (ReferenceObj b) \<longleftrightarrow> ref_room b"

lemma apsnd_eq: "apsnd f p = (a, c) \<longleftrightarrow> (\<exists>b. p = (a, b) \<and> c = f b)"
  by (cases p) auto

text \<open>Each law holds of a call because it holds of both objects behind the pointer.\<close>

lemma be_query_allow_iff:
  "fst (be_query h key k off len b) = AO_ALLOW \<longleftrightarrow>
    (\<exists>v. be_view b (rh_handle h) = Some v \<and>
         entry_permits (be_capabilities b) v (bk_remote_key_generation key) k off len)"
  by (cases b) (simp_all add: syn.query_allow_iff ref.query_allow_iff)

lemma be_register_refused:
  "be_can_register d b \<noteq> '''' \<Longrightarrow> be_register d cx b = ((ro, out), b') \<Longrightarrow> \<not> ro_ok ro \<and> out = None \<and> b' = b"
  by (cases b) (auto simp: apsnd_eq dest: syn.register_refused ref.register_refused)

lemma be_register_accepted:
  "be_can_register d b = '''' \<Longrightarrow> be_register d cx b = ((ro, out), b') \<Longrightarrow>
    ro_ok ro \<and> (\<exists>r. out = Some r \<and> br_handle r \<noteq> '''' \<and>
      br_registered_base r = bp_address (bd_base d) \<and>
      br_registered_length r = bd_byte_length d \<and>
      br_granted_access r = bd_requested_access d \<and>
      gen_valid (bk_remote_key_generation (br_keys r)) \<and>
      be_view b' = (be_view b)(br_handle r \<mapsto>
        \<lparr>ev_generation = bk_remote_key_generation (br_keys r), ev_length = bd_byte_length d,
         ev_access = bd_requested_access d, ev_usable = True\<rparr>))"
  by (cases b) (auto simp: apsnd_eq dest: syn.register_accepted ref.register_accepted)

lemma be_can_register_range: "be_can_register d b = '''' \<Longrightarrow> bv_ok (validate_range d)"
  and be_can_register_domain:
    "be_can_register d b = '''' \<Longrightarrow> domain_supported (be_capabilities b) (bd_domain d)"
  and be_can_register_rights:
    "be_can_register d b = '''' \<Longrightarrow> access_has (bd_requested_access d) (intrinsic_right k) \<Longrightarrow>
      capability_allows (kind_capability (be_capabilities b) k)"
  by (cases b; auto dest: syn.can_register_range ref.can_register_range syn.can_register_domain
      ref.can_register_domain syn.can_register_rights ref.can_register_rights)+

lemma be_deregister_effect:
  "be_deregister h b = (ro, b') \<Longrightarrow>
    (ro_ok ro \<longleftrightarrow> be_view b (rh_handle h) \<noteq> None) \<and> be_view b' = (be_view b)(rh_handle h := None)"
  by (cases b) (auto simp: apsnd_eq dest: syn.deregister_effect ref.deregister_effect)

lemma be_rotate_missing:
  "be_view b (rh_handle h) = None \<Longrightarrow> be_rotate h g b = ((ok, ex), b') \<Longrightarrow> \<not> ok \<and> be_view b' = be_view b"
  by (cases b) (auto simp: apsnd_eq dest: syn.rotate_missing ref.rotate_missing)

lemma be_rotate_live:
  assumes "be_view b (rh_handle h) = Some v" and "be_rotate h g b = ((ok, ex), b')"
  shows "ok \<and> (\<exists>u. (ev_usable v \<longrightarrow> u) \<and>
    be_view b' = (be_view b)(rh_handle h \<mapsto> v\<lparr>ev_generation := g, ev_usable := u\<rparr>))"
proof (cases b)
  case (SyntheticObj s)
  with assms(2) obtain s' where s: "syn_rotate h g s = ((ok, ex), s')" and b': "b' = SyntheticObj s'"
    unfolding SyntheticObj be_rotate.simps apsnd_eq by blast
  from assms(1) have "syn_view s (rh_handle h) = Some v" by (simp only: SyntheticObj be_view.simps)
  from syn.rotate_live [OF this s] show ?thesis unfolding b' SyntheticObj be_view.simps .
next
  case (ReferenceObj s)
  with assms(2) obtain s' where s: "ref_rotate h g s = ((ok, ex), s')" and b': "b' = ReferenceObj s'"
    unfolding ReferenceObj be_rotate.simps apsnd_eq by blast
  from assms(1) have "ref_view s (rh_handle h) = Some v" by (simp only: ReferenceObj be_view.simps)
  from ref.rotate_live [OF this s] show ?thesis unfolding b' ReferenceObj be_view.simps .
qed

lemma be_register_frame:
    "be_register d cx b = (x, b') \<Longrightarrow> be_capabilities b' = be_capabilities b \<and> be_generation b' = be_generation b"
  and be_deregister_frame:
    "be_deregister h b = (ro, b') \<Longrightarrow> be_capabilities b' = be_capabilities b \<and> be_generation b' = be_generation b"
  and be_rotate_frame:
    "be_rotate h g b = (y, b') \<Longrightarrow> be_capabilities b' = be_capabilities b \<and> be_generation b' = be_generation b"
  by (cases b; auto simp: apsnd_eq dest: syn.register_frame ref.register_frame syn.deregister_frame
      ref.deregister_frame syn.rotate_frame ref.rotate_frame)+

lemma be_wf_register: "be_wf b \<Longrightarrow> be_room b \<Longrightarrow> be_register d cx b = (x, b') \<Longrightarrow> be_wf b'"
  and be_wf_deregister: "be_wf b \<Longrightarrow> be_deregister h b = (ro, b') \<Longrightarrow> be_wf b'"
  and be_wf_rotate: "be_wf b \<Longrightarrow> be_rotate h g b = (y, b') \<Longrightarrow> be_wf b'"
  by (cases b; auto simp: apsnd_eq intro: syn.wf_register ref.wf_register syn.wf_deregister
      ref.wf_deregister syn.wf_rotate ref.wf_rotate)+

lemma be_handle_fresh:
  "be_wf b \<Longrightarrow> be_room b \<Longrightarrow> be_register d cx b = ((ro, Some r), b') \<Longrightarrow> be_view b (br_handle r) = None"
  by (cases b) (auto simp: apsnd_eq dest: syn.handle_fresh ref.handle_fresh)

lemmas be_laws = be_query_allow_iff be_register_refused be_register_accepted be_can_register_range
  be_can_register_domain be_can_register_rights be_deregister_effect be_rotate_missing be_rotate_live
  be_register_frame be_deregister_frame be_rotate_frame be_wf_register be_wf_deregister be_wf_rotate
  be_handle_fresh

interpretation be: fresh_backend be_view be_capabilities be_generation be_can_register
  be_register be_deregister be_query be_rotate be_wf be_room
  by unfold_locales (rule be_laws; assumption)+

text \<open>What a call leaves alone: the identity of the object behind the pointer.\<close>

lemma be_id_frame:
  "be_register d cx b = (x, b') \<Longrightarrow> be_id b' = be_id b"
  "be_deregister h b = (ro, b') \<Longrightarrow> be_id b' = be_id b"
  "be_rotate h g b = (y, b') \<Longrightarrow> be_id b' = be_id b"
  by (cases b; auto simp: apsnd_eq syn_register_def ref_register_def syn_deregister_def
      ref_deregister_def syn_erase_def syn_rotate_def ref_rotate_def Let_def
      split: if_splits option.splits)+

end
