(* ===== verification/Accounting.thy ===== *)
theory Accounting
  imports Prelude
begin

text \<open>
  Counters and the accounting record of \<open>include/rdmabuffer/accounting.hpp\<close>. A counter is
  its 64-bit value: \<open>increment\<close> wraps as the addition does, \<open>decrement\<close> refuses to go below
  zero and then changes nothing.
\<close>

section \<open>Counters\<close>

type_synonym Counter = u64

definition increment :: "u64 \<Rightarrow> Counter \<Rightarrow> Counter" where
  "increment n c = c + n"

definition decrement :: "u64 \<Rightarrow> Counter \<Rightarrow> bool \<times> Counter" where
  "decrement n c = (if n > c then (False, c) else (True, c - n))"

text \<open>The registry ignores the result of \<open>decrement\<close>; \<open>decr\<close> is its effect.\<close>

definition decr :: "u64 \<Rightarrow> Counter \<Rightarrow> Counter" where
  "decr n c = snd (decrement n c)"

section \<open>The accounting record\<close>

record Accounting =
  a_logical_buffers :: Counter
  a_live_buffer_bytes :: Counter
  a_pinned_bytes :: Counter
  a_registered_bytes :: Counter
  a_active_registrations :: Counter
  a_active_leases :: Counter
  a_protection_domains :: Counter
  a_local_keys :: Counter
  a_remote_keys :: Counter
  a_remote_read_bytes :: Counter
  a_remote_write_bytes :: Counter
  a_atomic_operations :: Counter
  a_failed_access_attempts :: Counter
  a_stale_access_rejections :: Counter
  a_revocations :: Counter
  a_deregistrations :: Counter
  a_registration_reuse_hits :: Counter
  a_registration_misses :: Counter
  a_participant_restarts :: Counter

definition zero_accounting :: Accounting where
  "zero_accounting =
     \<lparr>a_logical_buffers = 0, a_live_buffer_bytes = 0, a_pinned_bytes = 0,
      a_registered_bytes = 0, a_active_registrations = 0, a_active_leases = 0,
      a_protection_domains = 0, a_local_keys = 0, a_remote_keys = 0,
      a_remote_read_bytes = 0, a_remote_write_bytes = 0, a_atomic_operations = 0,
      a_failed_access_attempts = 0, a_stale_access_rejections = 0, a_revocations = 0,
      a_deregistrations = 0, a_registration_reuse_hits = 0, a_registration_misses = 0,
      a_participant_restarts = 0\<rparr>"

text \<open>\<open>operator bool\<close>: some live, pinned, registered or leased counter is still open.\<close>

definition accounting_open :: "Accounting \<Rightarrow> bool" where
  "accounting_open a \<longleftrightarrow>
     \<not> (a_pinned_bytes a = 0 \<and> a_registered_bytes a = 0 \<and> a_active_registrations a = 0 \<and>
        a_active_leases a = 0 \<and> a_local_keys a = 0 \<and> a_remote_keys a = 0)"

definition deregister_active :: "Accounting \<Rightarrow> bool \<times> Accounting" where
  "deregister_active a =
     (let (b, c) = decrement 1 (a_active_registrations a) in (b, a\<lparr>a_active_registrations := c\<rparr>))"

definition acct_release_lease :: "Accounting \<Rightarrow> bool \<times> Accounting" where
  "acct_release_lease a =
     (let (b, c) = decrement 1 (a_active_leases a) in (b, a\<lparr>a_active_leases := c\<rparr>))"

definition release_pinned :: "u64 \<Rightarrow> Accounting \<Rightarrow> bool \<times> Accounting" where
  "release_pinned n a =
     (let (b, c) = decrement n (a_pinned_bytes a) in (b, a\<lparr>a_pinned_bytes := c\<rparr>))"

definition release_registered :: "u64 \<Rightarrow> Accounting \<Rightarrow> bool \<times> Accounting" where
  "release_registered n a =
     (let (b, c) = decrement n (a_registered_bytes a) in (b, a\<lparr>a_registered_bytes := c\<rparr>))"

text \<open>\<open>Accounting::summary\<close> (\<open>src/explain.cpp\<close>).\<close>

definition accounting_summary :: "Accounting \<Rightarrow> string" where
  "accounting_summary a =
     msg ''logical_buffers='' @ int_to_str (a_logical_buffers a) @
     msg '' live_bytes='' @ int_to_str (a_live_buffer_bytes a) @
     msg '' pinned_bytes='' @ int_to_str (a_pinned_bytes a) @
     msg '' registered_bytes='' @ int_to_str (a_registered_bytes a) @
     msg '' active_registrations='' @ int_to_str (a_active_registrations a) @
     msg '' active_leases='' @ int_to_str (a_active_leases a) @
     msg '' protection_domains='' @ int_to_str (a_protection_domains a) @
     msg '' local_keys='' @ int_to_str (a_local_keys a) @
     msg '' remote_keys='' @ int_to_str (a_remote_keys a) @
     msg '' remote_read_bytes='' @ int_to_str (a_remote_read_bytes a) @
     msg '' remote_write_bytes='' @ int_to_str (a_remote_write_bytes a) @
     msg '' atomic_ops='' @ int_to_str (a_atomic_operations a) @
     msg '' failed_access='' @ int_to_str (a_failed_access_attempts a) @
     msg '' stale_rejections='' @ int_to_str (a_stale_access_rejections a) @
     msg '' revocations='' @ int_to_str (a_revocations a) @
     msg '' deregistrations='' @ int_to_str (a_deregistrations a) @
     msg '' reuse_hits='' @ int_to_str (a_registration_reuse_hits a) @
     msg '' reuse_misses='' @ int_to_str (a_registration_misses a) @
     msg '' participant_restarts='' @ int_to_str (a_participant_restarts a)"

section \<open>Facts\<close>

lemma unat_decr: "unat (decr n c) = (if unat n \<le> unat c then unat c - unat n else unat c)"
  by (simp add: decr_def decrement_def word_less_nat_alt unat_sub word_le_nat_alt not_less)

lemma decr_le: "unat (decr n c) \<le> unat c"
  by (simp add: unat_decr)

lemma decr_zero [simp]: "decr n 0 = 0"
  by (simp add: decr_def decrement_def word_gt_0)

lemma decrement_never_underflows:
  "decrement n c = (b, c') \<Longrightarrow> unat c' \<le> unat c \<and> (b \<longleftrightarrow> n \<le> c) \<and> (b \<longrightarrow> c' + n = c)"
  using decr_le [of n c] by (auto simp: decr_def decrement_def not_less split: if_splits)

lemma decr_increment [simp]: "n \<le> c + n \<Longrightarrow> decr n (increment n c) = c"
  by (auto simp: decr_def decrement_def increment_def dest: leD)

lemma unat_increment_le: "unat (increment n c) \<le> unat c + unat n"
  by (simp add: increment_def unat_word_ariths)

declare increment_def [exec_defs] decr_def [exec_defs] decrement_def [exec_defs]
  zero_accounting_def [exec_defs] accounting_open_def [exec_defs]

end
