(* ===== verification/Explain.thy ===== *)
theory Explain
  imports Records Accounting
begin

text \<open>
  The explanation strings of \<open>src/explain.cpp\<close>. No decision of the runtime reads them; they
  are modelled because every result carries one. \<open>std::hex << unsigned(mask)\<close> is \<open>to_hex\<close>
  of the widened mask.
\<close>

definition mask_hex :: "AccessMask \<Rightarrow> string" where
  "mask_hex m = to_hex (ucast m)"

definition bool_text :: "bool \<Rightarrow> string" where
  "bool_text b = (if b then msg ''true'' else msg ''false'')"

definition explain_registration :: "RegistrationRecord \<Rightarrow> string" where
  "explain_registration r =
     msg ''registration id='' @ int_to_str (id_value (r_id r)) @
     msg '' buffer='' @ int_to_str (id_value (r_buffer_id r)) @
     msg '' buffer_generation='' @ int_to_str (gen_value (r_buffer_generation r)) @
     msg '' registration_generation='' @ int_to_str (gen_value (r_registration_generation r)) @
     msg '' backend='' @ int_to_str (id_value (r_backend r)) @
     msg '' domain='' @ memory_domain_name (r_domain r) @
     msg '' lifecycle='' @ lifecycle_name (r_lifecycle r) @
     msg '' freshness='' @ freshness_name (r_freshness r) @
     msg '' provenance='' @ provenance_name (r_provenance r) @
     msg '' rights=0x'' @ mask_hex (r_granted_access r) @
     msg '' remote_key_gen='' @ int_to_str (gen_value (rk_key_generation (r_remote_key r)))"

definition explain_reuse ::
    "BufferDescriptor \<Rightarrow> RegistrationRecord \<Rightarrow> bool \<Rightarrow> string \<Rightarrow> string" where
  "explain_reuse requested candidate reusable miss_reason =
     msg ''reuse of buffer '' @ int_to_str (id_value (bd_id requested)) @
     msg '' generation '' @ int_to_str (gen_value (bd_generation requested)) @
     msg '' against registration '' @ int_to_str (id_value (r_id candidate)) @ msg '': '' @
     (if reusable then msg ''REUSE_HIT'' else msg ''REUSE_MISS: '' @ miss_reason)"

definition explain_remote_access :: "RemoteAccessRequest \<Rightarrow> AccessDecision \<Rightarrow> string" where
  "explain_remote_access q d =
     msg ''remote '' @ operation_kind_name (q_kind q) @
     msg '' registration='' @ int_to_str (id_value (q_source_registration q)) @
     msg '' offset='' @ int_to_str (q_offset q) @ msg '' length='' @ int_to_str (q_length q) @
     msg '' result='' @ ad_code d @ msg '': '' @ ad_explanation d"

definition explain_revocation :: "RegistrationRecord \<Rightarrow> RevocationMode \<Rightarrow> bool \<Rightarrow> string" where
  "explain_revocation r mode keys_invalidated =
     msg ''registration '' @ int_to_str (id_value (r_id r)) @ msg '' '' @ revocation_mode_name mode @
     msg '' revoke; lifecycle='' @ lifecycle_name (r_lifecycle r) @
     msg '' keys_invalidated='' @ bool_text keys_invalidated @
     msg '' reason='' @ r_invalidation_reason r"

definition explain_recovery :: "RegistrationRecord \<Rightarrow> AuthoritySnapshot \<Rightarrow> string" where
  "explain_recovery r now =
     msg ''recovered registration '' @ int_to_str (id_value (r_id r)) @
     msg '' marked '' @ lifecycle_name (r_lifecycle r) @
     msg '' because physical registration handles are process/backend scoped; '' @
     msg ''current boot='' @ int_to_str (id_value (as_worker_boot now)) @
     msg '' epoch='' @ int_to_str (gen_value (as_coordinator_epoch now))"

definition explain_backend_capability ::
    "BackendCapabilities \<Rightarrow> MemoryDomain \<Rightarrow> AccessMask \<Rightarrow> string" where
  "explain_backend_capability caps domain requested_rights =
     msg ''backend domain='' @ memory_domain_name domain @
     msg '' dom_supported='' @ bool_text (domain_supported caps domain) @
     msg '' remote_read='' @ capability_state_name (bc_remote_read caps) @
     msg '' remote_write='' @ capability_state_name (bc_remote_write caps) @
     msg '' remote_atomic='' @ capability_state_name (bc_remote_atomic caps) @
     msg '' provenance='' @ provenance_name (bc_provenance caps) @
     msg '' requested_rights=0x'' @ mask_hex requested_rights"

definition explain_protection_domain :: "ProtectionDomainId \<Rightarrow> MemoryDomain \<Rightarrow> bool \<Rightarrow> string" where
  "explain_protection_domain i domain reusable =
     msg ''protection domain '' @ int_to_str (id_value i) @
     msg '' domain='' @ memory_domain_name domain @
     msg '' same_domain_reuse='' @ bool_text reusable"

end
