(* ===== verification/Registry.thy ===== *)
theory Registry
  imports Dispatch Explain
begin

text \<open>
  The runtime registry, \<open>class Rdmabuffer::Impl\<close> of \<open>src/registry.cpp\<close>: its state as the
  record \<open>Impl\<close> and one definition per operation, which takes the state and returns the
  result with the new state. The body of a method that holds the mutex throughout is one
  definition. \<open>register_buffer\<close> and \<open>deregister\<close> release the mutex around the backend call, so
  each is a composition of three definitions, one per critical section, which the concurrency
  theory interleaves.
\<close>

section \<open>State\<close>

record DomainEntry =
  de_domain :: MemoryDomain
  de_state :: DomainState
  de_generation :: ProtectionDomainGeneration
  de_node :: NodeId
  de_process :: ProcessId

record BufferEntry =
  bu_descriptor :: BufferDescriptor
  bu_registered :: bool

record Impl =
  im_authority :: AuthoritySnapshot
  im_backends :: "(BackendId, IBackend) umap"
  im_domains :: "(ProtectionDomainId, DomainEntry) umap"
  im_buffers :: "(BufferId, BufferEntry) umap"
  im_registrations :: "(RegistrationId, RegistrationRecord) umap"
  im_active_reg :: "(BufferId, RegistrationId) umap"
  im_leases :: "(RegistrationLeaseId, Lease) umap"
  im_acct :: Accounting
  im_next_buffer :: u64
  im_next_registration :: u64
  im_next_domain :: u64
  im_next_lease :: u64

definition new_impl :: Impl where
  "new_impl =
     \<lparr>im_authority = default_snapshot, im_backends = [], im_domains = [], im_buffers = [],
      im_registrations = [], im_active_reg = [], im_leases = [], im_acct = zero_accounting,
      im_next_buffer = 1, im_next_registration = 1, im_next_domain = 1, im_next_lease = 1\<rparr>"

text \<open>In-place changes: \<open>rit->second = r\<close> and a change of the accounting record.\<close>

definition put_reg :: "RegistrationId \<Rightarrow> RegistrationRecord \<Rightarrow> Impl \<Rightarrow> Impl" where
  "put_reg i r im = im\<lparr>im_registrations := AList.update i r (im_registrations im)\<rparr>"

definition on_acct :: "(Accounting \<Rightarrow> Accounting) \<Rightarrow> Impl \<Rightarrow> Impl" where
  "on_acct f im = im\<lparr>im_acct := f (im_acct im)\<rparr>"

section \<open>Authority and backends\<close>

definition set_authority :: "AuthoritySnapshot \<Rightarrow> Impl \<Rightarrow> Impl" where
  "set_authority s im = im\<lparr>im_authority := s\<rparr>"

definition current_epoch :: "Impl \<Rightarrow> CoordinatorEpoch" where
  "current_epoch im = as_coordinator_epoch (im_authority im)"

definition advance_epoch :: "Impl \<Rightarrow> Impl" where
  "advance_epoch im =
     im\<lparr>im_authority := (im_authority im)
          \<lparr>as_coordinator_epoch := gen_next (as_coordinator_epoch (im_authority im))\<rparr>\<rparr>"

definition note_participant_restart :: "Impl \<Rightarrow> Impl" where
  "note_participant_restart im =
     im\<lparr>im_authority := (im_authority im)
          \<lparr>as_coordinator_epoch := gen_next (as_coordinator_epoch (im_authority im)),
           as_worker_boot := StrongId (id_value (as_worker_boot (im_authority im)) + 1)\<rparr>,
        im_acct := (im_acct im)
          \<lparr>a_participant_restarts := increment 1 (a_participant_restarts (im_acct im))\<rparr>\<rparr>"

text \<open>The argument is the shared pointer, \<open>None\<close> when it is null.\<close>

definition add_backend :: "IBackend option \<Rightarrow> Impl \<Rightarrow> bool \<times> Impl" where
  "add_backend p im =
     (case p of None \<Rightarrow> (False, im)
      | Some b \<Rightarrow>
          if map_of (im_backends im) (be_id b) \<noteq> None then (False, im)
          else (True, im\<lparr>im_backends := AList.update (be_id b) b (im_backends im)\<rparr>))"

definition has_backend :: "BackendId \<Rightarrow> Impl \<Rightarrow> bool" where
  "has_backend i im \<longleftrightarrow> map_of (im_backends im) i \<noteq> None"

definition backend_capabilities :: "BackendId \<Rightarrow> Impl \<Rightarrow> BackendCapabilities" where
  "backend_capabilities i im =
     (case map_of (im_backends im) i of None \<Rightarrow> default_capabilities | Some b \<Rightarrow> be_capabilities b)"

definition backend_summaries :: "Impl \<Rightarrow> BackendInfo list" where
  "backend_summaries im =
     map (\<lambda>(i, b). \<lparr>bi_id = i, bi_name = be_name b, bi_description = '''',
                    bi_provenance = be_provenance b, bi_capabilities = be_capabilities b,
                    bi_state = be_state b, bi_generation = be_generation b,
                    bi_prot_domain_count = of_nat (length (im_domains im)),
                    bi_registration_count = of_nat (length (im_registrations im))\<rparr>)
         (im_backends im)"

section \<open>Accounting of registrations\<close>

definition account_registration_commit :: "RegistrationRecord \<Rightarrow> Accounting \<Rightarrow> Accounting" where
  "account_registration_commit r a =
     a\<lparr>a_active_registrations := increment 1 (a_active_registrations a),
       a_registered_bytes := increment (r_length r) (a_registered_bytes a),
       a_pinned_bytes := (if r_domain r = MD_HOST_PINNED
                          then increment (r_length r) (a_pinned_bytes a) else a_pinned_bytes a),
       a_local_keys := increment 1 (a_local_keys a),
       a_remote_keys := increment 1 (a_remote_keys a)\<rparr>"

definition account_registration_invalidate :: "RegistrationRecord \<Rightarrow> Accounting \<Rightarrow> Accounting" where
  "account_registration_invalidate r a =
     a\<lparr>a_active_registrations := decr 1 (a_active_registrations a),
       a_registered_bytes := decr (r_length r) (a_registered_bytes a),
       a_pinned_bytes := (if r_domain r = MD_HOST_PINNED
                          then decr (r_length r) (a_pinned_bytes a) else a_pinned_bytes a),
       a_local_keys := decr 1 (a_local_keys a),
       a_remote_keys := decr 1 (a_remote_keys a)\<rparr>"

section \<open>Protection domains\<close>

definition create_protection_domain ::
    "NodeId \<Rightarrow> ProcessId \<Rightarrow> Impl \<Rightarrow> ProtectionDomainId \<times> Impl" where
  "create_protection_domain node process im =
     (let i = StrongId (im_next_domain im);
          e = \<lparr>de_domain = MD_UNKNOWN, de_state = DS_ACTIVE, de_generation = StrongGeneration 1,
               de_node = node, de_process = process\<rparr>
      in (i, im\<lparr>im_next_domain := im_next_domain im + 1,
                im_domains := AList.update i e (im_domains im),
                im_acct := (im_acct im)
                  \<lparr>a_protection_domains := increment 1 (a_protection_domains (im_acct im))\<rparr>\<rparr>))"

definition domain_destroyed_reg :: "RegistrationRecord \<Rightarrow> RegistrationRecord" where
  "domain_destroyed_reg r =
     r\<lparr>r_lifecycle := RL_REVOKED, r_freshness := FR_STALE,
       r_invalidation_reason := msg ''protection domain destroyed''\<rparr>"

definition destroy_protection_domain :: "ProtectionDomainId \<Rightarrow> Impl \<Rightarrow> bool \<times> Impl" where
  "destroy_protection_domain d im =
     (case map_of (im_domains im) d of None \<Rightarrow> (False, im)
      | Some e \<Rightarrow>
          (let (regs, a) = um_for (\<lambda>r. r_domain_id r = d \<and> is_live (r_lifecycle r))
                 domain_destroyed_reg account_registration_invalidate
                 (im_registrations im) (im_acct im)
           in (True, im\<lparr>im_registrations := regs,
                im_domains := AList.update d
                  (e\<lparr>de_state := DS_DESTROYED, de_generation := gen_next (de_generation e)\<rparr>)
                  (im_domains im),
                im_acct := a\<lparr>a_protection_domains := decr 1 (a_protection_domains a)\<rparr>\<rparr>)))"

section \<open>Buffers\<close>

definition reallocated_reg :: "RegistrationRecord \<Rightarrow> RegistrationRecord" where
  "reallocated_reg r =
     r\<lparr>r_lifecycle := RL_STALE, r_freshness := FR_STALE,
       r_invalidation_reason := msg ''memory reallocated under new generation''\<rparr>"

definition create_buffer :: "BufferDescriptor \<Rightarrow> Impl \<Rightarrow> BufferId \<times> Impl" where
  "create_buffer d im0 =
     (let (i, im) = (if id_valid (bd_id d) then (bd_id d, im0)
                     else (StrongId (im_next_buffer im0),
                           im0\<lparr>im_next_buffer := im_next_buffer im0 + 1\<rparr>))
      in case map_of (im_buffers im) i of
           Some e \<Rightarrow>
             (let cur = gen_value (bd_generation (bu_descriptor e));
                  want = gen_value (bd_generation d)
              in if want = cur then (no_id, im)
                 else if want < cur then (no_id, im)
                 else
                   (let (regs, a) = um_for
                          (\<lambda>r. r_buffer_id r = i \<and>
                               (is_live (r_lifecycle r) \<or> r_lifecycle r = RL_REGISTERING))
                          reallocated_reg account_registration_invalidate
                          (im_registrations im) (im_acct im);
                        old = bd_byte_length (bu_descriptor e);
                        a' = (if bd_byte_length d \<ge> old
                              then a\<lparr>a_live_buffer_bytes :=
                                       increment (bd_byte_length d - old) (a_live_buffer_bytes a)\<rparr>
                              else a\<lparr>a_live_buffer_bytes :=
                                       decr (old - bd_byte_length d) (a_live_buffer_bytes a)\<rparr>)
                    in (i, im\<lparr>im_registrations := regs,
                         im_buffers := AList.update i
                           (e\<lparr>bu_descriptor := d, bu_registered := False\<rparr>) (im_buffers im),
                         im_acct := a'\<rparr>)))
         | None \<Rightarrow>
             (i, im\<lparr>im_buffers := AList.update i
                      \<lparr>bu_descriptor = d, bu_registered = False\<rparr> (im_buffers im),
                    im_acct := (im_acct im)
                      \<lparr>a_logical_buffers := increment 1 (a_logical_buffers (im_acct im)),
                       a_live_buffer_bytes :=
                         increment (bd_byte_length d) (a_live_buffer_bytes (im_acct im))\<rparr>\<rparr>))"

definition has_buffer :: "BufferId \<Rightarrow> Impl \<Rightarrow> bool" where
  "has_buffer i im \<longleftrightarrow> map_of (im_buffers im) i \<noteq> None"

definition get_buffer :: "BufferId \<Rightarrow> Impl \<Rightarrow> BufferDescriptor option" where
  "get_buffer i im = map_option bu_descriptor (map_of (im_buffers im) i)"

section \<open>Registration\<close>

record RegisterResult =
  rr_ok :: bool
  rr_result :: RegistrationResult
  rr_registration :: RegistrationId
  rr_reuse :: ReuseDecision
  rr_explanation :: string
  rr_miss_reason :: string

definition default_register_result :: RegisterResult where
  "default_register_result =
     \<lparr>rr_ok = False, rr_result = RR_REJECTED, rr_registration = no_id,
      rr_reuse = RD_REUSE_MISS, rr_explanation = '''', rr_miss_reason = ''''\<rparr>"

definition rr_reject :: "string \<Rightarrow> string \<Rightarrow> RegisterResult" where
  "rr_reject explanation miss =
     default_register_result\<lparr>rr_explanation := explanation, rr_miss_reason := miss\<rparr>"

text \<open>The record the first critical section builds, for the backend \<open>b\<close>.\<close>

definition registering_record ::
    "BufferDescriptor \<Rightarrow> BackendId \<Rightarrow> IBackend \<Rightarrow> ProtectionDomainId \<Rightarrow> AuthorityEnvelope \<Rightarrow>
     AuthoritySnapshot \<Rightarrow> RegistrationId \<Rightarrow> RegistrationRecord" where
  "registering_record d bid b pd env auth i =
     \<lparr>r_id = i, r_buffer_id = bd_id d, r_buffer_generation = bd_generation d,
      r_registration_generation = StrongGeneration 1, r_descriptor = d, r_backend = bid,
      r_backend_generation = be_generation b, r_transport = no_id,
      r_transport_class = TC_UNKNOWN, r_nic = no_id, r_domain = bd_domain d,
      r_granted_access = 0, r_local_key = default_local_key, r_remote_key = default_remote_key,
      r_start = bp_address (bd_base d), r_length = bd_byte_length d,
      r_page_alignment = bd_alignment d, r_memory_region_id = no_id, r_backend_handle = '''',
      r_owner = ae_owner env, r_process = as_process auth, r_worker = as_worker auth,
      r_boot = ae_worker_boot env, r_epoch = as_coordinator_epoch auth, r_device = bd_device d,
      r_domain_id = pd, r_registration_timestamp_ns = 0, r_provenance = be_provenance b,
      r_freshness = FR_UNKNOWN, r_lifecycle = RL_REGISTERING, r_lease_count = 0, r_ref_count = 0,
      r_invalidation_reason = '''', r_policy_generation = as_policy_generation auth\<rparr>"

definition registering_context ::
    "BufferDescriptor \<Rightarrow> IBackend \<Rightarrow> ProtectionDomainId \<Rightarrow> AuthorityEnvelope \<Rightarrow>
     AuthoritySnapshot \<Rightarrow> RegistrationContext" where
  "registering_context d b pd env auth =
     \<lparr>cx_domain = pd, cx_node = as_node auth, cx_process = as_process auth,
      cx_worker = as_worker auth, cx_worker_boot = ae_worker_boot env,
      cx_epoch = as_coordinator_epoch auth, cx_owner = ae_owner env,
      cx_owner_generation = ae_owner_generation env,
      cx_registration_generation = StrongGeneration 1,
      cx_backend_generation = be_generation b, cx_requested_access = bd_requested_access d,
      cx_mode = bd_registration_mode d\<rparr>"

text \<open>The first critical section (lines 215 to 310): the guards, then the record.\<close>

definition register_prepare ::
    "BufferDescriptor \<Rightarrow> BackendId \<Rightarrow> ProtectionDomainId \<Rightarrow> AuthorityEnvelope \<Rightarrow> Impl \<Rightarrow>
     (RegisterResult + RegistrationRecord \<times> RegistrationContext) \<times> Impl" where
  "register_prepare d bid pd env im =
     (let ad = validate_authority (im_authority im) env
      in if ad_outcome ad \<noteq> AO_ALLOW then (Inl (rr_reject (ad_explanation ad) (ad_code ad)), im)
      else case map_of (im_backends im) bid of
        None \<Rightarrow> (Inl (rr_reject (msg ''unknown backend'') ''UNKNOWN_BACKEND''), im)
      | Some b \<Rightarrow>
        if (case map_of (im_domains im) pd of None \<Rightarrow> True | Some e \<Rightarrow> de_state e \<noteq> DS_ACTIVE)
        then (Inl (rr_reject (msg ''protection domain missing or not active'') ''DOMAIN_INVALID''), im)
        else if \<not> bv_ok (validate_range d)
        then (Inl (rr_reject (msg ''invalid buffer range: '' @ bv_code (validate_range d))
                (bv_code (validate_range d))), im)
        else case map_of (im_buffers im) (bd_id d) of
          None \<Rightarrow> (Inl (rr_reject (msg ''buffer not created; call create_buffer first'')
                     ''BUFFER_NOT_FOUND''), im)
        | Some e \<Rightarrow>
          if bd_generation (bu_descriptor e) \<noteq> bd_generation d
          then (Inl (rr_reject (msg ''buffer generation mismatch'') ''GENERATION_MISMATCH''), im)
          else if map_of (im_active_reg im) (bd_id d) \<noteq> None
          then (Inl (rr_reject (msg ''buffer already has an active registration'')
                  ''REGISTRATION_IN_FLIGHT''), im)
          else if be_can_register d b \<noteq> ''''
          then (Inl (rr_reject (msg ''backend rejects registration: '' @ be_can_register d b)
                  (be_can_register d b)), im)
          else (Inr (registering_record d bid b pd env (im_authority im)
                       (StrongId (im_next_registration im)),
                     registering_context d b pd env (im_authority im)),
                im\<lparr>im_next_registration := im_next_registration im + 1\<rparr>))"

text \<open>The backend call, outside the lock (lines 313 to 330).\<close>

definition register_backend ::
    "BufferDescriptor \<Rightarrow> BackendId \<Rightarrow> RegistrationContext \<Rightarrow> Impl \<Rightarrow>
     (RegisterResult + BackendRegistration) \<times> Impl" where
  "register_backend d bid cx im =
     (case map_of (im_backends im) bid of
        None \<Rightarrow> (Inl (rr_reject (msg ''backend vanished during registration'') ''UNKNOWN_BACKEND''), im)
      | Some b \<Rightarrow>
          (case be_register d cx b of
             ((bo, out), b') \<Rightarrow>
               (let im' = im\<lparr>im_backends := AList.update bid b' (im_backends im)\<rparr>
                in case (ro_ok bo, out) of
                     (True, Some bout) \<Rightarrow> (Inr bout, im')
                   | _ \<Rightarrow> (Inl ((rr_reject (msg ''backend registration failed: '' @ ro_message bo)
                                  (ro_code bo))\<lparr>rr_result := RR_PARTIAL_FAILURE\<rparr>), im'))))"

definition committed_record ::
    "RegistrationRecord \<Rightarrow> BackendId \<Rightarrow> BackendRegistration \<Rightarrow> AuthoritySnapshot \<Rightarrow> RegistrationRecord" where
  "committed_record r bid bout auth =
     r\<lparr>r_memory_region_id := br_memory_region_id bout,
       r_backend_handle := br_handle bout,
       r_start := br_registered_base bout,
       r_length := br_registered_length bout,
       r_granted_access := br_granted_access bout,
       r_local_key :=
         \<lparr>lk_id = bk_local_key_id (br_keys bout), lk_registration = r_id r,
          lk_registration_generation = r_registration_generation r,
          lk_boot = as_worker_boot auth, lk_backend = bid, lk_transport = TC_TCP_REFERENCE,
          lk_access = br_granted_access bout, lk_opaque_value = bk_opaque_value (br_keys bout),
          lk_provenance = PV_SYNTHETIC\<rparr>,
       r_remote_key :=
         \<lparr>rk_id = bk_remote_key_id (br_keys bout), rk_registration = r_id r,
          rk_registration_generation = r_registration_generation r,
          rk_key_generation = bk_remote_key_generation (br_keys bout),
          rk_buffer_generation = r_buffer_generation r,
          rk_boot = as_worker_boot auth, rk_process = as_process auth, rk_backend = bid,
          rk_transport = TC_TCP_REFERENCE, rk_access = br_granted_access bout,
          rk_start = br_registered_base bout, rk_length = br_registered_length bout,
          rk_opaque_value = bk_opaque_value (br_keys bout), rk_revoked = False,
          rk_provenance = PV_SYNTHETIC\<rparr>,
       r_provenance := br_provenance bout,
       r_freshness := FR_VALID,
       r_lifecycle := RL_ACTIVE\<rparr>"

text \<open>The last critical section (lines 331 to 359).\<close>

definition register_commit ::
    "RegistrationRecord \<Rightarrow> BackendId \<Rightarrow> BackendRegistration \<Rightarrow> Impl \<Rightarrow> RegisterResult \<times> Impl" where
  "register_commit r0 bid bout im =
     (let r = committed_record r0 bid bout (im_authority im)
      in (default_register_result
            \<lparr>rr_ok := True, rr_result := RR_REGISTERED, rr_registration := r_id r,
             rr_reuse := RD_REUSE_MISS, rr_explanation := explain_registration r,
             rr_miss_reason := ''''\<rparr>,
          im\<lparr>im_registrations := AList.update (r_id r) r (im_registrations im),
             im_active_reg := AList.update (r_buffer_id r) (r_id r) (im_active_reg im),
             im_acct := account_registration_commit r (im_acct im)\<rparr>))"

definition register_buffer ::
    "BufferDescriptor \<Rightarrow> BackendId \<Rightarrow> ProtectionDomainId \<Rightarrow> AuthorityEnvelope \<Rightarrow> Impl \<Rightarrow>
     RegisterResult \<times> Impl" where
  "register_buffer d bid pd env im =
     (case register_prepare d bid pd env im of
        (Inl rr, im1) \<Rightarrow> (rr, im1)
      | (Inr (r, cx), im1) \<Rightarrow>
          (case register_backend d bid cx im1 of
             (Inl rr, im2) \<Rightarrow> (rr, im2)
           | (Inr bout, im2) \<Rightarrow> register_commit r bid bout im2))"

section \<open>Reuse\<close>

definition reuse_miss_reason ::
    "BufferDescriptor \<Rightarrow> RegistrationRecord \<Rightarrow> BackendId \<Rightarrow> ProtectionDomainId \<Rightarrow>
     AuthorityEnvelope \<Rightarrow> string" where
  "reuse_miss_reason d cand bid pd env =
     (if r_buffer_id cand \<noteq> bd_id d then ''BufferId mismatch''
      else if r_buffer_generation cand \<noteq> bd_generation d
      then ''BufferGeneration changed from '' @ int_to_str (gen_value (r_buffer_generation cand)) @
           msg '' to '' @ int_to_str (gen_value (bd_generation d)) @ msg '' after memory reallocation''
      else if r_domain cand \<noteq> bd_domain d then ''MemoryDomain mismatch''
      else if r_backend cand \<noteq> bid then ''Backend mismatch''
      else if r_domain_id cand \<noteq> pd then ''ProtectionDomain mismatch''
      else if \<not> access_superset (r_granted_access cand) (bd_requested_access d)
      then ''Requested access rights not a subset of granted access''
      else if r_lifecycle cand \<noteq> RL_ACTIVE \<and> r_lifecycle cand \<noteq> RL_REGISTERED
      then ''Candidate registration not active''
      else if r_boot cand \<noteq> ae_worker_boot env then ''WorkerBootId mismatch''
      else if r_freshness cand \<noteq> FR_VALID then ''Candidate freshness not valid''
      else if \<not> rk_revoked (r_remote_key cand) \<and> \<not> id_valid (rk_id (r_remote_key cand))
      then ''Candidate remote key absent''
      else '''')"

definition register_buffer_reuse ::
    "BufferDescriptor \<Rightarrow> BackendId \<Rightarrow> ProtectionDomainId \<Rightarrow> AuthorityEnvelope \<Rightarrow> Impl \<Rightarrow>
     RegisterResult \<times> Impl" where
  "register_buffer_reuse d bid pd env im =
     (let ad = validate_authority (im_authority im) env
      in if ad_outcome ad \<noteq> AO_ALLOW then (rr_reject (ad_explanation ad) (ad_code ad), im)
      else case map_of (im_active_reg im) (bd_id d) of
        None \<Rightarrow> (rr_reject (msg ''no registration available for reuse'') ''NO_CANDIDATE'', im)
      | Some i \<Rightarrow>
        (case map_of (im_registrations im) i of
           None \<Rightarrow> (rr_reject (msg ''candidate registration missing'') ''NO_CANDIDATE'', im)
         | Some cand \<Rightarrow>
           (let miss = reuse_miss_reason d cand bid pd env
            in if miss \<noteq> ''''
               then (rr_reject (explain_reuse d cand False miss) miss,
                     on_acct (\<lambda>a. a\<lparr>a_registration_misses := increment 1 (a_registration_misses a)\<rparr>) im)
               else (default_register_result
                       \<lparr>rr_ok := True, rr_result := RR_REUSED, rr_reuse := RD_REUSE_HIT,
                        rr_registration := r_id cand,
                        rr_explanation := explain_reuse d cand True ''''\<rparr>,
                     on_acct (\<lambda>a. a\<lparr>a_registration_reuse_hits :=
                                      increment 1 (a_registration_reuse_hits a)\<rparr>) im))))"

section \<open>Leases\<close>

record LeaseAcquireResult =
  la_ok :: bool
  la_lease :: Lease
  la_explanation :: string

definition la_reject :: "string \<Rightarrow> LeaseAcquireResult" where
  "la_reject explanation =
     \<lparr>la_ok = False, la_lease = default_lease, la_explanation = explanation\<rparr>"

definition new_lease ::
    "RegistrationLeaseId \<Rightarrow> RegistrationId \<Rightarrow> RegistrationRecord \<Rightarrow> AuthorityEnvelope \<Rightarrow>
     AccessMask \<Rightarrow> Lease" where
  "new_lease lid i r env needed =
     default_lease
       \<lparr>l_id := lid, l_registration := i,
        l_registration_generation := r_registration_generation r,
        l_lease_generation := StrongGeneration (r_lease_count r + 1),
        l_buffer_generation := r_buffer_generation r, l_boot := ae_worker_boot env,
        l_owner := ae_owner env, l_domain := r_domain_id r, l_access := needed,
        l_state := LS_ACTIVE, l_provenance := r_provenance r\<rparr>"

definition acquire_lease ::
    "RegistrationId \<Rightarrow> AuthorityEnvelope \<Rightarrow> AccessMask \<Rightarrow> Impl \<Rightarrow> LeaseAcquireResult \<times> Impl" where
  "acquire_lease i env needed im =
     (let ad = validate_authority (im_authority im) env
      in if ad_outcome ad \<noteq> AO_ALLOW then (la_reject (ad_explanation ad), im)
      else case map_of (im_registrations im) i of
        None \<Rightarrow> (la_reject (msg ''registration not found''), im)
      | Some r \<Rightarrow>
        if r_lifecycle r \<noteq> RL_ACTIVE \<and> r_lifecycle r \<noteq> RL_REGISTERED
        then (la_reject (msg ''registration lifecycle does not permit leasing: '' @
                lifecycle_name (r_lifecycle r)), im)
        else if \<not> access_superset (r_granted_access r) needed
        then (la_reject (msg ''registration does not grant requested access rights''), im)
        else if r_freshness r \<noteq> FR_VALID
        then (la_reject (msg ''registration freshness is not VALID''), im)
        else
          (let lid = StrongId (im_next_lease im);
               ls = new_lease lid i r env needed
           in (\<lparr>la_ok = True, la_lease = ls,
                la_explanation = msg ''lease acquired on registration '' @ int_to_str (id_value i)\<rparr>,
               im\<lparr>im_next_lease := im_next_lease im + 1,
                  im_leases := AList.update lid ls (im_leases im),
                  im_registrations :=
                    AList.update i (r\<lparr>r_lease_count := r_lease_count r + 1\<rparr>) (im_registrations im),
                  im_acct := (im_acct im)
                    \<lparr>a_active_leases := increment 1 (a_active_leases (im_acct im))\<rparr>\<rparr>)))"

definition drop_lease_count :: "RegistrationRecord \<Rightarrow> RegistrationRecord" where
  "drop_lease_count r =
     (if r_lease_count r > 0 then r\<lparr>r_lease_count := r_lease_count r - 1\<rparr> else r)"

definition release_lease :: "RegistrationLeaseId \<Rightarrow> Impl \<Rightarrow> bool \<times> Impl" where
  "release_lease lid im =
     (case map_of (im_leases im) lid of None \<Rightarrow> (False, im)
      | Some ls \<Rightarrow>
          if l_state ls = LS_RELEASED then (False, im)
          else (True, im\<lparr>im_leases := AList.update lid (ls\<lparr>l_state := LS_RELEASED\<rparr>) (im_leases im),
                 im_registrations :=
                   (case map_of (im_registrations im) (l_registration ls) of
                      None \<Rightarrow> im_registrations im
                    | Some r \<Rightarrow> AList.update (l_registration ls) (drop_lease_count r)
                                  (im_registrations im)),
                 im_acct := (im_acct im)
                   \<lparr>a_active_leases := decr 1 (a_active_leases (im_acct im))\<rparr>\<rparr>))"

section \<open>Access\<close>

definition is_stale_outcome :: "AccessOutcome \<Rightarrow> bool" where
  "is_stale_outcome oc \<longleftrightarrow>
     oc = AO_REJECT_STALE_EPOCH \<or> oc = AO_REJECT_STALE_BOOT \<or> oc = AO_REJECT_STALE_BUFFER \<or>
     oc = AO_REJECT_STALE_REGISTRATION \<or> oc = AO_REJECT_STALE_KEY"

text \<open>The lambda \<open>decision\<close>: it counts a refusal, and counts it again when it is a stale one.\<close>

definition count_refusal :: "AccessOutcome \<Rightarrow> Accounting \<Rightarrow> Accounting" where
  "count_refusal oc a =
     (if oc = AO_ALLOW then a
      else a\<lparr>a_failed_access_attempts := increment 1 (a_failed_access_attempts a),
             a_stale_access_rejections :=
               (if is_stale_outcome oc then increment 1 (a_stale_access_rejections a)
                else a_stale_access_rejections a)\<rparr>)"

definition decide :: "AccessOutcome \<Rightarrow> string \<Rightarrow> Impl \<Rightarrow> AccessDecision \<times> Impl" where
  "decide oc e im = (make_decision oc e, on_acct (count_refusal oc) im)"

definition count_completed :: "OperationKind \<Rightarrow> u64 \<Rightarrow> Accounting \<Rightarrow> Accounting" where
  "count_completed k len a =
     (if k = OP_WRITE then a\<lparr>a_remote_write_bytes := increment len (a_remote_write_bytes a)\<rparr>
      else if k = OP_READ then a\<lparr>a_remote_read_bytes := increment len (a_remote_read_bytes a)\<rparr>
      else a\<lparr>a_atomic_operations := increment 1 (a_atomic_operations a)\<rparr>)"

definition back_dummy_remote_key :: "RegistrationRecord \<Rightarrow> BackendKey" where
  "back_dummy_remote_key r =
     \<lparr>bk_remote_key_id = rk_id (r_remote_key r), bk_local_key_id = lk_id (r_local_key r),
      bk_remote_key_generation = rk_key_generation (r_remote_key r),
      bk_opaque_value = rk_opaque_value (r_remote_key r),
      bk_granted_access = rk_access (r_remote_key r), bk_provenance = r_provenance r\<rparr>"

definition right_text :: "OperationKind \<Rightarrow> string" where
  "right_text k =
     (if k = OP_WRITE then ''REMOTE_WRITE'' else if k = OP_READ then ''REMOTE_READ''
      else ''REMOTE_ATOMIC'')"

text \<open>The handle under which the registry addresses a registration in its backend.\<close>

definition reg_handle :: "RegistrationRecord \<Rightarrow> RegisterHandle" where
  "reg_handle r = \<lparr>rh_memory_region_id = r_memory_region_id r, rh_handle = r_backend_handle r\<rparr>"

definition validate_remote_access :: "RemoteAccessRequest \<Rightarrow> Impl \<Rightarrow> AccessDecision \<times> Impl" where
  "validate_remote_access q im =
     (case map_of (im_registrations im) (q_source_registration q) of
        None \<Rightarrow> decide AO_REJECT_NOT_REGISTERED (msg ''registration not found'') im
      | Some r \<Rightarrow>
        if r_lifecycle r = RL_REVOKED \<or> r_lifecycle r = RL_DEREGISTERED \<or> r_lifecycle r = RL_STALE
        then decide AO_REJECT_REVOKED (msg ''registration lifecycle '' @
               lifecycle_name (r_lifecycle r) @ msg '' does not permit remote access'') im
        else if r_lifecycle r = RL_REVOKING
        then decide AO_REJECT_REVOKED (msg ''registration is being revoked'') im
        else if r_freshness r \<noteq> FR_VALID
        then decide AO_REJECT_STALE_REGISTRATION
               (msg ''registration freshness is '' @ freshness_name (r_freshness r)) im
        else if ad_outcome (validate_authority (im_authority im) (q_authority q)) \<noteq> AO_ALLOW
        then (validate_authority (im_authority im) (q_authority q), im)
        else if gen_valid (q_expected_registration_generation q) \<and>
                q_expected_registration_generation q \<noteq> r_registration_generation r
        then decide AO_REJECT_STALE_REGISTRATION
               (msg ''registration generation '' @
                int_to_str (gen_value (q_expected_registration_generation q)) @
                msg '' is stale; current '' @
                int_to_str (gen_value (r_registration_generation r))) im
        else if gen_valid (q_expected_buffer_generation q) \<and>
                q_expected_buffer_generation q \<noteq> r_buffer_generation r
        then decide AO_REJECT_STALE_BUFFER
               (msg ''buffer generation '' @
                int_to_str (gen_value (q_expected_buffer_generation q)) @
                msg '' is stale; current '' @ int_to_str (gen_value (r_buffer_generation r))) im
        else if gen_valid (q_expected_remote_key_generation q) \<and>
                q_expected_remote_key_generation q \<noteq> rk_key_generation (r_remote_key r)
        then decide AO_REJECT_STALE_KEY
               (msg ''RemoteKeyGeneration '' @
                int_to_str (gen_value (q_expected_remote_key_generation q)) @
                msg '' is stale; current '' @
                int_to_str (gen_value (rk_key_generation (r_remote_key r)))) im
        else if rk_revoked (r_remote_key r)
        then decide AO_REJECT_STALE_KEY (msg ''remote key has been revoked'') im
        else if id_valid (q_backend q) \<and> q_backend q \<noteq> r_backend r
        then decide AO_REJECT_BACKEND (msg ''backend mismatch'') im
        else case map_of (im_backends im) (r_backend r) of
          None \<Rightarrow> decide AO_REJECT_BACKEND (msg ''backend generation changed'') im
        | Some b \<Rightarrow>
          if be_generation b \<noteq> r_backend_generation r
          then decide AO_REJECT_BACKEND (msg ''backend generation changed'') im
          else if id_valid (q_transport q) \<and> q_transport q \<noteq> r_transport r
          then decide AO_REJECT_TRANSPORT (msg ''transport mismatch'') im
          else if id_valid (q_domain q) \<and> q_domain q \<noteq> r_domain_id r
          then decide AO_REJECT_DOMAIN (msg ''protection domain mismatch'') im
          else if \<not> access_superset (r_granted_access r) (q_required_rights q)
          then decide AO_REJECT_PERMISSION
                 (msg ''required rights 0x'' @ int_to_str (ucast (q_required_rights q)) @
                  msg '' not granted (granted 0x'' @ int_to_str (ucast (r_granted_access r)) @
                  msg '')'') im
          else if \<not> access_has (r_granted_access r) (intrinsic_right (q_kind q))
          then decide AO_REJECT_PERMISSION
                 (operation_kind_name (q_kind q) @ msg '' requires '' @ right_text (q_kind q) @
                  msg '' which is not granted'') im
          else if q_kind q = OP_ATOMIC_COMPARE_SWAP \<and>
                  access_has (q_required_rights q) AR_REMOTE_ATOMIC \<and>
                  \<not> capability_allows (bc_remote_atomic (be_capabilities b))
          then decide AO_REJECT_UNKNOWN_CAPABILITY
                 (msg ''backend does not explicitly support REMOTE_ATOMIC'') im
          else if \<not> range_inside (r_descriptor r) (q_offset q) (q_length q)
          then decide AO_REJECT_RANGE
                 (msg ''requested range ['' @ int_to_str (q_offset q) @ msg '', '' @
                  int_to_str (q_length q) @ msg ''] outside registered range'') im
          else (case be_query (reg_handle r) (back_dummy_remote_key r) (q_kind q)
                       (q_offset q) (q_length q) b of
                  (bo, ex) \<Rightarrow>
                    if bo \<noteq> AO_ALLOW then decide bo ex im
                    else decide AO_ALLOW
                           (msg ''remote '' @ operation_kind_name (q_kind q) @ msg '' allowed'')
                           (on_acct (count_completed (q_kind q) (q_length q)) im)))"

section \<open>Revocation and rotation\<close>

record RevokeResult =
  rv_ok :: bool
  rv_lifecycle :: RegistrationLifecycle
  rv_keys_invalidated :: bool
  rv_explanation :: string

definition rv_reject :: "string \<Rightarrow> RevokeResult" where
  "rv_reject explanation =
     \<lparr>rv_ok = False, rv_lifecycle = RL_UNREGISTERED, rv_keys_invalidated = False,
      rv_explanation = explanation\<rparr>"

definition hard_revoked_reg :: "RegistrationRecord \<Rightarrow> RegistrationRecord" where
  "hard_revoked_reg r =
     r\<lparr>r_invalidation_reason := ''hard revoke'',
       r_remote_key := (r_remote_key r)
         \<lparr>rk_key_generation := gen_next (rk_key_generation (r_remote_key r)), rk_revoked := True\<rparr>,
       r_freshness := FR_STALE,
       r_lifecycle := RL_REVOKED\<rparr>"

definition soft_revoked_reg :: "RegistrationRecord \<Rightarrow> RegistrationRecord" where
  "soft_revoked_reg r =
     r\<lparr>r_invalidation_reason := ''soft revoke'', r_freshness := FR_STALE,
       r_lifecycle := (if r_lease_count r = 0 then RL_REVOKED else RL_REVOKING)\<rparr>"

definition count_revocation :: "Accounting \<Rightarrow> Accounting" where
  "count_revocation a = a\<lparr>a_revocations := increment 1 (a_revocations a)\<rparr>"

definition revoke :: "RegistrationId \<Rightarrow> RevocationMode \<Rightarrow> Impl \<Rightarrow> RevokeResult \<times> Impl" where
  "revoke i mode im =
     (case map_of (im_registrations im) i of
        None \<Rightarrow> (rv_reject (msg ''registration not found''), im)
      | Some r0 \<Rightarrow>
        if r_lifecycle r0 \<noteq> RL_ACTIVE \<and> r_lifecycle r0 \<noteq> RL_REGISTERED
        then (rv_reject (msg ''registration not in revocable state''), im)
        else if mode = RV_HARD_REVOKE then
          (let r = hard_revoked_reg r0;
               (ls, a) = um_for (\<lambda>l. l_registration l = i \<and> l_state l = LS_ACTIVE)
                 (\<lambda>l. l\<lparr>l_state := LS_REVOKED\<rparr>)
                 (\<lambda>l a. a\<lparr>a_active_leases := decr 1 (a_active_leases a)\<rparr>)
                 (im_leases im) (im_acct im)
           in (\<lparr>rv_ok = True, rv_lifecycle = r_lifecycle r, rv_keys_invalidated = True,
                rv_explanation = explain_revocation r mode True\<rparr>,
               im\<lparr>im_registrations := AList.update i r (im_registrations im),
                  im_leases := ls,
                  im_active_reg := AList.delete (r_buffer_id r) (im_active_reg im),
                  im_acct := count_revocation a\<rparr>))
        else
          (let r = soft_revoked_reg r0
           in (\<lparr>rv_ok = True, rv_lifecycle = r_lifecycle r, rv_keys_invalidated = False,
                rv_explanation = explain_revocation r mode False\<rparr>,
               im\<lparr>im_registrations := AList.update i r (im_registrations im),
                  im_acct := (if r_lease_count r0 = 0 then count_revocation (im_acct im)
                              else im_acct im)\<rparr>)))"

definition rotated_reg :: "RegistrationRecord \<Rightarrow> RegistrationRecord" where
  "rotated_reg r =
     r\<lparr>r_remote_key := (r_remote_key r)
         \<lparr>rk_key_generation := gen_next (rk_key_generation (r_remote_key r)), rk_revoked := False,
          rk_opaque_value := rk_opaque_value (r_remote_key r) XOR 0x0101010101010101\<rparr>\<rparr>"

definition rotate_key :: "RegistrationId \<Rightarrow> Impl \<Rightarrow> (bool \<times> string) \<times> Impl" where
  "rotate_key i im =
     (case map_of (im_registrations im) i of
        None \<Rightarrow> ((False, msg ''registration not found''), im)
      | Some r0 \<Rightarrow>
        if r_lifecycle r0 \<noteq> RL_ACTIVE \<and> r_lifecycle r0 \<noteq> RL_REGISTERED
        then ((False, msg ''registration not active''), im)
        else
          (let r = rotated_reg r0;
               g = rk_key_generation (r_remote_key r);
               bs = (case map_of (im_backends im) (r_backend r) of
                       None \<Rightarrow> im_backends im
                     | Some b \<Rightarrow>
                         if r_backend_handle r = '''' then im_backends im
                         else AList.update (r_backend r) (snd (be_rotate (reg_handle r) g b))
                                (im_backends im))
           in ((True, msg ''remote key rotated to generation '' @ int_to_str (gen_value g)),
               im\<lparr>im_registrations := AList.update i r (im_registrations im),
                  im_backends := bs\<rparr>)))"

section \<open>Deregistration\<close>

definition deregisterable :: "RegistrationLifecycle \<Rightarrow> bool" where
  "deregisterable l \<longleftrightarrow>
     l = RL_ACTIVE \<or> l = RL_REGISTERED \<or> l = RL_REVOKED \<or> l = RL_STALE \<or>
     l = RL_REVALIDATION_REQUIRED"

text \<open>The first critical section (lines 732 to 756): the handle and backend to release.\<close>

definition deregister_prepare ::
    "RegistrationId \<Rightarrow> Impl \<Rightarrow> (string + RegisterHandle \<times> BackendId) \<times> Impl" where
  "deregister_prepare i im =
     (case map_of (im_registrations im) i of
        None \<Rightarrow> (Inl (msg ''registration not found''), im)
      | Some r \<Rightarrow>
        if r_lease_count r > 0
        then (Inl (msg ''registration has active leases; revoke first or force-revoke''), im)
        else if \<not> deregisterable (r_lifecycle r)
        then (Inl (msg ''registration not in deregisterable state''), im)
        else (Inr (reg_handle r, r_backend r),
              put_reg i (r\<lparr>r_lifecycle := RL_DEREGISTERING\<rparr>) im))"

text \<open>The backend call, outside the lock (lines 758 to 770); \<open>Some\<close> is its failure.\<close>

definition deregister_backend ::
    "RegistrationId \<Rightarrow> RegisterHandle \<Rightarrow> BackendId \<Rightarrow> Impl \<Rightarrow> string option \<times> Impl" where
  "deregister_backend i h bid im =
     (if \<not> id_valid bid then (None, im)
      else case map_of (im_backends im) bid of None \<Rightarrow> (None, im)
      | Some b \<Rightarrow>
          (case be_deregister h b of
             (bo, b') \<Rightarrow>
               (let im' = im\<lparr>im_backends := AList.update bid b' (im_backends im)\<rparr>
                in if ro_ok bo then (None, im')
                   else (Some (msg ''backend deregister failed: '' @ ro_message bo),
                         (case map_of (im_registrations im') i of None \<Rightarrow> im'
                          | Some r \<Rightarrow> put_reg i (r\<lparr>r_lifecycle := RL_FAILED\<rparr>) im')))))"

text \<open>The last critical section (lines 771 to 794).\<close>

definition deregister_finish :: "RegistrationId \<Rightarrow> Impl \<Rightarrow> (bool \<times> string) \<times> Impl" where
  "deregister_finish i im =
     (case map_of (im_registrations im) i of
        None \<Rightarrow> ((False, msg ''registration vanished during deregister''), im)
      | Some r \<Rightarrow>
          (let a = account_registration_invalidate r (im_acct im)
           in ((True, msg ''registration deregistered''),
               im\<lparr>im_registrations := AList.delete i (im_registrations im),
                  im_active_reg := um_erase_if (\<lambda>v. v = i) (im_active_reg im),
                  im_leases := um_erase_if (\<lambda>l. l_registration l = i) (im_leases im),
                  im_acct := a\<lparr>a_deregistrations := increment 1 (a_deregistrations a)\<rparr>\<rparr>)))"

definition deregister :: "RegistrationId \<Rightarrow> Impl \<Rightarrow> (bool \<times> string) \<times> Impl" where
  "deregister i im =
     (case deregister_prepare i im of
        (Inl ex, im1) \<Rightarrow> ((False, ex), im1)
      | (Inr (h, bid), im1) \<Rightarrow>
          (case deregister_backend i h bid im1 of
             (Some ex, im2) \<Rightarrow> ((False, ex), im2)
           | (None, im2) \<Rightarrow> deregister_finish i im2))"

section \<open>Queries\<close>

definition get_registration :: "RegistrationId \<Rightarrow> Impl \<Rightarrow> RegistrationRecord option" where
  "get_registration i im = map_of (im_registrations im) i"

definition registrations :: "Impl \<Rightarrow> RegistrationId list" where
  "registrations im = sort (map fst (im_registrations im))"

definition accounting_clean :: "Impl \<Rightarrow> bool" where
  "accounting_clean im \<longleftrightarrow> \<not> accounting_open (im_acct im)"

end
