(* ===== verification/Registration.thy ===== *)
theory Registration
  imports Registry
begin

text \<open>
  What \<open>register_buffer\<close> does: the condition under which it succeeds, the one state it then
  leaves, and that every refusal leaves the registry as it was. The worked scenario at the end
  (one synthetic backend, one protection domain, one page registered) is the concrete state
  the witnesses of the development run on.
\<close>

section \<open>When a registration succeeds\<close>

definition domain_active :: "ProtectionDomainId \<Rightarrow> Impl \<Rightarrow> bool" where
  "domain_active pd im \<longleftrightarrow>
     (\<exists>e. map_of (im_domains im) pd = Some e \<and> de_state e = DS_ACTIVE)"

definition buffer_current :: "BufferId \<Rightarrow> BufferGeneration \<Rightarrow> Impl \<Rightarrow> bool" where
  "buffer_current i g im \<longleftrightarrow>
     (\<exists>e. map_of (im_buffers im) i = Some e \<and> bd_generation (bu_descriptor e) = g)"

definition register_ready ::
    "BufferDescriptor \<Rightarrow> BackendId \<Rightarrow> ProtectionDomainId \<Rightarrow> AuthorityEnvelope \<Rightarrow> Impl \<Rightarrow>
     IBackend \<Rightarrow> bool" where
  "register_ready d bid pd env im b \<longleftrightarrow>
     authority_agrees (im_authority im) env \<and> map_of (im_backends im) bid = Some b \<and>
     domain_active pd im \<and> bv_ok (validate_range d) \<and>
     buffer_current (bd_id d) (bd_generation d) im \<and>
     map_of (im_active_reg im) (bd_id d) = None \<and> be_can_register d b = ''''"

text \<open>The record, the context and the state of a registration that went through.\<close>

definition ready_record ::
    "BufferDescriptor \<Rightarrow> BackendId \<Rightarrow> ProtectionDomainId \<Rightarrow> AuthorityEnvelope \<Rightarrow> Impl \<Rightarrow>
     IBackend \<Rightarrow> RegistrationRecord" where
  "ready_record d bid pd env im b =
     registering_record d bid b pd env (im_authority im) (StrongId (im_next_registration im))"

definition ready_context ::
    "BufferDescriptor \<Rightarrow> ProtectionDomainId \<Rightarrow> AuthorityEnvelope \<Rightarrow> Impl \<Rightarrow> IBackend \<Rightarrow>
     RegistrationContext" where
  "ready_context d pd env im b = registering_context d b pd env (im_authority im)"

definition registered_impl :: "BackendId \<Rightarrow> IBackend \<Rightarrow> RegistrationRecord \<Rightarrow> Impl \<Rightarrow> Impl" where
  "registered_impl bid b' r im =
     im\<lparr>im_next_registration := im_next_registration im + 1,
        im_backends := AList.update bid b' (im_backends im),
        im_registrations := AList.update (r_id r) r (im_registrations im),
        im_active_reg := AList.update (r_buffer_id r) (r_id r) (im_active_reg im),
        im_acct := account_registration_commit r (im_acct im)\<rparr>"

lemma committed_record_fields [simp]:
  "r_id (committed_record r bid bout auth) = r_id r"
  "r_buffer_id (committed_record r bid bout auth) = r_buffer_id r"
  "r_buffer_generation (committed_record r bid bout auth) = r_buffer_generation r"
  "r_registration_generation (committed_record r bid bout auth) = r_registration_generation r"
  "r_descriptor (committed_record r bid bout auth) = r_descriptor r"
  "r_backend (committed_record r bid bout auth) = r_backend r"
  "r_backend_generation (committed_record r bid bout auth) = r_backend_generation r"
  "r_transport (committed_record r bid bout auth) = r_transport r"
  "r_domain (committed_record r bid bout auth) = r_domain r"
  "r_domain_id (committed_record r bid bout auth) = r_domain_id r"
  "r_boot (committed_record r bid bout auth) = r_boot r"
  "r_lease_count (committed_record r bid bout auth) = r_lease_count r"
  "r_granted_access (committed_record r bid bout auth) = br_granted_access bout"
  "r_backend_handle (committed_record r bid bout auth) = br_handle bout"
  "r_memory_region_id (committed_record r bid bout auth) = br_memory_region_id bout"
  "r_length (committed_record r bid bout auth) = br_registered_length bout"
  "rk_key_generation (r_remote_key (committed_record r bid bout auth)) =
     bk_remote_key_generation (br_keys bout)"
  "rk_revoked (r_remote_key (committed_record r bid bout auth)) = False"
  "r_freshness (committed_record r bid bout auth) = FR_VALID"
  "r_lifecycle (committed_record r bid bout auth) = RL_ACTIVE"
  by (simp_all add: committed_record_def)

lemma ready_record_fields [simp]:
  "r_id (ready_record d bid pd env im b) = StrongId (im_next_registration im)"
  "r_buffer_id (ready_record d bid pd env im b) = bd_id d"
  "r_buffer_generation (ready_record d bid pd env im b) = bd_generation d"
  "r_registration_generation (ready_record d bid pd env im b) = StrongGeneration 1"
  "r_descriptor (ready_record d bid pd env im b) = d"
  "r_backend (ready_record d bid pd env im b) = bid"
  "r_backend_generation (ready_record d bid pd env im b) = be_generation b"
  "r_transport (ready_record d bid pd env im b) = no_id"
  "r_domain (ready_record d bid pd env im b) = bd_domain d"
  "r_domain_id (ready_record d bid pd env im b) = pd"
  "r_boot (ready_record d bid pd env im b) = ae_worker_boot env"
  "r_lease_count (ready_record d bid pd env im b) = 0"
  by (simp_all add: ready_record_def registering_record_def)

lemma rr_reject_not_ok [simp]: "\<not> rr_ok (rr_reject e m)" "\<not> rr_ok (rr_reject e m\<lparr>rr_result := x\<rparr>)"
  by (simp_all add: rr_reject_def default_register_result_def)

lemma register_prepare_refused:
  assumes "\<nexists>b. register_ready d bid pd env im b"
  shows "\<exists>rr. register_prepare d bid pd env im = (Inl rr, im) \<and> \<not> rr_ok rr"
  using assms
  by (auto simp: register_prepare_def register_ready_def domain_active_def buffer_current_def
      validate_authority_allow_iff Let_def split: option.splits)

lemma register_prepare_ready:
  assumes "register_ready d bid pd env im b"
  shows "register_prepare d bid pd env im =
    (Inr (ready_record d bid pd env im b, ready_context d pd env im b),
     im\<lparr>im_next_registration := im_next_registration im + 1\<rparr>)"
proof -
  from assms obtain e u where facts: "map_of (im_backends im) bid = Some b"
    "map_of (im_domains im) pd = Some e" "de_state e = DS_ACTIVE" "bv_ok (validate_range d)"
    "map_of (im_buffers im) (bd_id d) = Some u" "bd_generation (bu_descriptor u) = bd_generation d"
    "map_of (im_active_reg im) (bd_id d) = None" "be_can_register d b = ''''"
    "ad_outcome (validate_authority (im_authority im) env) = AO_ALLOW"
    by (auto simp: register_ready_def domain_active_def buffer_current_def
        validate_authority_allow_iff)
  then show ?thesis
    by (simp add: register_prepare_def ready_record_def ready_context_def)
qed

lemma register_prepare_cases:
  assumes "register_prepare d bid pd env im = (x, im1)"
  obtains (refused) rr where "x = Inl rr" "\<not> rr_ok rr" "im1 = im"
      "\<nexists>b. register_ready d bid pd env im b"
  | (ready) b where "register_ready d bid pd env im b"
      "x = Inr (ready_record d bid pd env im b, ready_context d pd env im b)"
      "im1 = im\<lparr>im_next_registration := im_next_registration im + 1\<rparr>"
proof (cases "\<exists>b. register_ready d bid pd env im b")
  case True
  then obtain b where b: "register_ready d bid pd env im b" ..
  show ?thesis
    using ready [OF b] assms register_prepare_ready [OF b] by simp
next
  case False
  with assms show ?thesis
    using refused register_prepare_refused [of d bid pd env im] by auto
qed

lemma register_backend_ok:
  assumes "map_of (im_backends im) bid = Some b" and "be_register d cx b = ((bo, Some bout), b')"
    and "ro_ok bo"
  shows "register_backend d bid cx im =
    (Inr bout, im\<lparr>im_backends := AList.update bid b' (im_backends im)\<rparr>)"
  using assms by (simp add: register_backend_def)

text \<open>A registry that is ready registers: the backend that agreed to register does so.\<close>

lemma register_buffer_ready:
  assumes ready: "register_ready d bid pd env im b"
  obtains bo bout b' r where
    "be_register d (ready_context d pd env im b) b = ((bo, Some bout), b')" "ro_ok bo"
    "r = committed_record (ready_record d bid pd env im b) bid bout (im_authority im)"
    "snd (register_buffer d bid pd env im) = registered_impl bid b' r im"
    "rr_ok (fst (register_buffer d bid pd env im))"
    "rr_registration (fst (register_buffer d bid pd env im)) = r_id r"
proof -
  from ready have b: "map_of (im_backends im) bid = Some b" and can: "be_can_register d b = ''''"
    by (simp_all add: register_ready_def)
  obtain bo out b' where reg: "be_register d (ready_context d pd env im b) b = ((bo, out), b')"
    by (metis prod.collapse)
  from be.register_accepted [OF can reg] obtain bout where ok: "ro_ok bo" and out: "out = Some bout"
    by blast
  note reg' = reg [unfolded out]
  let ?im1 = "im\<lparr>im_next_registration := im_next_registration im + 1\<rparr>"
  have "register_backend d bid (ready_context d pd env im b) ?im1 =
      (Inr bout, ?im1\<lparr>im_backends := AList.update bid b' (im_backends im)\<rparr>)"
    using register_backend_ok [of ?im1, OF _ reg' ok] b by simp
  then have result: "register_buffer d bid pd env im =
      register_commit (ready_record d bid pd env im b) bid bout
        (?im1\<lparr>im_backends := AList.update bid b' (im_backends im)\<rparr>)"
    by (simp add: register_buffer_def register_prepare_ready [OF ready])
  show ?thesis
    by (rule that [OF reg' ok refl])
      (simp_all add: result register_commit_def registered_impl_def default_register_result_def Let_def)
qed

lemma register_buffer_refused:
  assumes "\<nexists>b. register_ready d bid pd env im b"
  shows "\<not> rr_ok (fst (register_buffer d bid pd env im))" and "snd (register_buffer d bid pd env im) = im"
  using register_prepare_refused [OF assms] by (auto simp: register_buffer_def)

lemma register_buffer_cases:
  assumes "register_buffer d bid pd env im = (rr, im')"
  obtains (refused) "\<not> rr_ok rr" "im' = im" "\<nexists>b. register_ready d bid pd env im b"
  | (accepted) b bo bout b' r where "register_ready d bid pd env im b"
    "be_register d (ready_context d pd env im b) b = ((bo, Some bout), b')"
    "r = committed_record (ready_record d bid pd env im b) bid bout (im_authority im)"
    "im' = registered_impl bid b' r im" "rr_ok rr" "rr_registration rr = r_id r"
proof (cases "\<exists>b. register_ready d bid pd env im b")
  case True
  then obtain b where b: "register_ready d bid pd env im b" ..
  show ?thesis
    by (rule register_buffer_ready [OF b]) (use assms b accepted in auto)
next
  case False
  with assms show ?thesis
    using refused register_buffer_refused [OF False] by auto
qed

section \<open>The worked scenario\<close>

definition demo_authority :: AuthoritySnapshot where
  "demo_authority =
     default_snapshot\<lparr>as_coordinator_epoch := StrongGeneration 1, as_worker_boot := StrongId 7,
       as_worker := StrongId 1, as_owner := StrongId 1, as_owner_generation := StrongGeneration 1,
       as_worker_generation := StrongGeneration 1, as_policy_generation := StrongGeneration 1,
       as_node := StrongId 1, as_process := StrongId 1\<rparr>"

definition demo_env :: AuthorityEnvelope where
  "demo_env =
     \<lparr>ae_coordinator_epoch = StrongGeneration 1, ae_worker_boot = StrongId 7, ae_owner = StrongId 1,
      ae_owner_generation = StrongGeneration 1, ae_worker_generation = StrongGeneration 1,
      ae_node = StrongId 1, ae_process = StrongId 1\<rparr>"

abbreviation demo_bid :: BackendId where
  "demo_bid \<equiv> StrongId 0x53594E54"

abbreviation demo_pd :: ProtectionDomainId where
  "demo_pd \<equiv> StrongId 1"

abbreviation demo_reg :: RegistrationId where
  "demo_reg \<equiv> StrongId 1"

definition demo_backend :: IBackend where
  "demo_backend = SyntheticObj (syn_create 0x5EED)"

text \<open>Authority set, backend added, domain and buffer created.\<close>

definition demo0 :: Impl where
  "demo0 = snd (create_buffer page_buffer
     (snd (create_protection_domain (StrongId 1) (StrongId 1)
       (snd (add_backend (Some demo_backend) (set_authority demo_authority new_impl))))))"

text \<open>And the page registered.\<close>

definition demo1 :: Impl where
  "demo1 = snd (register_buffer page_buffer demo_bid demo_pd demo_env demo0)"

definition demo_context :: RegistrationContext where
  "demo_context = registering_context page_buffer demo_backend demo_pd demo_env demo_authority"

definition demo_region :: MemoryRegionId where
  "demo_region = syn_region 0x5EED 1"

definition demo_bout :: BackendRegistration where
  "demo_bout = syn_make_registration (syn_create 0x5EED) demo_region page_buffer demo_context"

definition demo_entry :: SynEntry where
  "demo_entry =
     \<lparr>se_ctx = demo_context, se_reg = demo_bout, se_key_generation = StrongGeneration 1,
      se_revoked = False, se_revalidate_required = False\<rparr>"

definition demo_backend1 :: IBackend where
  "demo_backend1 = SyntheticObj ((syn_create 0x5EED)
     \<lparr>sb_next_seq := 2, sb_entries := [(syn_make_handle demo_region, demo_entry)],
      sb_region_handle := [(demo_region, syn_make_handle demo_region)]\<rparr>)"

definition demo_record :: RegistrationRecord where
  "demo_record =
     committed_record
       (registering_record page_buffer demo_bid demo_backend demo_pd demo_env demo_authority demo_reg)
       demo_bid demo_bout demo_authority"

lemma page_buffer_fields [simp]:
  "bd_id page_buffer = StrongId 1" "bd_generation page_buffer = StrongGeneration 1"
  "bd_domain page_buffer = MD_SYNTHETIC_REMOTE_CAPABLE" "bd_byte_length page_buffer = 4096"
  "bd_requested_access page_buffer = 0x0C" "bp_address (bd_base page_buffer) = 0x1000"
  by (simp_all add: page_buffer_def)

lemma demo_agrees: "authority_agrees demo_authority demo_env"
  by (simp add: authority_agrees_def demo_authority_def demo_env_def default_snapshot_def)

lemma demo_can_register: "be_can_register page_buffer demo_backend = ''''"
  by (simp add: demo_backend_def syn_can_register_ok page_buffer_def domain_supported_def
      syn_capabilities_def syn_create_def validate_range_ok_iff bp_valid_def access_has_def)

lemma demo_range_ok: "bv_ok (validate_range page_buffer)"
  by (simp add: validate_range_ok_iff page_buffer_def bp_valid_def)

lemma demo0_eq:
  "demo0 =
     \<lparr>im_authority = demo_authority, im_backends = [(demo_bid, demo_backend)],
      im_domains = [(demo_pd, \<lparr>de_domain = MD_UNKNOWN, de_state = DS_ACTIVE,
        de_generation = StrongGeneration 1, de_node = StrongId 1, de_process = StrongId 1\<rparr>)],
      im_buffers = [(StrongId 1, \<lparr>bu_descriptor = page_buffer, bu_registered = False\<rparr>)],
      im_registrations = [], im_active_reg = [], im_leases = [],
      im_acct = zero_accounting\<lparr>a_logical_buffers := 1, a_live_buffer_bytes := 4096,
        a_protection_domains := 1\<rparr>,
      im_next_buffer = 1, im_next_registration = 1, im_next_domain = 2, im_next_lease = 1\<rparr>"
proof -
  have "be_id demo_backend = demo_bid" by (simp add: demo_backend_def syn_create_def)
  then show ?thesis
    by (simp add: demo0_def set_authority_def add_backend_def create_protection_domain_def
        create_buffer_def new_impl_def zero_accounting_def increment_def Let_def)
qed

lemma demo0_fields [simp]:
  "im_authority demo0 = demo_authority" "im_next_registration demo0 = 1"
  "im_leases demo0 = []" "im_next_lease demo0 = 1"
  by (simp_all add: demo0_eq)

lemma demo0_ready: "register_ready page_buffer demo_bid demo_pd demo_env demo0 demo_backend"
  by (simp add: register_ready_def domain_active_def buffer_current_def demo0_eq demo_agrees
      demo_can_register demo_range_ok)

lemma demo_registers [simp]:
  "rr_ok (fst (register_buffer page_buffer demo_bid demo_pd demo_env demo0))"
  "rr_registration (fst (register_buffer page_buffer demo_bid demo_pd demo_env demo0)) = demo_reg"
  by (rule register_buffer_ready [OF demo0_ready], simp)+

lemma demo_register_eq:
  "register_buffer page_buffer demo_bid demo_pd demo_env demo0 =
     (fst (register_buffer page_buffer demo_bid demo_pd demo_env demo0), demo1)"
  unfolding demo1_def by (rule surjective_pairing)

lemma demo_be_register:
  "be_register page_buffer demo_context demo_backend =
     ((\<lparr>ro_ok = True, ro_code = ''REGISTERED'',
        ro_message = msg ''Synthetic registration committed.''\<rparr>, Some demo_bout), demo_backend1)"
proof -
  have "syn_can_register page_buffer (syn_create 0x5EED) = ''''"
    using demo_can_register by (simp add: demo_backend_def)
  moreover have "sb_seed (syn_create 0x5EED) = 0x5EED" "sb_next_seq (syn_create 0x5EED) = 1"
    "sb_entries (syn_create 0x5EED) = []" "sb_region_handle (syn_create 0x5EED) = []"
    by (simp_all add: syn_create_def)
  ultimately show ?thesis
    by (simp add: demo_backend_def syn_register_def Let_def demo_bout_def demo_backend1_def
        demo_entry_def demo_region_def syn_make_registration_def)
qed

lemma demo1_eq:
  "demo1 = demo0\<lparr>im_next_registration := 2, im_backends := [(demo_bid, demo_backend1)],
     im_registrations := [(demo_reg, demo_record)], im_active_reg := [(StrongId 1, demo_reg)],
     im_acct := account_registration_commit demo_record (im_acct demo0)\<rparr>"
proof (rule register_buffer_ready [OF demo0_ready])
  fix bo bout b' r
  have cx: "ready_context page_buffer demo_pd demo_env demo0 demo_backend = demo_context"
    by (simp add: ready_context_def demo_context_def demo0_eq)
  assume "be_register page_buffer (ready_context page_buffer demo_pd demo_env demo0 demo_backend)
      demo_backend = ((bo, Some bout), b')"
  then have "bout = demo_bout" and "b' = demo_backend1"
    by (simp_all add: cx demo_be_register)
  moreover assume "r = committed_record (ready_record page_buffer demo_bid demo_pd demo_env demo0
      demo_backend) demo_bid bout (im_authority demo0)"
    and "snd (register_buffer page_buffer demo_bid demo_pd demo_env demo0) =
      registered_impl demo_bid b' r demo0"
  moreover have "im_next_registration demo0 = 1" "im_authority demo0 = demo_authority"
    by (simp_all add: demo0_eq)
  ultimately show ?thesis
    by (simp add: demo1_def registered_impl_def demo_record_def ready_record_def)
      (simp add: demo0_eq registering_record_def)
qed

end
