(* ===== verification/Access.thy ===== *)
theory Access
  imports Registration
begin

text \<open>
  The access decision of the registry. \<open>access_ok\<close> states declaratively when a remote
  operation is permitted; \<open>validate_remote_access\<close> answers \<open>ALLOW\<close> exactly then and changes
  nothing but the accounting. The contract of the backends enters through \<open>be\<close>.
\<close>

section \<open>When an access is permitted\<close>

text \<open>An expectation of a request binds only when it is given.\<close>

definition expects :: "'t StrongGeneration \<Rightarrow> 't StrongGeneration \<Rightarrow> bool" where
  "expects g current \<longleftrightarrow> (gen_valid g \<longrightarrow> g = current)"

definition names_id :: "'t StrongId \<Rightarrow> 't StrongId \<Rightarrow> bool" where
  "names_id i current \<longleftrightarrow> (id_valid i \<longrightarrow> i = current)"

definition lifecycle_permits :: "RegistrationLifecycle \<Rightarrow> bool" where
  "lifecycle_permits l \<longleftrightarrow>
     l \<noteq> RL_REVOKED \<and> l \<noteq> RL_DEREGISTERED \<and> l \<noteq> RL_STALE \<and> l \<noteq> RL_REVOKING"

text \<open>What the registry's own record must say.\<close>

definition record_permits :: "RemoteAccessRequest \<Rightarrow> RegistrationRecord \<Rightarrow> bool" where
  "record_permits q r \<longleftrightarrow>
     lifecycle_permits (r_lifecycle r) \<and> r_freshness r = FR_VALID \<and>
     expects (q_expected_registration_generation q) (r_registration_generation r) \<and>
     expects (q_expected_buffer_generation q) (r_buffer_generation r) \<and>
     expects (q_expected_remote_key_generation q) (rk_key_generation (r_remote_key r)) \<and>
     \<not> rk_revoked (r_remote_key r) \<and>
     names_id (q_backend q) (r_backend r) \<and> names_id (q_transport q) (r_transport r) \<and>
     names_id (q_domain q) (r_domain_id r) \<and>
     access_superset (r_granted_access r) (q_required_rights q) \<and>
     access_has (r_granted_access r) (intrinsic_right (q_kind q)) \<and>
     unat (q_offset q) + unat (q_length q) \<le> unat (bd_byte_length (r_descriptor r))"

text \<open>What the backend that holds the registration must say: the generation under which it
  registered is current, and the live entry behind the handle permits the operation.\<close>

definition backend_permits :: "RemoteAccessRequest \<Rightarrow> RegistrationRecord \<Rightarrow> IBackend \<Rightarrow> bool" where
  "backend_permits q r b \<longleftrightarrow>
     be_generation b = r_backend_generation r \<and>
     (\<exists>v. be_view b (r_backend_handle r) = Some v \<and>
          entry_permits (be_capabilities b) v (rk_key_generation (r_remote_key r))
            (q_kind q) (q_offset q) (q_length q))"

definition access_ok :: "RemoteAccessRequest \<Rightarrow> Impl \<Rightarrow> bool" where
  "access_ok q im \<longleftrightarrow>
     (\<exists>r b. map_of (im_registrations im) (q_source_registration q) = Some r \<and>
            map_of (im_backends im) (r_backend r) = Some b \<and>
            authority_agrees (im_authority im) (q_authority q) \<and>
            record_permits q r \<and> backend_permits q r b)"

section \<open>The decision\<close>

lemma decide_fst [simp]: "fst (decide oc e im) = make_decision oc e"
  by (simp add: decide_def)

lemma decide_gate:
  "oc \<noteq> AO_ALLOW \<Longrightarrow>
     ad_outcome (fst (if p then decide oc e im else x)) = AO_ALLOW \<longleftrightarrow>
     \<not> p \<and> ad_outcome (fst x) = AO_ALLOW"
  by simp

text \<open>The two gates that are not a \<open>decide\<close>: the authority's own decision and the backend's.\<close>

lemma authority_gate:
  "ad_outcome (fst (if ad_outcome a \<noteq> AO_ALLOW then (a, im) else x)) = AO_ALLOW \<longleftrightarrow>
     ad_outcome a = AO_ALLOW \<and> ad_outcome (fst x) = AO_ALLOW"
  by auto

lemma backend_gate:
  "ad_outcome (fst (case y of (bo, ex) \<Rightarrow>
      if bo \<noteq> AO_ALLOW then decide bo ex im else decide AO_ALLOW t im')) = AO_ALLOW \<longleftrightarrow>
     fst y = AO_ALLOW"
  by (cases y) simp

lemma atomic_capability:
  "entry_permits caps v g OP_ATOMIC_COMPARE_SWAP off len \<Longrightarrow> capability_allows (bc_remote_atomic caps)"
  by (simp add: entry_permits_def kind_capability_def)

lemma validate_missing:
  "map_of (im_registrations im) (q_source_registration q) = None \<Longrightarrow>
     validate_remote_access q im = decide AO_REJECT_NOT_REGISTERED (msg ''registration not found'') im"
  by (simp add: validate_remote_access_def)

lemma validate_backend_missing:
  assumes "map_of (im_registrations im) (q_source_registration q) = Some r"
    and "map_of (im_backends im) (r_backend r) = None"
  shows "ad_outcome (fst (validate_remote_access q im)) \<noteq> AO_ALLOW"
  unfolding validate_remote_access_def assms option.case
  by (simp only: decide_gate authority_gate AccessOutcome.distinct decide_fst make_decision_outcome
      simp_thms)

lemma validate_both:
  assumes r: "map_of (im_registrations im) (q_source_registration q) = Some r"
    and b: "map_of (im_backends im) (r_backend r) = Some b"
  shows "ad_outcome (fst (validate_remote_access q im)) = AO_ALLOW \<longleftrightarrow>
    authority_agrees (im_authority im) (q_authority q) \<and> record_permits q r \<and> backend_permits q r b"
proof -
  have query: "fst (be_query (reg_handle r) (back_dummy_remote_key r) (q_kind q) (q_offset q)
      (q_length q) b) = AO_ALLOW \<longleftrightarrow>
    (\<exists>v. be_view b (r_backend_handle r) = Some v \<and>
         entry_permits (be_capabilities b) v (rk_key_generation (r_remote_key r))
           (q_kind q) (q_offset q) (q_length q))"
    by (simp add: be.query_allow_iff reg_handle_def back_dummy_remote_key_def)
  have gates: "ad_outcome (fst (validate_remote_access q im)) = AO_ALLOW \<longleftrightarrow>
    lifecycle_permits (r_lifecycle r) \<and> r_freshness r = FR_VALID \<and>
    ad_outcome (validate_authority (im_authority im) (q_authority q)) = AO_ALLOW \<and>
    expects (q_expected_registration_generation q) (r_registration_generation r) \<and>
    expects (q_expected_buffer_generation q) (r_buffer_generation r) \<and>
    expects (q_expected_remote_key_generation q) (rk_key_generation (r_remote_key r)) \<and>
    \<not> rk_revoked (r_remote_key r) \<and> names_id (q_backend q) (r_backend r) \<and>
    be_generation b = r_backend_generation r \<and> names_id (q_transport q) (r_transport r) \<and>
    names_id (q_domain q) (r_domain_id r) \<and>
    access_superset (r_granted_access r) (q_required_rights q) \<and>
    access_has (r_granted_access r) (intrinsic_right (q_kind q)) \<and>
    \<not> (q_kind q = OP_ATOMIC_COMPARE_SWAP \<and> access_has (q_required_rights q) AR_REMOTE_ATOMIC \<and>
        \<not> capability_allows (bc_remote_atomic (be_capabilities b))) \<and>
    range_inside (r_descriptor r) (q_offset q) (q_length q) \<and>
    fst (be_query (reg_handle r) (back_dummy_remote_key r) (q_kind q) (q_offset q)
      (q_length q) b) = AO_ALLOW"
    unfolding validate_remote_access_def r b option.case expects_def names_id_def
      lifecycle_permits_def
    by (simp only: decide_gate authority_gate backend_gate AccessOutcome.distinct simp_thms
        de_Morgan_disj de_Morgan_conj not_not) blast
  show ?thesis
    unfolding gates query record_permits_def backend_permits_def validate_authority_allow_iff
      range_inside_iff
    using atomic_capability by metis
qed

lemma validate_allow_iff:
  "ad_outcome (fst (validate_remote_access q im)) = AO_ALLOW \<longleftrightarrow> access_ok q im"
proof (cases "map_of (im_registrations im) (q_source_registration q)")
  case None
  then show ?thesis by (simp add: validate_missing access_ok_def)
next
  case r: (Some r)
  show ?thesis
  proof (cases "map_of (im_backends im) (r_backend r)")
    case None
    with r show ?thesis using validate_backend_missing [OF r None] by (simp add: access_ok_def)
  next
    case (Some b)
    with r show ?thesis using validate_both [OF r Some] by (simp add: access_ok_def)
  qed
qed

section \<open>What a decision changes\<close>

text \<open>The authority check is the one refusal that returns without going through \<open>decision\<close>.\<close>

definition authority_stops :: "RemoteAccessRequest \<Rightarrow> Impl \<Rightarrow> bool" where
  "authority_stops q im \<longleftrightarrow>
     (\<exists>r. map_of (im_registrations im) (q_source_registration q) = Some r \<and>
          lifecycle_permits (r_lifecycle r) \<and> r_freshness r = FR_VALID \<and>
          \<not> authority_agrees (im_authority im) (q_authority q))"

definition access_count :: "RemoteAccessRequest \<Rightarrow> AccessOutcome \<Rightarrow> bool \<Rightarrow> Accounting \<Rightarrow> Accounting" where
  "access_count q oc stopped a =
     (if oc = AO_ALLOW then count_completed (q_kind q) (q_length q) a
      else if stopped then a else count_refusal oc a)"

text \<open>\<open>counted\<close>: the pair is a decision with the accounting it implies.\<close>

definition counted :: "RemoteAccessRequest \<Rightarrow> Impl \<Rightarrow> bool \<Rightarrow> AccessDecision \<times> Impl \<Rightarrow> bool" where
  "counted q im stopped x \<longleftrightarrow>
     snd x = on_acct (access_count q (ad_outcome (fst x)) stopped) im"

lemma counted_decide: "oc \<noteq> AO_ALLOW \<Longrightarrow> counted q im False (decide oc e im)"
  by (simp add: counted_def decide_def access_count_def on_acct_def)

lemma counted_gate:
  "oc \<noteq> AO_ALLOW \<Longrightarrow> (\<not> p \<Longrightarrow> counted q im False x) \<Longrightarrow>
     counted q im False (if p then decide oc e im else x)"
  using counted_decide by (cases p) auto

lemma counted_backend:
  "counted q im False (case y of (bo, ex) \<Rightarrow>
     if bo \<noteq> AO_ALLOW then decide bo ex im
     else decide AO_ALLOW t (on_acct (count_completed (q_kind q) (q_length q)) im))"
  by (cases y) (simp add: counted_def decide_def access_count_def on_acct_def count_refusal_def)

lemma validate_counted: "counted q im (authority_stops q im) (validate_remote_access q im)"
proof (cases "map_of (im_registrations im) (q_source_registration q)")
  case None
  then show ?thesis
    by (simp add: validate_missing authority_stops_def counted_decide)
next
  case r: (Some r)
  have stops: "authority_stops q im \<longleftrightarrow> lifecycle_permits (r_lifecycle r) \<and> r_freshness r = FR_VALID \<and>
    \<not> authority_agrees (im_authority im) (q_authority q)"
    by (simp add: authority_stops_def r)
  show ?thesis
  proof (cases "authority_stops q im")
    case True
    then have "\<not> (r_lifecycle r = RL_REVOKED \<or> r_lifecycle r = RL_DEREGISTERED \<or> r_lifecycle r = RL_STALE)"
      and "r_lifecycle r \<noteq> RL_REVOKING" and "\<not> r_freshness r \<noteq> FR_VALID"
      and "ad_outcome (validate_authority (im_authority im) (q_authority q)) \<noteq> AO_ALLOW"
      by (simp_all add: stops lifecycle_permits_def validate_authority_allow_iff)
    then have "validate_remote_access q im = (validate_authority (im_authority im) (q_authority q), im)"
      and "ad_outcome (validate_authority (im_authority im) (q_authority q)) \<noteq> AO_ALLOW"
      unfolding validate_remote_access_def r option.case by simp_all
    with True show ?thesis
      by (simp add: counted_def access_count_def on_acct_def)
  next
    case False
    have auth: "counted q im False (if ad_outcome (validate_authority (im_authority im) (q_authority q)) \<noteq> AO_ALLOW
        then (validate_authority (im_authority im) (q_authority q), im) else x)"
      if "\<not> (r_lifecycle r = RL_REVOKED \<or> r_lifecycle r = RL_DEREGISTERED \<or> r_lifecycle r = RL_STALE)"
        and "r_lifecycle r \<noteq> RL_REVOKING" and "\<not> r_freshness r \<noteq> FR_VALID"
        and "counted q im False x" for x
      using False that by (simp add: stops lifecycle_permits_def validate_authority_allow_iff)
    have stop: "authority_stops q im = False" using False by simp
    show ?thesis
      unfolding validate_remote_access_def r option.case stop
      by (cases "map_of (im_backends im) (r_backend r)"; simp only: option.case)
        (intro counted_gate auth counted_decide counted_backend AccessOutcome.distinct; assumption?)+
  qed
qed


section \<open>What an allowed request is told\<close>

text \<open>The decision on an allowed request; \<open>says t x\<close> passes through every gate of the decision.\<close>

definition says :: "string \<Rightarrow> AccessDecision \<times> Impl \<Rightarrow> bool" where
  "says t x \<longleftrightarrow> (ad_outcome (fst x) = AO_ALLOW \<longrightarrow> fst x = make_decision AO_ALLOW t)"

lemma says_gate: "oc \<noteq> AO_ALLOW \<Longrightarrow> says t x \<Longrightarrow> says t (if p then decide oc e im else x)"
  by (simp add: says_def)

lemma says_decide: "oc \<noteq> AO_ALLOW \<Longrightarrow> says t (decide oc e im)"
  by (simp add: says_def)

lemma says_authority: "says t x \<Longrightarrow> says t (if ad_outcome a \<noteq> AO_ALLOW then (a, im) else x)"
  by (simp add: says_def)

lemma says_backend: "says t (case y of (bo, ex) \<Rightarrow> if bo \<noteq> AO_ALLOW then decide bo ex im else decide AO_ALLOW t im')"
  by (cases y) (simp add: says_def)

lemma allowed_explanation: "says (msg ''remote '' @ operation_kind_name (q_kind q) @ msg '' allowed'') (validate_remote_access q im)"
proof (cases "map_of (im_registrations im) (q_source_registration q)")
  case None
  then show ?thesis by (simp add: validate_missing says_decide)
next
  case (Some r)
  show ?thesis
    unfolding validate_remote_access_def Some option.case
    by (cases "map_of (im_backends im) (r_backend r)"; simp only: option.case)
      (intro says_gate says_authority says_decide says_backend AccessOutcome.distinct)+
qed

section \<open>Properties\<close>

text \<open>C1. The access decision is \<open>ALLOW\<close> exactly when the declarative condition holds: the
  registration exists in a lifecycle that permits access and is fresh, the supplied authority
  agrees with the current one, every generation and identity the request names is the recorded
  one, the remote key is not revoked, the granted rights cover the requested ones and the one
  the operation needs, the range lies inside the buffer as natural numbers, the backend still
  has the generation it registered under, and its own live entry permits the operation.\<close>

theorem remote_access_allowed_iff:
  "ad_outcome (fst (validate_remote_access q im)) = AO_ALLOW \<longleftrightarrow> access_ok q im"
  by (rule validate_allow_iff)

text \<open>C11. An access decision changes nothing but the accounting, and the accounting exactly so:
  an allowed operation adds its length to the bytes read or written, or one to the atomics; a
  refusal adds one to the failed attempts and, when it is a stale one, one to the stale
  rejections; a refusal that \<open>validate_authority\<close> takes is not counted at all.\<close>

theorem remote_access_accounting:
  "snd (validate_remote_access q im) =
     on_acct (access_count q (ad_outcome (fst (validate_remote_access q im))) (authority_stops q im)) im"
  using validate_counted by (simp add: counted_def)

lemma registered_lookup:
  "map_of (im_registrations (registered_impl bid b' r im)) (r_id r) = Some r"
  "map_of (im_backends (registered_impl bid b' r im)) bid = Some b'"
  "im_authority (registered_impl bid b' r im) = im_authority im"
  by (simp_all add: registered_impl_def um_simps)

lemma registered_backend_permits:
  assumes "register_ready d bid pd env im b"
    and "be_register d (ready_context d pd env im b) b = ((bo, Some bout), b')"
    and "r = committed_record (ready_record d bid pd env im b) bid bout (im_authority im)"
  shows "backend_permits q r b' \<longleftrightarrow>
      unat (q_offset q) + unat (q_length q) \<le> unat (bd_byte_length d) \<and>
      access_has (bd_requested_access d) (intrinsic_right (q_kind q))"
    and "r_granted_access r = bd_requested_access d"
    and "gen_valid (rk_key_generation (r_remote_key r))"
proof -
  from assms(1) have can: "be_can_register d b = ''''" by (simp add: register_ready_def)
  note acc = be.register_accepted [OF can assms(2)]
  then show "r_granted_access r = bd_requested_access d"
    and "gen_valid (rk_key_generation (r_remote_key r))"
    by (auto simp: assms(3))
  have frame: "be_generation b' = be_generation b" using be.register_frame [OF assms(2)] by simp
  have "fst (be_query (reg_handle r) (back_dummy_remote_key r) (q_kind q) (q_offset q) (q_length q) b')
      = AO_ALLOW \<longleftrightarrow>
    unat (q_offset q) + unat (q_length q) \<le> unat (bd_byte_length d) \<and>
    access_has (bd_requested_access d) (intrinsic_right (q_kind q))"
    by (rule be.register_then_query [OF assms(2)])
      (simp_all add: reg_handle_def back_dummy_remote_key_def assms(3))
  then show "backend_permits q r b' \<longleftrightarrow>
      unat (q_offset q) + unat (q_length q) \<le> unat (bd_byte_length d) \<and>
      access_has (bd_requested_access d) (intrinsic_right (q_kind q))"
    by (simp add: be.query_allow_iff backend_permits_def reg_handle_def back_dummy_remote_key_def
        frame assms(3))
qed

lemma registered_access:
  assumes "register_buffer d bid pd env im = (rr, im')" and "rr_ok rr"
    and "q_source_registration q = rr_registration rr"
    and "authority_agrees (im_authority im) (q_authority q)"
  shows "\<exists>r. get_registration (rr_registration rr) im' = Some r \<and>
    (ad_outcome (fst (validate_remote_access q im')) = AO_ALLOW \<longleftrightarrow>
       expects (q_expected_registration_generation q) (StrongGeneration 1) \<and>
       expects (q_expected_buffer_generation q) (bd_generation d) \<and>
       expects (q_expected_remote_key_generation q) (rk_key_generation (r_remote_key r)) \<and>
       names_id (q_backend q) bid \<and> \<not> id_valid (q_transport q) \<and> names_id (q_domain q) pd \<and>
       access_superset (bd_requested_access d) (q_required_rights q) \<and>
       access_has (bd_requested_access d) (intrinsic_right (q_kind q)) \<and>
       unat (q_offset q) + unat (q_length q) \<le> unat (bd_byte_length d))"
  using assms(1)
proof (cases rule: register_buffer_cases)
  case refused
  with assms(2) show ?thesis by simp
next
  case (accepted b bo bout b' r)
  note backend = registered_backend_permits [OF accepted(1-3)]
  have transport: "names_id (q_transport q) no_id \<longleftrightarrow> \<not> id_valid (q_transport q)"
    by (auto simp: names_id_def)
  have fields: "lifecycle_permits (r_lifecycle r)" "r_freshness r = FR_VALID"
    "r_registration_generation r = StrongGeneration 1" "r_buffer_generation r = bd_generation d"
    "\<not> rk_revoked (r_remote_key r)" "r_backend r = bid" "r_transport r = no_id"
    "r_domain_id r = pd" "r_descriptor r = d"
    by (simp_all add: accepted(3) lifecycle_permits_def)
  show ?thesis
    unfolding validate_allow_iff access_ok_def record_permits_def assms(3) accepted(6) accepted(4)
      registered_lookup get_registration_def
    using backend assms(4) by (auto simp: fields transport registered_lookup)
qed

text \<open>C10. A buffer just registered is open to exactly the accesses its descriptor asked for: a
  request that names the new registration under current authority is allowed if and only if
  the generations it expects are those of the new registration, it names no other backend or
  domain and no transport at all, its rights were requested and its range lies in the
  buffer.\<close>

theorem register_then_access:
  assumes "register_buffer d bid pd env im = (rr, im')" and "rr_ok rr"
    and "q_source_registration q = rr_registration rr"
    and "authority_agrees (im_authority im) (q_authority q)"
  shows "\<exists>r. get_registration (rr_registration rr) im' = Some r \<and>
    (ad_outcome (fst (validate_remote_access q im')) = AO_ALLOW \<longleftrightarrow>
       expects (q_expected_registration_generation q) (StrongGeneration 1) \<and>
       expects (q_expected_buffer_generation q) (bd_generation d) \<and>
       expects (q_expected_remote_key_generation q) (rk_key_generation (r_remote_key r)) \<and>
       names_id (q_backend q) bid \<and> \<not> id_valid (q_transport q) \<and> names_id (q_domain q) pd \<and>
       access_superset (bd_requested_access d) (q_required_rights q) \<and>
       access_has (bd_requested_access d) (intrinsic_right (q_kind q)) \<and>
       unat (q_offset q) + unat (q_length q) \<le> unat (bd_byte_length d))"
  using assms by (rule registered_access)

definition demo_request :: RemoteAccessRequest where
  "demo_request =
     \<lparr>q_transfer_id = StrongId 1, q_source_registration = demo_reg, q_offset = 4000, q_length = 96,
      q_kind = OP_READ, q_required_rights = 4, q_expected_buffer_generation = StrongGeneration 1,
      q_expected_registration_generation = StrongGeneration 1,
      q_expected_remote_key_generation = no_gen, q_attempt = no_id, q_dispatch = no_id,
      q_authority = demo_env, q_domain = demo_pd, q_backend = demo_bid,
      q_transport = no_id, q_nic = no_id, q_process = StrongId 1, q_node = StrongId 1,
      q_sim_seed = 0\<rparr>"

lemma demo_request_fields [simp]:
  "q_source_registration demo_request = demo_reg" "q_authority demo_request = demo_env"
  "q_expected_registration_generation demo_request = StrongGeneration 1"
  "q_expected_buffer_generation demo_request = StrongGeneration 1"
  "q_expected_remote_key_generation demo_request = no_gen"
  "q_backend demo_request = demo_bid" "q_transport demo_request = no_id"
  "q_domain demo_request = demo_pd" "q_required_rights demo_request = 4"
  "q_kind demo_request = OP_READ" "q_offset demo_request = 4000" "q_length demo_request = 96"
  by (simp_all add: demo_request_def)

lemma demo_allowed:
  assumes "register_buffer page_buffer demo_bid demo_pd demo_env im = (rr, im')" and "rr_ok rr"
    and "rr_registration rr = demo_reg" and "im_authority im = demo_authority"
  shows "ad_outcome (fst (validate_remote_access demo_request im')) = AO_ALLOW"
  using registered_access [OF assms(1,2), of demo_request] assms(3,4)
  by (auto simp: demo_agrees expects_def names_id_def access_superset_def access_has_def
      intrinsic_right_def gen_valid_def no_gen_def)

theorem register_then_access_witness:
  "rr_ok (fst (register_buffer page_buffer demo_bid demo_pd demo_env demo0)) \<and>
   ad_outcome (fst (validate_remote_access demo_request demo1)) = AO_ALLOW"
  using register_then_access [OF demo_register_eq demo_registers(1), of demo_request]
  by (simp add: demo_agrees expects_def names_id_def access_superset_def access_has_def
      intrinsic_right_def gen_valid_def no_gen_def)

end
