(* ===== verification/Runs.thy ===== *)
theory Runs
  imports Access
begin

text \<open>
  How a registration record evolves. \<open>reg_step\<close> lists every change the registry makes to a
  record it holds; \<open>evolves\<close> says that a state follows from another by such changes, by
  erasing registrations and by inserting new ones. Every critical section of the registry is
  shown to be such a change, so what \<open>reg_step\<close> preserves holds along every run, sequential or
  interleaved.
\<close>

section \<open>The life of a record\<close>

inductive held_step :: "RegistrationRecord \<Rightarrow> RegistrationRecord \<Rightarrow> bool" where
  domain_destroyed: "is_live (r_lifecycle r) \<Longrightarrow> held_step r (domain_destroyed_reg r)"
| reallocated: "is_live (r_lifecycle r) \<or> r_lifecycle r = RL_REGISTERING \<Longrightarrow>
    held_step r (reallocated_reg r)"
| lease_taken: "is_live (r_lifecycle r) \<Longrightarrow> r_freshness r = FR_VALID \<Longrightarrow>
    held_step r (r\<lparr>r_lease_count := r_lease_count r + 1\<rparr>)"
| lease_dropped: "held_step r (drop_lease_count r)"
| hard_revoked: "is_live (r_lifecycle r) \<Longrightarrow> held_step r (hard_revoked_reg r)"
| soft_revoked: "is_live (r_lifecycle r) \<Longrightarrow> held_step r (soft_revoked_reg r)"
| rotated: "is_live (r_lifecycle r) \<Longrightarrow> held_step r (rotated_reg r)"

text \<open>And with the two changes of \<open>deregister\<close>, which spans two critical sections.\<close>

inductive reg_step :: "RegistrationRecord \<Rightarrow> RegistrationRecord \<Rightarrow> bool" where
  held: "held_step r r' \<Longrightarrow> reg_step r r'"
| deregistering: "deregisterable (r_lifecycle r) \<Longrightarrow> r_lease_count r = 0 \<Longrightarrow>
    reg_step r (r\<lparr>r_lifecycle := RL_DEREGISTERING\<rparr>)"
| deregister_failed: "reg_step r (r\<lparr>r_lifecycle := RL_FAILED\<rparr>)"

text \<open>The definitions of the changed records, for the facts about single fields.\<close>

lemmas reg_changes =
  domain_destroyed_reg_def reallocated_reg_def drop_lease_count_def hard_revoked_reg_def
  soft_revoked_reg_def rotated_reg_def

text \<open>What no change touches: the identity of a registration and what it was granted.\<close>

definition same_registration :: "RegistrationRecord \<Rightarrow> RegistrationRecord \<Rightarrow> bool" where
  "same_registration r r' \<longleftrightarrow>
     r_id r' = r_id r \<and> r_buffer_id r' = r_buffer_id r \<and>
     r_buffer_generation r' = r_buffer_generation r \<and>
     r_registration_generation r' = r_registration_generation r \<and>
     r_descriptor r' = r_descriptor r \<and> r_backend r' = r_backend r \<and>
     r_backend_generation r' = r_backend_generation r \<and> r_transport r' = r_transport r \<and>
     r_domain r' = r_domain r \<and> r_domain_id r' = r_domain_id r \<and>
     r_granted_access r' = r_granted_access r \<and> r_length r' = r_length r \<and>
     r_backend_handle r' = r_backend_handle r \<and> r_boot r' = r_boot r"

lemma same_registration_refl [simp]: "same_registration r r"
  by (simp add: same_registration_def)

lemma same_registration_trans:
  "same_registration r r' \<Longrightarrow> same_registration r' r'' \<Longrightarrow> same_registration r r''"
  by (simp add: same_registration_def)

lemma held_step_same: "held_step r r' \<Longrightarrow> same_registration r r'"
  by (induction rule: held_step.induct) (simp_all add: same_registration_def reg_changes)

lemma reg_step_same: "reg_step r r' \<Longrightarrow> same_registration r r'"
  by (induction rule: reg_step.induct)
    (simp add: held_step_same, simp_all add: same_registration_def)

lemma reg_steps_same: "reg_step\<^sup>*\<^sup>* r r' \<Longrightarrow> same_registration r r'"
  by (induction rule: rtranclp_induct) (auto dest: reg_step_same intro: same_registration_trans)

text \<open>A record that is no longer fresh stays so, and one that left the live states never returns.\<close>

lemma held_step_freshness:
  "held_step r r' \<Longrightarrow> r_freshness r' = FR_VALID \<Longrightarrow> r_freshness r = FR_VALID"
  by (induction rule: held_step.induct) (simp_all add: reg_changes split: if_splits)

lemma reg_step_freshness:
  "reg_step r r' \<Longrightarrow> r_freshness r' = FR_VALID \<Longrightarrow> r_freshness r = FR_VALID"
  by (induction rule: reg_step.induct) (simp_all add: held_step_freshness)

lemma reg_steps_freshness:
  "reg_step\<^sup>*\<^sup>* r r' \<Longrightarrow> r_freshness r' = FR_VALID \<Longrightarrow> r_freshness r = FR_VALID"
  by (induction rule: rtranclp_induct) (auto dest: reg_step_freshness)

lemma held_step_live: "held_step r r' \<Longrightarrow> is_live (r_lifecycle r') \<Longrightarrow> is_live (r_lifecycle r)"
  by (induction rule: held_step.induct) (simp_all add: reg_changes is_live_def split: if_splits)

lemma reg_step_live: "reg_step r r' \<Longrightarrow> is_live (r_lifecycle r') \<Longrightarrow> is_live (r_lifecycle r)"
  by (induction rule: reg_step.induct) (simp add: held_step_live, simp_all add: is_live_def)

lemma held_step_revoking:
  "held_step r r' \<Longrightarrow> r_lifecycle r = RL_REVOKING \<Longrightarrow> r_lifecycle r' = RL_REVOKING"
  by (induction rule: held_step.induct) (simp_all add: reg_changes is_live_def)

lemma reg_steps_live:
  "reg_step\<^sup>*\<^sup>* r r' \<Longrightarrow> is_live (r_lifecycle r') \<Longrightarrow> is_live (r_lifecycle r)"
  by (induction rule: rtranclp_induct) (auto dest: reg_step_live)

text \<open>The generation of the remote key: each change keeps it or takes its successor.\<close>

definition key_gen :: "RegistrationRecord \<Rightarrow> u64" where
  "key_gen r = gen_value (rk_key_generation (r_remote_key r))"

lemma held_step_key:
  "held_step r r' \<Longrightarrow> key_gen r' = key_gen r \<or> key_gen r' = key_gen r + 1"
  by (induction rule: held_step.induct) (simp_all add: reg_changes key_gen_def)

lemma reg_step_key:
  "reg_step r r' \<Longrightarrow> key_gen r' = key_gen r \<or> key_gen r' = key_gen r + 1"
  by (induction rule: reg_step.induct) (auto dest: held_step_key simp: key_gen_def)

section \<open>States that follow\<close>

definition reg_at :: "Impl \<Rightarrow> RegistrationId \<Rightarrow> RegistrationRecord option" where
  "reg_at im = map_of (im_registrations im)"

text \<open>\<open>evolves N im im'\<close>: the registrations of \<open>im'\<close> outside \<open>N\<close> are those of \<open>im\<close>, changed by
  at most \<open>k\<close> steps each, or fewer registrations.\<close>

definition evolves :: "RegistrationId set \<Rightarrow> Impl \<Rightarrow> Impl \<Rightarrow> bool" where
  "evolves N im im' \<longleftrightarrow>
     im_next_registration im \<le> im_next_registration im' \<and>
     (\<forall>i r'. i \<notin> N \<longrightarrow> reg_at im' i = Some r' \<longrightarrow>
        (\<exists>r. reg_at im i = Some r \<and> (r' = r \<or> reg_step r r')))"

lemma evolvesD:
  "evolves N im im' \<Longrightarrow> i \<notin> N \<Longrightarrow> reg_at im' i = Some r' \<Longrightarrow>
     \<exists>r. reg_at im i = Some r \<and> (r' = r \<or> reg_step r r')"
  by (simp add: evolves_def)

lemma evolves_same:
  "im_registrations im' = im_registrations im \<Longrightarrow>
   im_next_registration im' = im_next_registration im \<Longrightarrow> evolves N im im'"
  by (simp add: evolves_def reg_at_def)

lemma evolves_update:
  assumes "im_registrations im' = AList.update i r' (im_registrations im)"
    and "im_next_registration im' = im_next_registration im"
    and "reg_at im i = Some r" and "reg_step r r'"
  shows "evolves N im im'"
  using assms by (auto simp: evolves_def reg_at_def um_simps)

lemma evolves_insert:
  assumes "im_registrations im' = AList.update i r' (im_registrations im)"
    and "im_next_registration im' = im_next_registration im" and "i \<in> N"
  shows "evolves N im im'"
  using assms by (auto simp: evolves_def reg_at_def um_simps)

lemma evolves_delete:
  assumes "im_registrations im' = AList.delete i (im_registrations im)"
    and "im_next_registration im' = im_next_registration im"
  shows "evolves N im im'"
  using assms by (auto simp: evolves_def reg_at_def um_simps)

lemma um_for_map_of:
  "um_for p f g m acc = (m', a) \<Longrightarrow> map_of m' k = map_option (\<lambda>v. if p v then f v else v) (map_of m k)"
  by (metis fst_conv map_of_um_for)

lemma reg_at_um_for:
  "um_for p f g (im_registrations im) acc = (regs, a) \<Longrightarrow> im_registrations im' = regs \<Longrightarrow>
     reg_at im' = (\<lambda>i. map_option (\<lambda>r. if p r then f r else r) (reg_at im i))"
  by (auto simp: reg_at_def um_for_map_of)

text \<open>\<open>keeps\<close>: the same registrations, each changed by at most one \<open>held_step\<close>. This is what
  every operation that holds the mutex throughout does.\<close>

definition keeps :: "Impl \<Rightarrow> Impl \<Rightarrow> bool" where
  "keeps im im' \<longleftrightarrow>
     im_next_registration im' = im_next_registration im \<and>
     (\<forall>i. rel_option (\<lambda>r r'. r' = r \<or> held_step r r') (reg_at im i) (reg_at im' i))"

lemma keeps_evolves:
  assumes "keeps im im'"
  shows "evolves {} im im'"
proof -
  have "\<exists>r. reg_at im i = Some r \<and> (r' = r \<or> reg_step r r')" if "reg_at im' i = Some r'" for i r'
  proof -
    from assms have "rel_option (\<lambda>r r'. r' = r \<or> held_step r r') (reg_at im i) (reg_at im' i)"
      by (simp add: keeps_def)
    with that show ?thesis by (auto simp: option_rel_Some2 intro: reg_step.held)
  qed
  with assms show ?thesis by (simp add: keeps_def evolves_def)
qed

lemma keepsD:
  "keeps im im' \<Longrightarrow> reg_at im i = Some r \<Longrightarrow>
     \<exists>r'. reg_at im' i = Some r' \<and> (r' = r \<or> held_step r r')"
  unfolding keeps_def by (auto simp: option_rel_Some1 dest!: spec [of _ i])

lemma keeps_None: "keeps im im' \<Longrightarrow> reg_at im i = None \<Longrightarrow> reg_at im' i = None"
  unfolding keeps_def by (auto dest!: spec [of _ i])

lemma keeps_same:
  "im_registrations im' = im_registrations im \<Longrightarrow>
   im_next_registration im' = im_next_registration im \<Longrightarrow> keeps im im'"
  by (simp add: keeps_def reg_at_def option.rel_refl)

lemma keeps_update:
  assumes "im_registrations im' = AList.update i r' (im_registrations im)"
    and "im_next_registration im' = im_next_registration im"
    and "reg_at im i = Some r" and "held_step r r'"
  shows "keeps im im'"
  using assms by (auto simp: keeps_def reg_at_def um_simps option.rel_refl)

lemma keeps_um_for:
  assumes "um_for p f g (im_registrations im) acc = (regs, a)"
    and "im_registrations im' = regs" and "im_next_registration im' = im_next_registration im"
    and "\<And>r. p r \<Longrightarrow> held_step r (f r)"
  shows "keeps im im'"
  using reg_at_um_for [OF assms(1,2)] assms(3,4)
  by (auto simp: keeps_def option.rel_map intro!: option.rel_refl_strong)

section \<open>Every critical section is such a change\<close>

lemma register_prepare_evolves:
  assumes "register_prepare d bid pd env im = (x, im')" and "im_next_registration im \<noteq> - 1"
  shows "evolves {} im im'"
  using assms(1)
proof (cases rule: register_prepare_cases)
  case refused
  then show ?thesis by (simp add: evolves_same)
next
  case (ready b)
  from assms(2) have "im_next_registration im \<le> im_next_registration im + 1"
    by (metis add_eq_0_iff inc_less_eq_triv_imp linear)
  then show ?thesis by (simp add: ready evolves_def reg_at_def)
qed

lemma register_backend_frame:
  "register_backend d bid cx im = (x, im') \<Longrightarrow> \<exists>bs. im' = im\<lparr>im_backends := bs\<rparr>"
  by (auto simp: register_backend_def Let_def intro: exI [of _ "im_backends im"]
      split: option.splits prod.splits bool.splits)

lemma register_backend_evolves:
  assumes "register_backend d bid cx im = (x, im')"
  shows "evolves {} im im'"
  using register_backend_frame [OF assms] by (auto intro: evolves_same)

lemma register_commit_evolves:
  "register_commit r bid bout im = (rr, im') \<Longrightarrow> evolves {r_id r} im im'"
  by (rule evolves_insert [of _ "r_id r"]) (auto simp: register_commit_def Let_def)

text \<open>The outcomes of each critical section, as elimination rules.\<close>

lemma destroy_protection_domain_cases:
  assumes "destroy_protection_domain d im = (b, im')"
  obtains (missing) "\<not> b" "im' = im" "map_of (im_domains im) d = None"
  | (destroyed) e regs a where "b" "map_of (im_domains im) d = Some e"
    "um_for (\<lambda>r. r_domain_id r = d \<and> is_live (r_lifecycle r)) domain_destroyed_reg
       account_registration_invalidate (im_registrations im) (im_acct im) = (regs, a)"
    "im' = im\<lparr>im_registrations := regs,
       im_domains := AList.update d
         (e\<lparr>de_state := DS_DESTROYED, de_generation := gen_next (de_generation e)\<rparr>) (im_domains im),
       im_acct := a\<lparr>a_protection_domains := decr 1 (a_protection_domains a)\<rparr>\<rparr>"
  using assms by (auto simp: destroy_protection_domain_def split: option.splits prod.splits)

lemma destroy_protection_domain_keeps:
  assumes "destroy_protection_domain d im = (b, im')"
  shows "keeps im im'"
  using assms
proof (cases rule: destroy_protection_domain_cases)
  case missing
  then show ?thesis by (simp add: keeps_same)
next
  case (destroyed e regs a)
  show ?thesis
    by (rule keeps_um_for [OF destroyed(3)]) (auto simp: destroyed(4) intro: held_step.domain_destroyed)
qed

text \<open>\<open>named_buffer\<close> is the choice of the identity that opens \<open>create_buffer\<close>.\<close>

definition named_buffer :: "BufferDescriptor \<Rightarrow> Impl \<Rightarrow> BufferId \<times> Impl" where
  "named_buffer d im =
     (if id_valid (bd_id d) then (bd_id d, im)
      else (StrongId (im_next_buffer im), im\<lparr>im_next_buffer := im_next_buffer im + 1\<rparr>))"

lemma named_buffer_frame:
  "named_buffer d im = (i, im0) \<Longrightarrow> im0 = im \<or> im0 = im\<lparr>im_next_buffer := im_next_buffer im + 1\<rparr>"
  by (auto simp: named_buffer_def split: if_splits)

lemma create_buffer_cases:
  assumes "create_buffer d im = (i, im')"
  obtains (refused) j im0 where "named_buffer d im = (j, im0)" "i = no_id" "im' = im0"
  | (created) im0 a where "named_buffer d im = (i, im0)" "map_of (im_buffers im) i = None"
    "im' = im0\<lparr>im_buffers := AList.update i \<lparr>bu_descriptor = d, bu_registered = False\<rparr> (im_buffers im),
               im_acct := (im_acct im)\<lparr>a_logical_buffers := increment 1 (a_logical_buffers (im_acct im)),
                 a_live_buffer_bytes := a\<rparr>\<rparr>"
  | (reallocated) im0 e regs a b where "named_buffer d im = (i, im0)"
    "map_of (im_buffers im) i = Some e"
    "gen_value (bd_generation (bu_descriptor e)) < gen_value (bd_generation d)"
    "um_for (\<lambda>r. r_buffer_id r = i \<and> (is_live (r_lifecycle r) \<or> r_lifecycle r = RL_REGISTERING))
       reallocated_reg account_registration_invalidate (im_registrations im) (im_acct im) = (regs, a)"
    "im' = im0\<lparr>im_registrations := regs,
               im_buffers := AList.update i (e\<lparr>bu_descriptor := d, bu_registered := False\<rparr>) (im_buffers im),
               im_acct := a\<lparr>a_live_buffer_bytes := b\<rparr>\<rparr>"
proof -
  obtain j im0 where name: "named_buffer d im = (j, im0)" by (metis prod.collapse)
  then have same: "im_buffers im0 = im_buffers im" "im_acct im0 = im_acct im"
    "im_registrations im0 = im_registrations im"
    using named_buffer_frame [OF name] by auto
  show ?thesis
  proof (cases "map_of (im_buffers im) j")
    case None
    with assms name show ?thesis
      by (intro created [of im0]) (auto simp: create_buffer_def named_buffer_def [symmetric] same)
  next
    case (Some e)
    obtain regs a where loop: "um_for (\<lambda>r. r_buffer_id r = j \<and>
        (is_live (r_lifecycle r) \<or> r_lifecycle r = RL_REGISTERING)) reallocated_reg
        account_registration_invalidate (im_registrations im) (im_acct im) = (regs, a)"
      by (metis prod.collapse)
    show ?thesis
    proof (cases "gen_value (bd_generation (bu_descriptor e)) < gen_value (bd_generation d)")
      case True
      then have guards: "gen_value (bd_generation d) \<noteq> gen_value (bd_generation (bu_descriptor e))"
        "\<not> gen_value (bd_generation d) < gen_value (bd_generation (bu_descriptor e))" by auto
      let ?old = "bd_byte_length (bu_descriptor e)"
      let ?b = "if bd_byte_length d \<ge> ?old then increment (bd_byte_length d - ?old) (a_live_buffer_bytes a)
        else decr (?old - bd_byte_length d) (a_live_buffer_bytes a)"
      have "create_buffer d im = (j, im0\<lparr>im_registrations := regs,
          im_buffers := AList.update j (e\<lparr>bu_descriptor := d, bu_registered := False\<rparr>) (im_buffers im),
          im_acct := a\<lparr>a_live_buffer_bytes := ?b\<rparr>\<rparr>)"
        using name Some guards
        by (simp add: create_buffer_def named_buffer_def [symmetric] same Let_def loop)
      with assms name Some loop True show ?thesis
        by (intro reallocated [of im0 e regs a ?b]) auto
    next
      case False
      then have "create_buffer d im = (no_id, im0)"
        using name Some
        by (cases "gen_value (bd_generation d) = gen_value (bd_generation (bu_descriptor e))")
          (auto simp: create_buffer_def named_buffer_def [symmetric] same Let_def)
      with assms name show ?thesis
        by (intro refused [of j im0]) auto
    qed
  qed
qed

lemma create_buffer_keeps:
  assumes "create_buffer d im = (i, im')"
  shows "keeps im im'"
  using assms
proof (cases rule: create_buffer_cases)
  case (refused j im0)
  with named_buffer_frame [OF refused(1)] show ?thesis by (auto intro: keeps_same)
next
  case (created im0 a)
  with named_buffer_frame [OF created(1)] show ?thesis by (auto intro: keeps_same)
next
  case (reallocated im0 e regs a b)
  show ?thesis
    using named_buffer_frame [OF reallocated(1)]
    by (intro keeps_um_for [OF reallocated(4)])
      (auto simp: reallocated(5) intro: held_step.reallocated)
qed

lemma acquire_lease_cases:
  assumes "acquire_lease i env needed im = (la, im')"
  obtains (refused) "\<not> la_ok la" "im' = im"
  | (granted) r ls where "la_ok la" "la_lease la = ls" "reg_at im i = Some r" "is_live (r_lifecycle r)"
    "r_freshness r = FR_VALID" "access_superset (r_granted_access r) needed"
    "authority_agrees (im_authority im) env"
    "ls = new_lease (StrongId (im_next_lease im)) i r env needed"
    "im' = im\<lparr>im_next_lease := im_next_lease im + 1,
              im_leases := AList.update (StrongId (im_next_lease im)) ls (im_leases im),
              im_registrations :=
                AList.update i (r\<lparr>r_lease_count := r_lease_count r + 1\<rparr>) (im_registrations im),
              im_acct := (im_acct im)\<lparr>a_active_leases := increment 1 (a_active_leases (im_acct im))\<rparr>\<rparr>"
proof (cases "\<exists>r. reg_at im i = Some r \<and> is_live (r_lifecycle r) \<and> r_freshness r = FR_VALID \<and>
    access_superset (r_granted_access r) needed \<and> authority_agrees (im_authority im) env")
  case False
  then have "\<exists>ex. acquire_lease i env needed im = (la_reject ex, im)"
    by (auto simp: acquire_lease_def reg_at_def is_live_def validate_authority_allow_iff Let_def
        split: option.split)
  with assms show ?thesis by (intro refused) (auto simp: la_reject_def)
next
  case True
  then obtain r where r: "reg_at im i = Some r" "is_live (r_lifecycle r)" "r_freshness r = FR_VALID"
    "access_superset (r_granted_access r) needed" "authority_agrees (im_authority im) env" by blast
  then have "map_of (im_registrations im) i = Some r"
    "\<not> (r_lifecycle r \<noteq> RL_ACTIVE \<and> r_lifecycle r \<noteq> RL_REGISTERED)"
    "ad_outcome (validate_authority (im_authority im) env) = AO_ALLOW"
    by (auto simp: reg_at_def is_live_def validate_authority_allow_iff)
  with assms r show ?thesis
    by (intro granted [OF _ _ r refl]) (auto simp: acquire_lease_def Let_def)
qed

lemma acquire_lease_keeps:
  assumes "acquire_lease i env needed im = (la, im')"
  shows "keeps im im'"
  using assms
proof (cases rule: acquire_lease_cases)
  case refused
  then show ?thesis by (simp add: keeps_same)
next
  case (granted r ls)
  show ?thesis
    by (rule keeps_update [OF _ _ granted(3) held_step.lease_taken [OF granted(4,5)]])
      (simp_all add: granted(9))
qed

lemma release_lease_cases:
  assumes "release_lease lid im = (b, im')"
  obtains (refused) "\<not> b" "im' = im"
    "map_of (im_leases im) lid = None \<or> (\<exists>ls. map_of (im_leases im) lid = Some ls \<and> l_state ls = LS_RELEASED)"
  | (released) ls regs where "b" "map_of (im_leases im) lid = Some ls" "l_state ls \<noteq> LS_RELEASED"
    "regs = (case reg_at im (l_registration ls) of None \<Rightarrow> im_registrations im
             | Some r \<Rightarrow> AList.update (l_registration ls) (drop_lease_count r) (im_registrations im))"
    "im' = im\<lparr>im_leases := AList.update lid (ls\<lparr>l_state := LS_RELEASED\<rparr>) (im_leases im),
              im_registrations := regs,
              im_acct := (im_acct im)\<lparr>a_active_leases := decr 1 (a_active_leases (im_acct im))\<rparr>\<rparr>"
proof (cases "\<exists>ls. map_of (im_leases im) lid = Some ls \<and> l_state ls \<noteq> LS_RELEASED")
  case False
  then have "release_lease lid im = (False, im)"
    by (auto simp: release_lease_def split: option.split)
  with assms False show ?thesis by (intro refused) auto
next
  case True
  then obtain ls where ls: "map_of (im_leases im) lid = Some ls" "l_state ls \<noteq> LS_RELEASED" by blast
  from assms ls(2) show ?thesis
    unfolding release_lease_def ls(1) option.case reg_at_def [symmetric]
    by (intro released [OF _ ls refl]) auto
qed

lemma release_lease_keeps:
  assumes "release_lease lid im = (b, im')"
  shows "keeps im im'"
  using assms
proof (cases rule: release_lease_cases)
  case refused
  then show ?thesis by (simp add: keeps_same)
next
  case (released ls regs)
  show ?thesis
  proof (cases "reg_at im (l_registration ls)")
    case None
    with released(4,5) show ?thesis by (simp add: keeps_same)
  next
    case (Some r)
    show ?thesis
      by (rule keeps_update [OF _ _ Some held_step.lease_dropped])
        (simp_all add: released(5) released(4) Some)
  qed
qed

lemma revoke_cases:
  assumes "revoke i mode im = (rv, im')"
  obtains (refused) "\<not> rv_ok rv" "im' = im"
  | (hard) r ls a where "rv_ok rv" "mode = RV_HARD_REVOKE" "reg_at im i = Some r"
    "is_live (r_lifecycle r)"
    "um_for (\<lambda>l. l_registration l = i \<and> l_state l = LS_ACTIVE) (\<lambda>l. l\<lparr>l_state := LS_REVOKED\<rparr>)
       (\<lambda>l a. a\<lparr>a_active_leases := decr 1 (a_active_leases a)\<rparr>) (im_leases im) (im_acct im) = (ls, a)"
    "im' = im\<lparr>im_registrations := AList.update i (hard_revoked_reg r) (im_registrations im),
              im_leases := ls, im_active_reg := AList.delete (r_buffer_id r) (im_active_reg im),
              im_acct := count_revocation a\<rparr>"
  | (soft) r where "rv_ok rv" "mode = RV_SOFT_REVOKE" "reg_at im i = Some r"
    "is_live (r_lifecycle r)"
    "im' = im\<lparr>im_registrations := AList.update i (soft_revoked_reg r) (im_registrations im),
              im_acct := (if r_lease_count r = 0 then count_revocation (im_acct im) else im_acct im)\<rparr>"
proof (cases "\<exists>r. reg_at im i = Some r \<and> is_live (r_lifecycle r)")
  case False
  then have "\<exists>ex. revoke i mode im = (rv_reject ex, im)"
    by (auto simp: revoke_def reg_at_def is_live_def split: option.split)
  with assms show ?thesis by (intro refused) (auto simp: rv_reject_def)
next
  case True
  then obtain r where r: "reg_at im i = Some r" "is_live (r_lifecycle r)" by blast
  then have guard: "map_of (im_registrations im) i = Some r"
    "\<not> (r_lifecycle r \<noteq> RL_ACTIVE \<and> r_lifecycle r \<noteq> RL_REGISTERED)"
    by (auto simp: reg_at_def is_live_def)
  obtain ls a where loop: "um_for (\<lambda>l. l_registration l = i \<and> l_state l = LS_ACTIVE)
      (\<lambda>l. l\<lparr>l_state := LS_REVOKED\<rparr>) (\<lambda>l a. a\<lparr>a_active_leases := decr 1 (a_active_leases a)\<rparr>)
      (im_leases im) (im_acct im) = (ls, a)" by (rule prod.exhaust)
  show ?thesis
  proof (cases mode)
    case RV_HARD_REVOKE
    have same: "r_buffer_id (hard_revoked_reg r) = r_buffer_id r" by (simp add: hard_revoked_reg_def)
    have "revoke i mode im =
        (\<lparr>rv_ok = True, rv_lifecycle = r_lifecycle (hard_revoked_reg r), rv_keys_invalidated = True,
          rv_explanation = explain_revocation (hard_revoked_reg r) mode True\<rparr>,
         im\<lparr>im_registrations := AList.update i (hard_revoked_reg r) (im_registrations im),
            im_leases := ls, im_active_reg := AList.delete (r_buffer_id r) (im_active_reg im),
            im_acct := count_revocation a\<rparr>)"
      unfolding revoke_def guard(1) option.case Let_def same loop prod.case
      using guard(2) RV_HARD_REVOKE by auto
    with assms RV_HARD_REVOKE show ?thesis
      by (intro hard [OF _ _ r loop]) simp_all
  next
    case RV_SOFT_REVOKE
    from assms guard(2) RV_SOFT_REVOKE show ?thesis
      unfolding revoke_def guard(1) option.case Let_def
      by (intro soft [OF _ _ r]) auto
  qed
qed

lemma revoke_keeps:
  assumes "revoke i mode im = (rv, im')"
  shows "keeps im im'"
  using assms
proof (cases rule: revoke_cases)
  case refused
  then show ?thesis by (simp add: keeps_same)
next
  case (hard r ls a)
  show ?thesis
    by (rule keeps_update [OF _ _ hard(3) held_step.hard_revoked [OF hard(4)]])
      (simp_all add: hard(6))
next
  case (soft r)
  show ?thesis
    by (rule keeps_update [OF _ _ soft(3) held_step.soft_revoked [OF soft(4)]])
      (simp_all add: soft(5))
qed

lemma rotate_key_cases:
  assumes "rotate_key i im = ((ok, ex), im')"
  obtains (refused) "\<not> ok" "im' = im"
  | (rotated) r bs where "ok" "reg_at im i = Some r" "is_live (r_lifecycle r)"
    "bs = (case map_of (im_backends im) (r_backend r) of
             None \<Rightarrow> im_backends im
           | Some b \<Rightarrow>
               if r_backend_handle r = '''' then im_backends im
               else AList.update (r_backend r)
                 (snd (be_rotate (reg_handle r) (rk_key_generation (r_remote_key (rotated_reg r))) b))
                 (im_backends im))"
    "im' = im\<lparr>im_registrations := AList.update i (rotated_reg r) (im_registrations im),
              im_backends := bs\<rparr>"
proof (cases "\<exists>r. reg_at im i = Some r \<and> is_live (r_lifecycle r)")
  case False
  with assms show ?thesis
    by (intro refused) (auto simp: rotate_key_def reg_at_def is_live_def split: option.splits if_splits)
next
  case True
  then obtain r where r: "reg_at im i = Some r" "is_live (r_lifecycle r)" by blast
  then have guard: "map_of (im_registrations im) i = Some r"
    "\<not> (r_lifecycle r \<noteq> RL_ACTIVE \<and> r_lifecycle r \<noteq> RL_REGISTERED)"
    by (auto simp: reg_at_def is_live_def)
  have same: "r_backend (rotated_reg r) = r_backend r" "r_backend_handle (rotated_reg r) = r_backend_handle r"
    "reg_handle (rotated_reg r) = reg_handle r"
    by (simp_all add: rotated_reg_def reg_handle_def)
  from assms guard(2) show ?thesis
    unfolding rotate_key_def guard(1) option.case Let_def same
    by (intro rotated [OF _ r refl]) auto
qed

lemma rotate_key_keeps:
  assumes "rotate_key i im = (x, im')"
  shows "keeps im im'"
proof -
  obtain ok ex where "x = (ok, ex)" by (cases x)
  with assms have "rotate_key i im = ((ok, ex), im')" by simp
  then show ?thesis
  proof (cases rule: rotate_key_cases)
    case refused
    then show ?thesis by (simp add: keeps_same)
  next
    case (rotated r bs)
    show ?thesis
      by (rule keeps_update [OF _ _ rotated(2) held_step.rotated [OF rotated(3)]])
        (simp_all add: rotated(5))
  qed
qed

lemma deregister_prepare_cases:
  assumes "deregister_prepare i im = (x, im')"
  obtains (refused) ex where "x = Inl ex" "im' = im"
    "\<nexists>r. reg_at im i = Some r \<and> r_lease_count r = 0 \<and> deregisterable (r_lifecycle r)"
  | (begun) r where "x = Inr (reg_handle r, r_backend r)" "reg_at im i = Some r"
    "r_lease_count r = 0" "deregisterable (r_lifecycle r)"
    "im' = put_reg i (r\<lparr>r_lifecycle := RL_DEREGISTERING\<rparr>) im"
  using assms
  by (auto simp: deregister_prepare_def reg_at_def word_gt_0 split: option.splits if_splits)

lemma deregister_prepare_evolves:
  assumes "deregister_prepare i im = (x, im')"
  shows "evolves {} im im'"
  using assms
proof (cases rule: deregister_prepare_cases)
  case refused
  then show ?thesis by (simp add: evolves_same)
next
  case (begun r)
  show ?thesis
    by (rule evolves_update [OF _ _ begun(2) reg_step.deregistering [OF begun(4,3)]])
      (simp_all add: begun(5) put_reg_def)
qed

lemma deregister_backend_cases:
  assumes "deregister_backend i h bid im = (x, im')"
  obtains (absent) "x = None" "im' = im" "\<not> id_valid bid \<or> map_of (im_backends im) bid = None"
  | (released) b bo b' where "x = None" "map_of (im_backends im) bid = Some b" "id_valid bid"
    "be_deregister h b = (bo, b')" "ro_ok bo"
    "im' = im\<lparr>im_backends := AList.update bid b' (im_backends im)\<rparr>"
  | (failed) b bo b' ex im0 where "x = Some ex" "map_of (im_backends im) bid = Some b" "id_valid bid"
    "be_deregister h b = (bo, b')" "\<not> ro_ok bo"
    "im0 = im\<lparr>im_backends := AList.update bid b' (im_backends im)\<rparr>"
    "im' = (case reg_at im i of None \<Rightarrow> im0 | Some r \<Rightarrow> put_reg i (r\<lparr>r_lifecycle := RL_FAILED\<rparr>) im0)"
  using assms
  by (auto simp: deregister_backend_def reg_at_def Let_def split: option.splits if_splits prod.splits)

lemma deregister_backend_evolves:
  assumes "deregister_backend i h bid im = (x, im')"
  shows "evolves {} im im'"
  using assms
proof (cases rule: deregister_backend_cases)
  case (failed b bo b' ex im0)
  show ?thesis
  proof (cases "reg_at im i")
    case None
    with failed(6,7) show ?thesis by (simp add: evolves_same)
  next
    case (Some r)
    show ?thesis
      by (rule evolves_update [OF _ _ Some reg_step.deregister_failed])
        (simp_all add: failed(6,7) Some put_reg_def)
  qed
qed (simp_all add: evolves_same)

lemma deregister_finish_cases:
  assumes "deregister_finish i im = ((ok, ex), im')"
  obtains (vanished) "\<not> ok" "im' = im" "reg_at im i = None"
  | (erased) r a where "ok" "reg_at im i = Some r" "a = account_registration_invalidate r (im_acct im)"
    "im' = im\<lparr>im_registrations := AList.delete i (im_registrations im),
              im_active_reg := um_erase_if (\<lambda>v. v = i) (im_active_reg im),
              im_leases := um_erase_if (\<lambda>l. l_registration l = i) (im_leases im),
              im_acct := a\<lparr>a_deregistrations := increment 1 (a_deregistrations a)\<rparr>\<rparr>"
  using assms by (auto simp: deregister_finish_def reg_at_def Let_def split: option.splits)

lemma deregister_finish_evolves:
  assumes "deregister_finish i im = (x, im')"
  shows "evolves {} im im'"
proof -
  obtain ok ex where "x = (ok, ex)" by (cases x)
  with assms have "deregister_finish i im = ((ok, ex), im')" by simp
  then show ?thesis
    by (cases rule: deregister_finish_cases) (auto intro: evolves_same evolves_delete)
qed

lemma validate_keeps: "validate_remote_access q im = (d, im') \<Longrightarrow> keeps im im'"
  using validate_counted [of q im]
  by (auto simp: counted_def on_acct_def intro: keeps_same)

lemma register_buffer_reuse_frame:
  "register_buffer_reuse d bid pd env im = (rr, im') \<Longrightarrow> \<exists>a. im' = im\<lparr>im_acct := a\<rparr>"
  by (auto simp: register_buffer_reuse_def Let_def on_acct_def intro: exI [of _ "im_acct im"]
      split: option.splits if_splits)

section \<open>Operations\<close>

text \<open>
  The calls that hold the mutex throughout, and \<open>OpBackend\<close>, by which the holder of a shared
  pointer changes a backend behind the registry's back in an arbitrary way.
\<close>

datatype AtomicOp =
  OpSetAuthority AuthoritySnapshot
| OpAdvanceEpoch
| OpParticipantRestart
| OpAddBackend "IBackend option"
| OpCreateDomain NodeId ProcessId
| OpDestroyDomain ProtectionDomainId
| OpCreateBuffer BufferDescriptor
| OpReuse BufferDescriptor BackendId ProtectionDomainId AuthorityEnvelope
| OpAcquireLease RegistrationId AuthorityEnvelope AccessMask
| OpReleaseLease RegistrationLeaseId
| OpValidate RemoteAccessRequest
| OpRevoke RegistrationId RevocationMode
| OpRotateKey RegistrationId
| OpBackend BackendId "IBackend \<Rightarrow> IBackend"

fun exec :: "AtomicOp \<Rightarrow> Impl \<Rightarrow> Impl" where
  "exec (OpSetAuthority s) im = set_authority s im"
| "exec OpAdvanceEpoch im = advance_epoch im"
| "exec OpParticipantRestart im = note_participant_restart im"
| "exec (OpAddBackend p) im = snd (add_backend p im)"
| "exec (OpCreateDomain n p) im = snd (create_protection_domain n p im)"
| "exec (OpDestroyDomain d) im = snd (destroy_protection_domain d im)"
| "exec (OpCreateBuffer d) im = snd (create_buffer d im)"
| "exec (OpReuse d bid pd env) im = snd (register_buffer_reuse d bid pd env im)"
| "exec (OpAcquireLease i env m) im = snd (acquire_lease i env m im)"
| "exec (OpReleaseLease l) im = snd (release_lease l im)"
| "exec (OpValidate q) im = snd (validate_remote_access q im)"
| "exec (OpRevoke i mode) im = snd (revoke i mode im)"
| "exec (OpRotateKey i) im = snd (rotate_key i im)"
| "exec (OpBackend bid f) im =
     (case map_of (im_backends im) bid of None \<Rightarrow> im
      | Some b \<Rightarrow> im\<lparr>im_backends := AList.update bid (f b) (im_backends im)\<rparr>)"

lemma exec_keeps: "keeps im (exec op im)"
proof (cases op)
  case (OpReuse d bid pd env)
  then show ?thesis
    using register_buffer_reuse_frame [of d bid pd env im]
    by (auto simp: prod_eq_iff intro: keeps_same)
next
  case (OpDestroyDomain d)
  then show ?thesis by (simp add: destroy_protection_domain_keeps [OF surjective_pairing])
next
  case (OpCreateBuffer d)
  then show ?thesis by (simp add: create_buffer_keeps [OF surjective_pairing])
next
  case (OpAcquireLease i env m)
  then show ?thesis by (simp add: acquire_lease_keeps [OF surjective_pairing])
next
  case (OpReleaseLease l)
  then show ?thesis by (simp add: release_lease_keeps [OF surjective_pairing])
next
  case (OpValidate q)
  then show ?thesis by (simp add: validate_keeps [OF surjective_pairing])
next
  case (OpRevoke i mode)
  then show ?thesis by (simp add: revoke_keeps [OF surjective_pairing])
next
  case (OpRotateKey i)
  then show ?thesis by (simp add: rotate_key_keeps [OF surjective_pairing])
qed (auto simp: set_authority_def advance_epoch_def note_participant_restart_def add_backend_def
    create_protection_domain_def Let_def split: option.splits intro: keeps_same)


lemma exec_evolves: "evolves {} im (exec op im)"
  by (rule keeps_evolves [OF exec_keeps])

end
