(* ===== verification/Frames.thy ===== *)
theory Frames
  imports Runs
begin

text \<open>
  What the operations that hold the mutex throughout leave alone: for each table of the registry,
  the operations that can change it. The invariants of the registry rest on these lemmas for every
  operation they do not have to look into.
\<close>

text \<open>The definitions of the operations without a table of outcomes, and the two that only count.\<close>

lemmas plain_ops = set_authority_def advance_epoch_def note_participant_restart_def add_backend_def
  create_protection_domain_def

lemma exec_validate: "\<exists>f. exec (OpValidate q) im = on_acct f im"
  using validate_counted [of q im] by (auto simp: counted_def)

lemma exec_reuse: "\<exists>a. exec (OpReuse d bid pd env) im = im\<lparr>im_acct := a\<rparr>"
  using register_buffer_reuse_frame [OF surjective_pairing, of d bid pd env im] by simp

lemma exec_domains:
  assumes "\<And>n p. op \<noteq> OpCreateDomain n p" and "\<And>d. op \<noteq> OpDestroyDomain d"
  shows "im_domains (exec op im) = im_domains im"
proof (cases op)
  case (OpValidate q)
  with exec_validate [of q im] show ?thesis by (auto simp: on_acct_def)
next
  case (OpReuse d bid pd env)
  with exec_reuse [of d bid pd env im] show ?thesis by auto
qed (use assms in \<open>auto simp: plain_ops create_buffer_def acquire_lease_def release_lease_def
    revoke_def rotate_key_def Let_def split: option.split prod.split\<close>)

lemma exec_buffers:
  assumes "\<And>d. op \<noteq> OpCreateBuffer d"
  shows "im_buffers (exec op im) = im_buffers im"
proof (cases op)
  case (OpValidate q)
  with exec_validate [of q im] show ?thesis by (auto simp: on_acct_def)
next
  case (OpReuse d bid pd env)
  with exec_reuse [of d bid pd env im] show ?thesis by auto
qed (use assms in \<open>auto simp: plain_ops destroy_protection_domain_def acquire_lease_def release_lease_def
    revoke_def rotate_key_def Let_def split: option.split prod.split\<close>)

lemma exec_slots:
  assumes "\<And>i m. op \<noteq> OpRevoke i m"
  shows "im_active_reg (exec op im) = im_active_reg im"
proof (cases op)
  case (OpValidate q)
  with exec_validate [of q im] show ?thesis by (auto simp: on_acct_def)
next
  case (OpReuse d bid pd env)
  with exec_reuse [of d bid pd env im] show ?thesis by auto
qed (use assms in \<open>auto simp: plain_ops destroy_protection_domain_def create_buffer_def acquire_lease_def
    release_lease_def rotate_key_def Let_def split: option.split prod.split\<close>)

lemma exec_backends:
  assumes "\<And>p. op \<noteq> OpAddBackend p" and "\<And>i. op \<noteq> OpRotateKey i" and "\<And>bid f. op \<noteq> OpBackend bid f"
  shows "im_backends (exec op im) = im_backends im"
proof (cases op)
  case (OpValidate q)
  with exec_validate [of q im] show ?thesis by (auto simp: on_acct_def)
next
  case (OpReuse d bid pd env)
  with exec_reuse [of d bid pd env im] show ?thesis by auto
qed (use assms in \<open>auto simp: plain_ops destroy_protection_domain_def create_buffer_def acquire_lease_def
    release_lease_def revoke_def Let_def split: option.split prod.split\<close>)

text \<open>Leases are taken, released, and revoked with their registration.\<close>

lemma exec_leases:
  assumes "\<And>i env m. op \<noteq> OpAcquireLease i env m" and "\<And>l. op \<noteq> OpReleaseLease l"
    and "\<And>i m. op \<noteq> OpRevoke i m"
  shows "im_leases (exec op im) = im_leases im" and "im_next_lease (exec op im) = im_next_lease im"
proof -
  have "im_leases (exec op im) = im_leases im \<and> im_next_lease (exec op im) = im_next_lease im"
  proof (cases op)
    case (OpValidate q)
    with exec_validate [of q im] show ?thesis by (auto simp: on_acct_def)
  next
    case (OpReuse d bid pd env)
    with exec_reuse [of d bid pd env im] show ?thesis by auto
  qed (use assms in \<open>auto simp: plain_ops destroy_protection_domain_def create_buffer_def rotate_key_def
      Let_def split: option.split prod.split\<close>)
  then show "im_leases (exec op im) = im_leases im" "im_next_lease (exec op im) = im_next_lease im"
    by simp_all
qed

text \<open>Lease counts move with the leases only, and loops over the records keep them.\<close>

lemma lease_counts_loop:
  assumes "um_for p f g (im_registrations im) acc = (regs, a)" and "im_registrations im' = regs"
    and "\<And>r. r_lease_count (f r) = r_lease_count r"
  shows "map_option r_lease_count (reg_at im' i) = map_option r_lease_count (reg_at im i)"
  by (cases "reg_at im i") (simp_all add: reg_at_um_for [OF assms(1,2)] assms(3))

lemma exec_lease_counts:
  assumes "\<And>i env m. op \<noteq> OpAcquireLease i env m" and "\<And>l. op \<noteq> OpReleaseLease l"
  shows "map_option r_lease_count (reg_at (exec op im) i) = map_option r_lease_count (reg_at im i)"
proof (cases op)
  case (OpDestroyDomain d)
  obtain b im' where c: "destroy_protection_domain d im = (b, im')" by (rule prod.exhaust)
  from c have "map_option r_lease_count (reg_at im' i) = map_option r_lease_count (reg_at im i)"
  proof (cases rule: destroy_protection_domain_cases)
    case (destroyed e regs a)
    then show ?thesis by (intro lease_counts_loop [OF destroyed(3)]) (simp_all add: domain_destroyed_reg_def)
  qed simp
  then show ?thesis by (simp add: OpDestroyDomain c)
next
  case (OpCreateBuffer d)
  obtain j im' where c: "create_buffer d im = (j, im')" by (rule prod.exhaust)
  from c have "map_option r_lease_count (reg_at im' i) = map_option r_lease_count (reg_at im i)"
  proof (cases rule: create_buffer_cases)
    case (reallocated im0 e regs a b)
    with named_buffer_frame [OF reallocated(1)] show ?thesis
      by (intro lease_counts_loop [OF reallocated(4)]) (auto simp: reallocated_reg_def)
  qed (use named_buffer_frame [of d im] in \<open>fastforce simp: reg_at_def\<close>)+
  then show ?thesis by (simp add: OpCreateBuffer c)
next
  case (OpRevoke j m)
  obtain rv im' where c: "revoke j m im = (rv, im')" by (rule prod.exhaust)
  from c have "map_option r_lease_count (reg_at im' i) = map_option r_lease_count (reg_at im i)"
    by (cases rule: revoke_cases) (auto simp: reg_at_def um_simps hard_revoked_reg_def soft_revoked_reg_def)
  then show ?thesis by (simp add: OpRevoke c)
next
  case (OpRotateKey j)
  obtain ok ex im' where c: "rotate_key j im = ((ok, ex), im')" by (metis surj_pair)
  from c have "map_option r_lease_count (reg_at im' i) = map_option r_lease_count (reg_at im i)"
    by (cases rule: rotate_key_cases) (auto simp: reg_at_def um_simps rotated_reg_def)
  then show ?thesis by (simp add: OpRotateKey c)
next
  case (OpValidate q)
  with exec_validate [of q im] show ?thesis by (auto simp: on_acct_def reg_at_def)
next
  case (OpReuse d bid pd env)
  with exec_reuse [of d bid pd env im] show ?thesis by (auto simp: reg_at_def)
qed (use assms in \<open>auto simp: plain_ops reg_at_def Let_def split: option.split\<close>)

end
