(* ===== verification/Concurrency.thy ===== *)
theory Concurrency
  imports Frames
begin

text \<open>
  The registry with several threads in it. A state is the shared \<open>Impl\<close> with the list of the
  \<open>register_buffer\<close> and \<open>deregister\<close> calls that are between two of their critical sections;
  \<open>sys_step\<close> takes one critical section, or one backend call, of any thread, for every operation of
  the registry but \<open>recover\<close>; \<open>save\<close> is no step because it changes nothing in the registry. So an
  interleaving is, here and in the theories that build on \<open>sys_run\<close>, what the threads do between
  the creation of a registry and the next recovery; \<open>Lifetime\<close> adds recovery as a step, and
  \<open>Recovery\<close> shows which of these facts it breaks. Backend calls are atomic steps (the C++ code makes them
  without the mutex), and registration identities do not wrap around: \<open>prepare\<close> steps only
  below the last value of the 64-bit counter.
\<close>

section \<open>Interleaved execution\<close>

datatype Pending =
  PendingRegister BufferDescriptor BackendId RegistrationRecord RegistrationContext
| PendingCommit BackendId RegistrationRecord BackendRegistration
| PendingDeregister RegistrationId RegisterHandle BackendId
| PendingFinish RegistrationId

inductive sys_step :: "Impl \<times> Pending list \<Rightarrow> Impl \<times> Pending list \<Rightarrow> bool" where
  atomic: "sys_step (im, ps) (exec op im, ps)"
| register_refused:
    "register_prepare d bid pd env im = (Inl rr, im') \<Longrightarrow> sys_step (im, ps) (im', ps)"
| register_begin:
    "register_prepare d bid pd env im = (Inr (r, cx), im') \<Longrightarrow> im_next_registration im \<noteq> - 1 \<Longrightarrow>
       sys_step (im, ps) (im', PendingRegister d bid r cx # ps)"
| register_backend_ok:
    "register_backend d bid cx im = (Inr bout, im') \<Longrightarrow>
       sys_step (im, ps @ PendingRegister d bid r cx # qs) (im', ps @ PendingCommit bid r bout # qs)"
| register_backend_failed:
    "register_backend d bid cx im = (Inl rr, im') \<Longrightarrow>
       sys_step (im, ps @ PendingRegister d bid r cx # qs) (im', ps @ qs)"
| register_end:
    "register_commit r bid bout im = (rr, im') \<Longrightarrow>
       sys_step (im, ps @ PendingCommit bid r bout # qs) (im', ps @ qs)"
| deregister_refused:
    "deregister_prepare i im = (Inl ex, im') \<Longrightarrow> sys_step (im, ps) (im', ps)"
| deregister_begin:
    "deregister_prepare i im = (Inr (h, bid), im') \<Longrightarrow>
       sys_step (im, ps) (im', PendingDeregister i h bid # ps)"
| deregister_backend_ok:
    "deregister_backend i h bid im = (None, im') \<Longrightarrow>
       sys_step (im, ps @ PendingDeregister i h bid # qs) (im', ps @ PendingFinish i # qs)"
| deregister_backend_failed:
    "deregister_backend i h bid im = (Some ex, im') \<Longrightarrow>
       sys_step (im, ps @ PendingDeregister i h bid # qs) (im', ps @ qs)"
| deregister_end:
    "deregister_finish i im = (x, im') \<Longrightarrow>
       sys_step (im, ps @ PendingFinish i # qs) (im', ps @ qs)"


abbreviation sys_run :: "Impl \<times> Pending list \<Rightarrow> Impl \<times> Pending list \<Rightarrow> bool" where
  "sys_run \<equiv> sys_step\<^sup>*\<^sup>*"

text \<open>A call that runs without interruption is one of the interleavings; it hands out no lease on the way.\<close>

lemma register_buffer_quiet_runs:
  fixes im :: Impl
  defines "quiet \<equiv> \<lambda>s s'. sys_step s s' \<and> im_next_lease (fst s) = im_next_lease im"
  assumes "im_next_registration im \<noteq> - 1"
  shows "quiet\<^sup>*\<^sup>* (im, ps) (snd (register_buffer d bid pd env im), ps)"
proof -
  obtain x im1 where prep: "register_prepare d bid pd env im = (x, im1)" by (rule prod.exhaust)
  from prep have n1: "im_next_lease im1 = im_next_lease im" by (cases rule: register_prepare_cases) simp_all
  show ?thesis
  proof (cases x)
    case (Inl rr)
    with prep show ?thesis
      by (auto simp: register_buffer_def quiet_def intro: sys_step.register_refused)
  next
    case (Inr rc)
    obtain r cx where rc: "rc = (r, cx)" by (rule prod.exhaust)
    obtain y im2 where call: "register_backend d bid cx im1 = (y, im2)" by (rule prod.exhaust)
    from register_backend_frame [OF call] n1 have n2: "im_next_lease im2 = im_next_lease im" by auto
    have 1: "quiet (im, ps) (im1, [] @ PendingRegister d bid r cx # ps)"
      using sys_step.register_begin [of d bid pd env im r cx im1 ps] prep Inr rc assms(2)
      by (simp add: quiet_def)
    show ?thesis
    proof (cases y)
      case (Inl rr)
      with call n1 have "quiet (im1, [] @ PendingRegister d bid r cx # ps) (im2, [] @ ps)"
        unfolding quiet_def by (intro conjI sys_step.register_backend_failed) auto
      with 1 prep Inr call Inl rc show ?thesis
        by (auto simp: register_buffer_def intro: converse_rtranclp_into_rtranclp)
    next
      case (Inr bout)
      with call n1 have 2: "quiet (im1, [] @ PendingRegister d bid r cx # ps)
          (im2, [] @ PendingCommit bid r bout # ps)"
        unfolding quiet_def by (intro conjI sys_step.register_backend_ok) auto
      have 3: "quiet (im2, [] @ PendingCommit bid r bout # ps)
          (snd (register_commit r bid bout im2), [] @ ps)"
        unfolding quiet_def by (intro conjI sys_step.register_end [OF surjective_pairing]) (simp add: n2)
      have "register_buffer d bid pd env im = register_commit r bid bout im2"
        using prep \<open>x = Inr rc\<close> rc call Inr by (simp add: register_buffer_def)
      with 1 2 3 show ?thesis
        by (metis append_Nil converse_rtranclp_into_rtranclp rtranclp.rtrancl_refl)
    qed
  qed
qed

lemma register_buffer_runs:
  assumes "im_next_registration im \<noteq> - 1"
  shows "sys_run (im, ps) (snd (register_buffer d bid pd env im), ps)"
  by (rule rtranclp_mono [THEN predicate2D, OF _ register_buffer_quiet_runs [OF assms]]) auto

section \<open>What every step does to the registrations\<close>

fun pending_id :: "Pending \<Rightarrow> RegistrationId list" where
  "pending_id (PendingRegister d bid r cx) = [r_id r]"
| "pending_id (PendingCommit bid r bout) = [r_id r]"
| "pending_id (PendingDeregister i h bid) = []"
| "pending_id (PendingFinish i) = []"

text \<open>The identities handed out to registrations that are not committed yet.\<close>

definition pending_ids :: "Pending list \<Rightarrow> RegistrationId list" where
  "pending_ids ps = concat (map pending_id ps)"

lemma pending_ids_simps [simp]:
  "pending_ids [] = []"
  "pending_ids (p # ps) = pending_id p @ pending_ids ps"
  "pending_ids (ps @ qs) = pending_ids ps @ pending_ids qs"
  by (simp_all add: pending_ids_def)

lemma u64_inc: "(x :: u64) \<noteq> - 1 \<Longrightarrow> x < x + 1"
  by (metis add_eq_0_iff inc_less_eq_triv_imp not_less)

lemma evolves_mono: "evolves {} im im' \<Longrightarrow> evolves N im im'"
  by (auto simp: evolves_def)

text \<open>What a step does to the records and to the calls in progress, as an elimination rule.\<close>

lemma sys_step_shape:
  assumes "sys_step (im, ps) (im', ps')"
  obtains (kept) "keeps im im'" "ps' = ps"
  | (reserved) d bid r cx where "reg_at im' = reg_at im" "r_id r = StrongId (im_next_registration im)"
      "im_next_registration im \<noteq> - 1" "im_next_registration im' = im_next_registration im + 1"
      "ps' = PendingRegister d bid r cx # ps"
  | (called) as d bid r cx mid bs where "keeps im im'" "ps = as @ PendingRegister d bid r cx # bs"
      "ps' = as @ mid @ bs" "mid = [] \<or> (\<exists>bout. mid = [PendingCommit bid r bout])"
  | (committed) as bid r bout bs where "ps = as @ PendingCommit bid r bout # bs" "ps' = as @ bs"
      "reg_at im' = (reg_at im)(r_id r \<mapsto> committed_record r bid bout (im_authority im))"
      "im_next_registration im' = im_next_registration im"
  | (begun) i r h bid where "ps' = PendingDeregister i h bid # ps" "reg_at im i = Some r"
      "r_lease_count r = 0" "deregisterable (r_lifecycle r)"
      "reg_at im' = (reg_at im)(i \<mapsto> r\<lparr>r_lifecycle := RL_DEREGISTERING\<rparr>)"
      "im_next_registration im' = im_next_registration im"
  | (released) as i h bid bs where "keeps im im'" "ps = as @ PendingDeregister i h bid # bs"
      "ps' = as @ PendingFinish i # bs"
  | (failed) as i h bid bs where "ps = as @ PendingDeregister i h bid # bs" "ps' = as @ bs"
      "reg_at im' = (case reg_at im i of None \<Rightarrow> reg_at im
         | Some r \<Rightarrow> (reg_at im)(i \<mapsto> r\<lparr>r_lifecycle := RL_FAILED\<rparr>))"
      "im_next_registration im' = im_next_registration im"
  | (finished) as i bs where "ps = as @ PendingFinish i # bs" "ps' = as @ bs"
      "reg_at im' = (reg_at im)(i := None)" "im_next_registration im' = im_next_registration im"
  using assms
proof (cases rule: sys_step.cases)
  case (atomic op)
  then show ?thesis by (intro kept) (simp_all add: exec_keeps)
next
  case (register_refused d bid pd env rr)
  from register_refused(2) show ?thesis
    by (cases rule: register_prepare_cases) (simp_all add: kept keeps_same register_refused(1))
next
  case (register_begin d bid pd env r cx)
  from register_begin(2) show ?thesis
    by (cases rule: register_prepare_cases)
      (use register_begin(1,3) in \<open>auto simp: reg_at_def intro!: reserved\<close>)
next
  case (register_backend_ok d bid cx bout as r bs)
  with register_backend_frame [OF register_backend_ok(3)] show ?thesis
    by (intro called [of as d bid r cx bs "[PendingCommit bid r bout]"]) (auto intro: keeps_same)
next
  case (register_backend_failed d bid cx rr as r bs)
  with register_backend_frame [OF register_backend_failed(3)] show ?thesis
    by (intro called [of as d bid r cx bs "[]"]) (auto intro: keeps_same)
next
  case (register_end r bid bout rr as bs)
  from register_end(3) show ?thesis
    by (intro committed [OF register_end(1,2)])
      (auto simp: register_commit_def Let_def reg_at_def um_simps)
next
  case (deregister_refused i ex)
  from deregister_refused(2) show ?thesis
    by (cases rule: deregister_prepare_cases) (simp_all add: kept keeps_same deregister_refused(1))
next
  case (deregister_begin i h bid)
  from deregister_begin(2) show ?thesis
    by (cases rule: deregister_prepare_cases)
      (use deregister_begin(1) in \<open>auto simp: put_reg_def reg_at_def um_simps intro!: begun\<close>)
next
  case (deregister_backend_ok i h bid as bs)
  from deregister_backend_ok(3) show ?thesis
    by (cases rule: deregister_backend_cases)
      (use deregister_backend_ok(1,2) in \<open>auto intro!: released keeps_same\<close>)
next
  case (deregister_backend_failed i h bid ex as bs)
  from deregister_backend_failed(3) show ?thesis
    by (cases rule: deregister_backend_cases)
      (auto simp: put_reg_def reg_at_def um_simps split: option.split
        intro!: failed [OF deregister_backend_failed(1,2)])
next
  case (deregister_end i x as bs)
  obtain ok ex where x: "x = (ok, ex)" by (rule prod.exhaust)
  from deregister_end(3) [unfolded x] show ?thesis
    by (cases rule: deregister_finish_cases)
      (auto simp: reg_at_def um_simps fun_upd_idem intro!: finished [OF deregister_end(1,2)])
qed

text \<open>Identities become pending only when they are new, and a commit inserts a pending one.\<close>

lemma sys_step_evolves:
  assumes "sys_step (im, ps) (im', ps')"
  shows "evolves (set (pending_ids ps)) im im'"
    and "set (pending_ids ps') \<subseteq> set (pending_ids ps) \<or>
      pending_ids ps' = StrongId (im_next_registration im) # pending_ids ps \<and>
      im_next_registration im < im_next_registration im'"
proof -
  have "evolves (set (pending_ids ps)) im im' \<and>
    (set (pending_ids ps') \<subseteq> set (pending_ids ps) \<or>
      pending_ids ps' = StrongId (im_next_registration im) # pending_ids ps \<and>
      im_next_registration im < im_next_registration im')"
    using assms
  proof (cases rule: sys_step.cases)
    case (register_refused d bid pd env rr)
    from register_refused(2) show ?thesis
      by (cases rule: register_prepare_cases) (simp_all add: register_refused(1) evolves_same)
  next
    case (register_begin d bid pd env r cx)
    have "evolves {} im im'"
      by (rule register_prepare_evolves [OF register_begin(2,3)])
    with register_begin(2) u64_inc [OF register_begin(3)] show ?thesis
      by (cases rule: register_prepare_cases) (auto simp: register_begin(1) intro: evolves_mono)
  next
    case (register_end r bid bout rr qs qs')
    have "evolves {r_id r} im im'" by (rule register_commit_evolves [OF register_end(3)])
    then show ?thesis using register_end(1,2) by (auto simp: evolves_def)
  next
    case (deregister_end i x qs qs')
    have "evolves {} im im'" by (rule deregister_finish_evolves [OF deregister_end(3)])
    then show ?thesis using deregister_end(1,2) by (auto intro: evolves_mono)
  qed (auto intro: evolves_mono exec_evolves register_backend_evolves deregister_prepare_evolves
      deregister_backend_evolves)
  then show "evolves (set (pending_ids ps)) im im'"
    and "set (pending_ids ps') \<subseteq> set (pending_ids ps) \<or>
      pending_ids ps' = StrongId (im_next_registration im) # pending_ids ps \<and>
      im_next_registration im < im_next_registration im'" by blast+
qed

section \<open>Dead registrations stay dead\<close>

text \<open>\<open>retired i\<close>: the identity was handed out, no call is about to commit it, and if the
  registry still holds the registration its record is not fresh.\<close>

definition retired :: "RegistrationId \<Rightarrow> Impl \<times> Pending list \<Rightarrow> bool" where
  "retired i s \<longleftrightarrow>
     id_value i < im_next_registration (fst s) \<and> i \<notin> set (pending_ids (snd s)) \<and>
     (\<forall>r. reg_at (fst s) i = Some r \<longrightarrow> r_freshness r \<noteq> FR_VALID)"

lemma retired_step:
  assumes "sys_step s s'" and "retired i s"
  shows "retired i s'"
proof -
  obtain im ps im' ps' where s: "s = (im, ps)" and s': "s' = (im', ps')" by (metis surj_pair)
  with assms(2) have i: "id_value i < im_next_registration im" "i \<notin> set (pending_ids ps)"
    "\<And>r. reg_at im i = Some r \<Longrightarrow> r_freshness r \<noteq> FR_VALID"
    by (auto simp: retired_def)
  note step = assms(1) [unfolded s s']
  note ev = sys_step_evolves(1) [OF step]
  from ev i(1) have "id_value i < im_next_registration im'"
    by (auto simp: evolves_def)
  moreover have "i \<notin> set (pending_ids ps')"
    using sys_step_evolves(2) [OF step] i(1,2) by auto
  moreover have "r_freshness r' \<noteq> FR_VALID" if "reg_at im' i = Some r'" for r'
    using evolvesD [OF ev i(2) that] i(3) reg_step_freshness by blast
  ultimately show ?thesis by (simp add: s' retired_def)
qed

lemma retired_run: "sys_run s s' \<Longrightarrow> retired i s \<Longrightarrow> retired i s'"
  by (induction rule: rtranclp_induct) (auto intro: retired_step)

lemma not_fresh_refused:
  assumes "\<And>r. reg_at im (q_source_registration q) = Some r \<Longrightarrow> r_freshness r \<noteq> FR_VALID"
  shows "ad_outcome (fst (validate_remote_access q im)) \<noteq> AO_ALLOW"
  using assms by (auto simp: validate_allow_iff access_ok_def record_permits_def reg_at_def)

section \<open>Old keys stay old\<close>

text \<open>\<open>key_beyond i g\<close>: the key of registration \<open>i\<close> has left the generation \<open>g\<close> behind. The
  hypothesis of a run is that no key reaches the last generation of the 64-bit counter.\<close>

definition key_beyond :: "RegistrationId \<Rightarrow> RemoteKeyGeneration \<Rightarrow> Impl \<times> Pending list \<Rightarrow> bool" where
  "key_beyond i g s \<longleftrightarrow>
     id_value i < im_next_registration (fst s) \<and> i \<notin> set (pending_ids (snd s)) \<and>
     (\<forall>r. reg_at (fst s) i = Some r \<longrightarrow> gen_value g < key_gen r)"

text \<open>A step that finds no key at the last generation.\<close>

definition keyed_step :: "Impl \<times> Pending list \<Rightarrow> Impl \<times> Pending list \<Rightarrow> bool" where
  "keyed_step s s' \<longleftrightarrow>
     sys_step s s' \<and> (\<forall>i r. reg_at (fst s) i = Some r \<longrightarrow> key_gen r \<noteq> - 1)"

lemma key_beyond_step:
  assumes "keyed_step s s'" and "key_beyond i g s"
  shows "key_beyond i g s'"
proof -
  obtain im ps im' ps' where s: "s = (im, ps)" and s': "s' = (im', ps')" by (metis surj_pair)
  with assms have i: "id_value i < im_next_registration im" "i \<notin> set (pending_ids ps)"
    "\<And>r. reg_at im i = Some r \<Longrightarrow> gen_value g < key_gen r \<and> key_gen r \<noteq> - 1"
    and step: "sys_step (im, ps) (im', ps')"
    by (auto simp: key_beyond_def keyed_step_def)
  note ev = sys_step_evolves(1) [OF step]
  from ev i(1) have "id_value i < im_next_registration im'"
    by (auto simp: evolves_def)
  moreover have "i \<notin> set (pending_ids ps')"
    using sys_step_evolves(2) [OF step] i(1,2) by auto
  moreover have "gen_value g < key_gen r'" if "reg_at im' i = Some r'" for r'
  proof -
    from evolvesD [OF ev i(2) that] obtain r where r: "reg_at im i = Some r" "r' = r \<or> reg_step r r'"
      by blast
    from i(3) [OF r(1)] have "gen_value g < key_gen r" "key_gen r < key_gen r + 1"
      using u64_inc by blast+
    with r(2) reg_step_key show ?thesis by (metis less_trans)
  qed
  ultimately show ?thesis by (simp add: s' key_beyond_def)
qed

lemma key_beyond_run: "keyed_step\<^sup>*\<^sup>* s s' \<Longrightarrow> key_beyond i g s \<Longrightarrow> key_beyond i g s'"
  by (induction rule: rtranclp_induct) (auto intro: key_beyond_step)

lemma old_key_refused:
  assumes "key_beyond (q_source_registration q) (q_expected_remote_key_generation q) s"
    and "gen_valid (q_expected_remote_key_generation q)"
  shows "ad_outcome (fst (validate_remote_access q (fst s))) \<noteq> AO_ALLOW"
  using assms
  by (auto simp: validate_allow_iff access_ok_def record_permits_def expects_def reg_at_def
      key_beyond_def key_gen_def)

section \<open>Reachable states\<close>

text \<open>Pending identities were handed out and are not those of committed registrations.\<close>

definition sys_inv :: "Impl \<times> Pending list \<Rightarrow> bool" where
  "sys_inv s \<longleftrightarrow>
     distinct (pending_ids (snd s)) \<and>
     (\<forall>i \<in> set (pending_ids (snd s)). id_value i < im_next_registration (fst s) \<and> reg_at (fst s) i = None) \<and>
     (\<forall>i r. reg_at (fst s) i = Some r \<longrightarrow> id_value i < im_next_registration (fst s))"

lemma sys_inv_init: "sys_inv (new_impl, [])"
  by (simp add: sys_inv_def new_impl_def reg_at_def)

lemma sys_inv_evolves:
  assumes "sys_inv (im, ps)" and "evolves {} im im'"
    and "set (pending_ids ps') \<subseteq> set (pending_ids ps)" and "distinct (pending_ids ps')"
  shows "sys_inv (im', ps')"
proof -
  have none: "reg_at im' i = None" if "reg_at im i = None" for i
    using evolvesD [OF assms(2), of i] that by (cases "reg_at im' i") auto
  have grow: "im_next_registration im \<le> im_next_registration im'"
    using assms(2) by (simp add: evolves_def)
  have "id_value i < im_next_registration im'" if "reg_at im' i = Some r'" for i r'
    using evolvesD [OF assms(2) _ that] assms(1) grow by (fastforce simp: sys_inv_def)
  moreover have "id_value i < im_next_registration im' \<and> reg_at im' i = None"
    if "i \<in> set (pending_ids ps')" for i
    using that assms(1,3) none grow by (fastforce simp: sys_inv_def)
  ultimately show ?thesis using assms(4) by (simp add: sys_inv_def)
qed

lemma sys_inv_quiet:
  assumes "sys_inv s" and "s = (im, ps)" and "evolves {} im im'"
    and "set (pending_ids ps') \<subseteq> set (pending_ids ps)"
    and "distinct (pending_ids ps) \<Longrightarrow> distinct (pending_ids ps')"
  shows "sys_inv (im', ps')"
proof -
  from assms(1,2) have "distinct (pending_ids ps)" by (simp add: sys_inv_def)
  with assms show ?thesis by (blast intro: sys_inv_evolves)
qed

lemma sys_inv_step:
  assumes "sys_step s s'" and "sys_inv s"
  shows "sys_inv s'"
proof -
  obtain im ps im' ps' where s: "s = (im, ps)" "s' = (im', ps')" by (metis surj_pair)
  note inv = assms(2) [unfolded s(1)]
  note quiet = sys_inv_quiet [OF inv refl keeps_evolves]
  from assms(1) [unfolded s] have "sys_inv (im', ps')"
  proof (cases rule: sys_step_shape)
    case (reserved d bid r cx)
    have inc: "im_next_registration im < im_next_registration im + 1" by (rule u64_inc [OF reserved(3)])
    have "reg_at im (r_id r) = None"
      using inv by (cases "reg_at im (r_id r)") (fastforce simp: sys_inv_def reserved(2))+
    moreover have "r_id r \<notin> set (pending_ids ps)" using inv by (force simp: sys_inv_def reserved(2))
    ultimately show ?thesis
      using inv inc by (auto simp: sys_inv_def reserved intro: less_trans)
  next
    case (committed as bid r bout bs)
    with inv show ?thesis by (auto simp: sys_inv_def)
  next
    case (failed as i h bid bs)
    with inv show ?thesis by (auto simp: sys_inv_def split: option.splits if_splits)
  next
    case (begun i r h bid)
    with inv show ?thesis by (auto simp: sys_inv_def)
  next
    case (finished as i bs)
    with inv show ?thesis by (auto simp: sys_inv_def split: if_splits)
  qed (rule quiet; force)+
  then show ?thesis by (simp add: s(2))
qed

lemma sys_inv_run: "sys_run s s' \<Longrightarrow> sys_inv s \<Longrightarrow> sys_inv s'"
  by (induction rule: rtranclp_induct) (auto intro: sys_inv_step)

text \<open>A registration the registry holds is not about to be committed.\<close>

lemma sys_inv_held:
  "sys_inv s \<Longrightarrow> reg_at (fst s) i = Some r \<Longrightarrow>
     id_value i < im_next_registration (fst s) \<and> i \<notin> set (pending_ids (snd s))"
  by (fastforce simp: sys_inv_def)

lemma revoke_not_fresh:
  assumes "rv_ok (fst (revoke i mode im))"
  shows "\<exists>r. reg_at (snd (revoke i mode im)) i = Some r \<and> r_freshness r = FR_STALE"
    and "reg_at im i \<noteq> None"
    and "im_next_registration (snd (revoke i mode im)) = im_next_registration im"
proof -
  obtain rv im' where rev: "revoke i mode im = (rv, im')" by (rule prod.exhaust)
  from rev have "(\<exists>r. reg_at im' i = Some r \<and> r_freshness r = FR_STALE) \<and> reg_at im i \<noteq> None \<and>
      im_next_registration im' = im_next_registration im"
    by (cases rule: revoke_cases)
      (use assms rev in \<open>auto simp: reg_at_def um_simps hard_revoked_reg_def soft_revoked_reg_def\<close>)
  then show "\<exists>r. reg_at (snd (revoke i mode im)) i = Some r \<and> r_freshness r = FR_STALE"
    and "reg_at im i \<noteq> None"
    and "im_next_registration (snd (revoke i mode im)) = im_next_registration im"
    by (simp_all add: rev)
qed

text \<open>A registration that no record holds any more, or holds without freshness, is retired.\<close>

lemma retired_after:
  assumes "sys_inv (im, ps)" and "reg_at im i \<noteq> None" and "im_next_registration im' = im_next_registration im"
    and "\<And>r. reg_at im' i = Some r \<Longrightarrow> r_freshness r \<noteq> FR_VALID"
  shows "retired i (im', ps)"
  using assms sys_inv_held [OF assms(1)] by (auto simp: retired_def)

section \<open>Properties\<close>

text \<open>C3. Revocation is permanent under every interleaving: once \<open>revoke\<close>, hard or soft, has
  succeeded on a registration, no later request that names it is ever allowed, whatever the
  other threads do in between, whatever the authority is set to, and however the backends are
  changed.\<close>

theorem revocation_is_permanent:
  assumes "sys_run (new_impl, []) (im, ps)" and "rv_ok (fst (revoke i mode im))"
    and "sys_run (snd (revoke i mode im), ps) (im', ps')" and "q_source_registration q = i"
  shows "ad_outcome (fst (validate_remote_access q im')) \<noteq> AO_ALLOW"
proof -
  have inv: "sys_inv (im, ps)" by (rule sys_inv_run [OF assms(1) sys_inv_init])
  note rev = revoke_not_fresh [OF assms(2)]
  have "retired i (snd (revoke i mode im), ps)"
    by (rule retired_after [OF inv rev(2,3)]) (use rev(1) in auto)
  then have "retired i (im', ps')" by (rule retired_run [OF assms(3)])
  then show ?thesis
    by (intro not_fresh_refused) (auto simp: retired_def assms(4))
qed

text \<open>C7. Key rotation is permanent under every interleaving of operations other than \<open>recover\<close>
  (after which key generations start again): once \<open>rotate_key\<close> has succeeded, a request that
  carries the key generation from before the rotation, or an older one, is never allowed again, as
  long as no key runs through all 64-bit generations.\<close>

theorem rotated_key_stays_stale:
  assumes "sys_run (new_impl, []) (im, ps)" and "reg_at im i = Some r"
    and "rotate_key i im = ((True, ex), im1)" and "key_gen r \<noteq> - 1"
    and "keyed_step\<^sup>*\<^sup>* (im1, ps) (im', ps')"
    and "q_source_registration q = i" and "gen_valid (q_expected_remote_key_generation q)"
    and "gen_value (q_expected_remote_key_generation q) \<le> key_gen r"
  shows "ad_outcome (fst (validate_remote_access q im')) \<noteq> AO_ALLOW"
proof -
  have inv: "sys_inv (im, ps)" by (rule sys_inv_run [OF assms(1) sys_inv_init])
  note held = sys_inv_held [OF inv, of i r]
  from assms(3) have "reg_at im1 i = Some (rotated_reg r)"
    and n: "im_next_registration im1 = im_next_registration im"
    by (cases rule: rotate_key_cases; use assms(2) in \<open>simp add: reg_at_def um_simps\<close>)+
  moreover have "key_gen (rotated_reg r) = key_gen r + 1"
    by (simp add: key_gen_def rotated_reg_def)
  ultimately have "key_beyond i (q_expected_remote_key_generation q) (im1, ps)"
    using held assms(2,8) u64_inc [OF assms(4)] by (auto simp: key_beyond_def)
  then have "key_beyond i (q_expected_remote_key_generation q) (im', ps')"
    by (rule key_beyond_run [OF assms(5)])
  with old_key_refused [of q "(im', ps')"] assms(6,7) show ?thesis by simp
qed

text \<open>Deregistration is permanent under every interleaving: once the last critical section
  of \<open>deregister\<close> has erased a registration, its identity is never valid for access again.\<close>

theorem deregistration_is_permanent:
  assumes "sys_run (new_impl, []) (im, ps)" and "deregister_finish i im = ((True, ex), im1)"
    and "sys_run (im1, ps) (im', ps')" and "q_source_registration q = i"
  shows "ad_outcome (fst (validate_remote_access q im')) \<noteq> AO_ALLOW"
proof -
  have inv: "sys_inv (im, ps)" by (rule sys_inv_run [OF assms(1) sys_inv_init])
  from assms(2) have "reg_at im i \<noteq> None" "reg_at im1 i = None"
    "im_next_registration im1 = im_next_registration im"
    by (cases rule: deregister_finish_cases; simp add: reg_at_def um_simps)+
  then have "retired i (im1, ps)" by (intro retired_after [OF inv]) auto
  then have "retired i (im', ps')" by (rule retired_run [OF assms(3)])
  then show ?thesis
    by (intro not_fresh_refused) (auto simp: retired_def assms(4))
qed

section \<open>Witnesses on the worked scenario\<close>

lemma run_atomic: "sys_run s (im, ps) \<Longrightarrow> sys_run s (exec op im, ps)"
  by (erule rtranclp.rtrancl_into_rtrancl) (rule sys_step.atomic)

lemma demo0_reachable: "sys_run (new_impl, []) (demo0, [])"
proof -
  have "demo0 = exec (OpCreateBuffer page_buffer) (exec (OpCreateDomain (StrongId 1) (StrongId 1))
      (exec (OpAddBackend (Some demo_backend)) (exec (OpSetAuthority demo_authority) new_impl)))"
    by (simp add: demo0_def)
  then show ?thesis
    using run_atomic rtranclp.rtrancl_refl by metis
qed

lemma demo1_reachable: "sys_run (new_impl, []) (demo1, [])"
proof -
  have "sys_run (demo0, []) (demo1, [])"
    unfolding demo1_def by (rule register_buffer_runs) simp
  with demo0_reachable show ?thesis by (rule rtranclp_trans)
qed

lemma demo1_at: "reg_at demo1 = [demo_reg \<mapsto> demo_record]"
  by (simp add: reg_at_def demo1_eq)

lemma demo1_authority [simp]: "im_authority demo1 = demo_authority"
  by (simp add: demo1_eq)

lemma demo_record_fields [simp]:
  "r_lifecycle demo_record = RL_ACTIVE" "r_freshness demo_record = FR_VALID"
  "r_buffer_id demo_record = StrongId 1" "r_id demo_record = demo_reg"
  "r_lease_count demo_record = 0" "r_backend demo_record = demo_bid" "r_domain_id demo_record = demo_pd"
  "r_domain demo_record = MD_SYNTHETIC_REMOTE_CAPABLE" "r_length demo_record = 4096"
  "rk_key_generation (r_remote_key demo_record) = StrongGeneration 1"
  by (simp_all add: demo_record_def registering_record_def demo_bout_def syn_make_registration_def)

theorem revocation_is_permanent_witness:
  "sys_run (new_impl, []) (demo1, []) \<and>
   rv_ok (fst (revoke demo_reg RV_SOFT_REVOKE demo1)) \<and>
   ad_outcome (fst (validate_remote_access demo_request
     (advance_epoch (snd (revoke demo_reg RV_SOFT_REVOKE demo1))))) \<noteq> AO_ALLOW"
proof -
  have ok: "rv_ok (fst (revoke demo_reg RV_SOFT_REVOKE demo1))"
    by (simp add: revoke_def demo1_eq Let_def)
  have "sys_run (snd (revoke demo_reg RV_SOFT_REVOKE demo1), [])
      (exec OpAdvanceEpoch (snd (revoke demo_reg RV_SOFT_REVOKE demo1)), [])"
    by (rule run_atomic) simp
  from revocation_is_permanent [OF demo1_reachable ok this, of demo_request] ok demo1_reachable
  show ?thesis by simp
qed

theorem rotated_key_stays_stale_witness:
  "fst (fst (rotate_key demo_reg demo1)) \<and>
   ad_outcome (fst (validate_remote_access
     (demo_request\<lparr>q_expected_remote_key_generation := StrongGeneration 1\<rparr>)
     (snd (rotate_key demo_reg demo1)))) \<noteq> AO_ALLOW"
proof -
  obtain ok ex im1 where rot: "rotate_key demo_reg demo1 = ((ok, ex), im1)" by (metis surj_pair)
  have "fst (fst (rotate_key demo_reg demo1))"
    by (simp add: rotate_key_def demo1_eq Let_def)
  with rot have rot': "rotate_key demo_reg demo1 = ((True, ex), im1)" by simp
  have "ad_outcome (fst (validate_remote_access
      (demo_request\<lparr>q_expected_remote_key_generation := StrongGeneration 1\<rparr>) im1)) \<noteq> AO_ALLOW"
    by (rule rotated_key_stays_stale [OF demo1_reachable _ rot', of demo_record _ "[]"])
      (simp_all add: demo1_at key_gen_def gen_valid_def)
  with rot' show ?thesis by simp
qed

theorem deregistration_is_permanent_witness:
  "fst (fst (deregister_finish demo_reg demo1)) \<and>
   ad_outcome (fst (validate_remote_access demo_request
     (snd (deregister_finish demo_reg demo1)))) \<noteq> AO_ALLOW"
proof -
  obtain ok ex im1 where fin: "deregister_finish demo_reg demo1 = ((ok, ex), im1)" by (metis surj_pair)
  have "fst (fst (deregister_finish demo_reg demo1))"
    by (simp add: deregister_finish_def demo1_eq Let_def)
  with fin have fin': "deregister_finish demo_reg demo1 = ((True, ex), im1)" by simp
  have "ad_outcome (fst (validate_remote_access demo_request im1)) \<noteq> AO_ALLOW"
    by (rule deregistration_is_permanent [OF demo1_reachable fin', of _ "[]"]) simp_all
  with fin' show ?thesis by simp
qed

end
