(* ===== verification/Invariant.thy ===== *)
theory Invariant
  imports Concurrency
begin

text \<open>
  What holds in every state of a registry whose calls do not overlap: the runs of \<open>seq_reach\<close>.
  A live registration owns the slot of its buffer, lies in an active domain, and is of the
  buffer's current generation; lease counts are exact; the accounting never exceeds what the
  registry holds. Lease identities do not wrap around: a step is taken only below the last
  value of their 64-bit counter, and likewise for registrations.
\<close>

section \<open>Sequential runs\<close>

inductive seq_reach :: "Impl \<Rightarrow> bool" where
  init: "seq_reach new_impl"
| op: "seq_reach im \<Longrightarrow> im_next_lease im \<noteq> - 1 \<Longrightarrow> seq_reach (exec op im)"
| registering: "seq_reach im \<Longrightarrow> im_next_registration im \<noteq> - 1 \<Longrightarrow>
    seq_reach (snd (register_buffer d bid pd env im))"
| deregistering: "seq_reach im \<Longrightarrow> seq_reach (snd (deregister i im))"

text \<open>What \<open>deregister\<close> does when nothing runs in between.\<close>

text \<open>The last section, after a backend call that changed nothing but the backends.\<close>

lemma deregister_finish_begun:
  assumes "reg_at im i = Some r" and "im1 = put_reg i (r\<lparr>r_lifecycle := RL_DEREGISTERING\<rparr>) im"
    and "deregister_finish i (im1\<lparr>im_backends := bs\<rparr>) = ((ok, ex), im')"
  obtains a where "ok"
    "a = account_registration_invalidate (r\<lparr>r_lifecycle := RL_DEREGISTERING\<rparr>) (im_acct im)"
    "im' = im\<lparr>im_registrations := AList.delete i (im_registrations im), im_backends := bs,
              im_active_reg := um_erase_if (\<lambda>v. v = i) (im_active_reg im),
              im_leases := um_erase_if (\<lambda>l. l_registration l = i) (im_leases im),
              im_acct := a\<lparr>a_deregistrations := increment 1 (a_deregistrations a)\<rparr>\<rparr>"
proof -
  have at: "reg_at (im1\<lparr>im_backends := bs\<rparr>) i = Some (r\<lparr>r_lifecycle := RL_DEREGISTERING\<rparr>)"
    by (simp add: assms(2) put_reg_def reg_at_def um_simps)
  from assms(3) show thesis
  proof (cases rule: deregister_finish_cases)
    case vanished
    with at show thesis by simp
  next
    case (erased r' a)
    with at have "r' = r\<lparr>r_lifecycle := RL_DEREGISTERING\<rparr>" by simp
    then show thesis
      by (intro that [OF erased(1) refl])
        (simp add: erased(3,4) assms(2) put_reg_def delete_update_same)
  qed
qed

lemma deregister_cases:
  assumes "deregister i im = ((ok, ex), im')"
  obtains (refused) "\<not> ok" "im' = im"
  | (failed) r bs where "\<not> ok" "reg_at im i = Some r" "deregisterable (r_lifecycle r)"
    "reg_at im' = (reg_at im)(i \<mapsto> r\<lparr>r_lifecycle := RL_FAILED\<rparr>)"
    "im' = im\<lparr>im_registrations := im_registrations im', im_backends := bs\<rparr>"
    "um_wf (im_registrations im) \<longrightarrow> um_wf (im_registrations im')"
  | (erased) r bs a where "ok" "reg_at im i = Some r" "r_lease_count r = 0"
    "deregisterable (r_lifecycle r)"
    "a = account_registration_invalidate (r\<lparr>r_lifecycle := RL_DEREGISTERING\<rparr>) (im_acct im)"
    "im' = im\<lparr>im_registrations := AList.delete i (im_registrations im), im_backends := bs,
              im_active_reg := um_erase_if (\<lambda>v. v = i) (im_active_reg im),
              im_leases := um_erase_if (\<lambda>l. l_registration l = i) (im_leases im),
              im_acct := a\<lparr>a_deregistrations := increment 1 (a_deregistrations a)\<rparr>\<rparr>"
proof -
  note outcome = that
  obtain x im1 where prep: "deregister_prepare i im = (x, im1)" by (rule prod.exhaust)
  from prep show ?thesis
  proof (cases rule: deregister_prepare_cases)
    case (refused ex')
    with assms prep show ?thesis by (intro that(1)) (auto simp: deregister_def)
  next
    case (begun r)
    obtain y im2 where call: "deregister_backend i (reg_handle r) (r_backend r) im1 = (y, im2)"
      by (rule prod.exhaust)
    have finish: ?thesis if "y = None" and bs: "im2 = im1\<lparr>im_backends := bs\<rparr>" for bs
    proof -
      from that assms prep call begun(1) have "deregister_finish i (im1\<lparr>im_backends := bs\<rparr>) = ((ok, ex), im')"
        by (simp add: deregister_def)
      then show ?thesis
        by (rule deregister_finish_begun [OF begun(2,5)]) (rule outcome(3) [OF _ begun(2-4)])
    qed
    from call show ?thesis
    proof (cases rule: deregister_backend_cases)
      case absent
      then show ?thesis by (intro finish [of "im_backends im1"]) simp_all
    next
      case (released b bo b')
      then show ?thesis by (intro finish [of "AList.update (r_backend r) b' (im_backends im1)"]) simp_all
    next
      case (failed b bo b' ex' im0)
      have at1: "reg_at im1 i = Some (r\<lparr>r_lifecycle := RL_DEREGISTERING\<rparr>)"
        by (simp add: begun(5) put_reg_def reg_at_def um_simps)
      have im': "im' = put_reg i (r\<lparr>r_lifecycle := RL_FAILED\<rparr>) im0" and nok: "\<not> ok"
        using assms prep call begun(1) failed(1,7) at1 by (auto simp: deregister_def)
      show ?thesis
        by (rule that(2) [OF nok begun(2,4), of "AList.update (r_backend r) b' (im_backends im1)"])
          (auto simp: im' failed(6) begun(5) put_reg_def reg_at_def um_simps fun_eq_iff)
    qed
  qed
qed

section \<open>Live registrations are grounded\<close>

definition live_at :: "Impl \<Rightarrow> RegistrationId \<Rightarrow> RegistrationRecord \<Rightarrow> bool" where
  "live_at im i r \<longleftrightarrow> reg_at im i = Some r \<and> is_live (r_lifecycle r)"

text \<open>The registration owns its buffer's slot, its domain is active, its buffer current.\<close>

definition placed :: "Impl \<Rightarrow> RegistrationId \<Rightarrow> RegistrationRecord \<Rightarrow> bool" where
  "placed im i r \<longleftrightarrow>
     map_of (im_active_reg im) (r_buffer_id r) = Some i \<and>
     domain_active (r_domain_id r) im \<and> buffer_current (r_buffer_id r) (r_buffer_generation r) im"

definition keys_ok :: "RegistrationRecord \<Rightarrow> bool" where
  "keys_ok r \<longleftrightarrow> r_freshness r = FR_VALID \<and> \<not> rk_revoked (r_remote_key r)"

definition grounded :: "Impl \<Rightarrow> bool" where
  "grounded im \<longleftrightarrow> (\<forall>i r. live_at im i r \<longrightarrow> placed im i r \<and> keys_ok r)"

text \<open>Records sit under their own identity, below the counter, and name no transport.\<close>

definition named :: "Impl \<Rightarrow> bool" where
  "named im \<longleftrightarrow>
     (\<forall>i r. reg_at im i = Some r \<longrightarrow>
        r_id r = i \<and> id_value i < im_next_registration im \<and> r_transport r = no_id \<and>
        r_registration_generation r = StrongGeneration 1)"

definition tables_wf :: "Impl \<Rightarrow> bool" where
  "tables_wf im \<longleftrightarrow> um_wf (im_registrations im) \<and> um_wf (im_active_reg im) \<and> um_wf (im_leases im) \<and>
     um_wf (im_domains im) \<and> um_wf (im_buffers im)"

lemma held_step_keys: "held_step r r' \<Longrightarrow> is_live (r_lifecycle r') \<Longrightarrow> keys_ok r \<Longrightarrow> keys_ok r'"
  by (induction rule: held_step.induct)
    (simp_all add: reg_changes keys_ok_def is_live_def split: if_splits)

lemma placed_same: "same_registration r r' \<Longrightarrow> placed im i r' \<longleftrightarrow> placed im i r"
  by (simp add: placed_def same_registration_def)

lemma keeps_live:
  assumes "keeps im im'" and "live_at im' i r'"
  obtains r where "live_at im i r" "same_registration r r'" "r' = r \<or> held_step r r'"
proof -
  from assms(2) keeps_None [OF assms(1)] obtain r where r: "reg_at im i = Some r"
    by (cases "reg_at im i") (auto simp: live_at_def)
  from keepsD [OF assms(1) r] assms(2) have "r' = r \<or> held_step r r'" by (auto simp: live_at_def)
  with r assms(2) that show ?thesis
    using held_step_live held_step_same by (metis live_at_def same_registration_refl)
qed

lemma grounded_keeps:
  assumes "grounded im" and "keeps im im'"
    and "\<And>i r r'. live_at im i r \<Longrightarrow> live_at im' i r' \<Longrightarrow> same_registration r r' \<Longrightarrow> placed im i r \<Longrightarrow>
      placed im' i r"
  shows "grounded im'"
  unfolding grounded_def
proof (intro allI impI)
  fix i r'
  assume live: "live_at im' i r'"
  from keeps_live [OF assms(2) live] obtain r where r: "live_at im i r" "same_registration r r'"
    "r' = r \<or> held_step r r'" .
  from assms(1) r(1) have "placed im i r" "keys_ok r" by (auto simp: grounded_def)
  with assms(3) [OF r(1) live r(2)] r live show "placed im' i r' \<and> keys_ok r'"
    using placed_same held_step_keys by (auto simp: live_at_def)
qed

lemma grounded_keeps_same:
  assumes "grounded im" and "keeps im im'" and "im_active_reg im' = im_active_reg im"
    and "im_domains im' = im_domains im" and "im_buffers im' = im_buffers im"
  shows "grounded im'"
  by (rule grounded_keeps [OF assms(1,2)])
    (simp add: placed_def domain_active_def buffer_current_def assms(3-5))

text \<open>The operations that change a slot, a domain or a buffer.\<close>

lemma grounded_destroy_domain:
  assumes "grounded im" and "destroy_protection_domain d im = (b, im')"
  shows "grounded im'"
proof (rule grounded_keeps [OF assms(1) destroy_protection_domain_keeps [OF assms(2)]])
  fix i r r'
  assume live: "live_at im i r" "live_at im' i r'" and same: "same_registration r r'"
    and placed: "placed im i r"
  from assms(2) show "placed im' i r"
  proof (cases rule: destroy_protection_domain_cases)
    case missing
    with placed show ?thesis by simp
  next
    case (destroyed e regs a)
    have "reg_at im' i = map_option (\<lambda>r. if r_domain_id r = d \<and> is_live (r_lifecycle r)
        then domain_destroyed_reg r else r) (reg_at im i)"
      using reg_at_um_for [OF destroyed(3), of im'] by (simp add: destroyed(4))
    with live have "r_domain_id r \<noteq> d"
      by (auto simp: live_at_def domain_destroyed_reg_def is_live_def)
    with placed show ?thesis
      by (auto simp: placed_def domain_active_def buffer_current_def destroyed(4) um_simps)
  qed
qed

lemma grounded_create_buffer:
  assumes "grounded im" and "create_buffer d im = (j, im')"
  shows "grounded im'"
proof (rule grounded_keeps [OF assms(1) create_buffer_keeps [OF assms(2)]])
  fix i r r'
  assume live: "live_at im i r" "live_at im' i r'" and same: "same_registration r r'"
    and placed: "placed im i r"
  from assms(2) show "placed im' i r"
  proof (cases rule: create_buffer_cases)
    case (refused j' im0)
    with placed named_buffer_frame [OF refused(1)] show ?thesis
      by (auto simp: placed_def domain_active_def buffer_current_def)
  next
    case (created im0 a)
    from placed created(2) have "r_buffer_id r \<noteq> j" by (auto simp: placed_def buffer_current_def)
    with placed created named_buffer_frame [OF created(1)] show ?thesis
      by (auto simp: placed_def domain_active_def buffer_current_def um_simps)
  next
    case (reallocated im0 e regs a b)
    have frame: "im_active_reg im0 = im_active_reg im" "im_domains im0 = im_domains im"
      using named_buffer_frame [OF reallocated(1)] by auto
    have "reg_at im' i = map_option (\<lambda>r. if r_buffer_id r = j \<and> (is_live (r_lifecycle r) \<or>
        r_lifecycle r = RL_REGISTERING) then reallocated_reg r else r) (reg_at im i)"
      using reg_at_um_for [OF reallocated(4), of im'] by (simp add: reallocated(5))
    with live have "r_buffer_id r \<noteq> j"
      by (auto simp: live_at_def reallocated_reg_def is_live_def)
    with placed show ?thesis
      by (auto simp: placed_def domain_active_def buffer_current_def reallocated(5) um_simps frame)
  qed
qed

lemma grounded_revoke:
  assumes "grounded im" and "revoke j mode im = (rv, im')"
  shows "grounded im'"
  using assms(2)
proof (cases rule: revoke_cases)
  case refused
  with assms(1) show ?thesis by simp
next
  case (soft r)
  then show ?thesis
    by (intro grounded_keeps_same [OF assms(1) revoke_keeps [OF assms(2)]]) simp_all
next
  case (hard r0 ls a)
  show ?thesis
  proof (rule grounded_keeps [OF assms(1) revoke_keeps [OF assms(2)]])
    fix i r r'
    assume live: "live_at im i r" "live_at im' i r'" and placed: "placed im i r"
    from live(2) have "i \<noteq> j"
      by (auto simp: live_at_def reg_at_def hard(6) um_simps hard_revoked_reg_def is_live_def)
    moreover from assms(1) hard(3,4) have "placed im j r0"
      by (simp add: grounded_def live_at_def)
    ultimately have "r_buffer_id r \<noteq> r_buffer_id r0"
      using placed by (auto simp: placed_def)
    with placed show "placed im' i r"
      by (auto simp: placed_def domain_active_def buffer_current_def hard(6) um_simps)
  qed
qed

lemma grounded_exec:
  assumes "grounded im"
  shows "grounded (exec op im)"
proof (cases op)
  case (OpDestroyDomain d)
  with assms grounded_destroy_domain [OF _ surjective_pairing] show ?thesis by simp
next
  case (OpCreateBuffer d)
  with assms grounded_create_buffer [OF _ surjective_pairing] show ?thesis by simp
next
  case (OpRevoke i mode)
  with assms grounded_revoke [OF _ surjective_pairing] show ?thesis by simp
next
  case (OpCreateDomain n p)
  show ?thesis
    by (rule grounded_keeps [OF assms exec_keeps])
      (auto simp: OpCreateDomain create_protection_domain_def placed_def domain_active_def
        buffer_current_def um_simps Let_def)
qed (rule grounded_keeps_same [OF assms exec_keeps exec_slots exec_domains exec_buffers]; simp)+

lemma grounded_register:
  assumes "grounded im" and "named im"
  shows "grounded (snd (register_buffer d bid pd env im))"
proof -
  obtain rr im' where reg: "register_buffer d bid pd env im = (rr, im')" by (rule prod.exhaust)
  from reg show ?thesis
  proof (cases rule: register_buffer_cases)
    case refused
    with assms reg show ?thesis by simp
  next
    case (accepted b bo bout b' r)
    have at: "reg_at im' = (reg_at im)(r_id r \<mapsto> r)"
      by (simp add: accepted(4) registered_impl_def reg_at_def um_simps)
    from accepted(1) have ready: "domain_active pd im" "buffer_current (bd_id d) (bd_generation d) im"
      "map_of (im_active_reg im) (bd_id d) = None"
      by (simp_all add: register_ready_def)
    have new: "placed im' (r_id r) r" "keys_ok r"
      using ready by (auto simp: placed_def domain_active_def buffer_current_def keys_ok_def
          accepted(4) registered_impl_def um_simps) (auto simp: accepted(3))
    have old: "placed im' i s \<and> keys_ok s" if "live_at im i s" for i s
    proof -
      from assms(1) that have s: "placed im i s" "keys_ok s" by (auto simp: grounded_def)
      with ready(3) have "r_buffer_id s \<noteq> r_buffer_id r"
        by (auto simp: placed_def accepted(3))
      with s show ?thesis
        by (auto simp: placed_def domain_active_def buffer_current_def accepted(4)
            registered_impl_def um_simps)
    qed
    show ?thesis
      unfolding reg snd_conv grounded_def
      using new old by (auto simp: live_at_def at)
  qed
qed

lemma grounded_deregister:
  assumes "grounded im" and "tables_wf im"
  shows "grounded (snd (deregister i im))"
proof -
  obtain ok ex im' where dereg: "deregister i im = ((ok, ex), im')" by (metis surj_pair)
  from dereg show ?thesis
  proof (cases rule: deregister_cases)
    case refused
    with assms dereg show ?thesis by simp
  next
    case (failed r bs)
    have frame: "im_active_reg im' = im_active_reg im" "im_domains im' = im_domains im"
      "im_buffers im' = im_buffers im"
      by (subst failed(5), simp)+
    have "live_at im' j s \<Longrightarrow> live_at im j s" for j s
      by (auto simp: live_at_def failed(4) is_live_def split: if_splits)
    moreover have "placed im' j s \<longleftrightarrow> placed im j s" for j s
      by (simp add: placed_def domain_active_def buffer_current_def frame)
    ultimately show ?thesis
      using assms(1) unfolding dereg snd_conv grounded_def by blast
  next
    case (erased r bs a)
    have "live_at im' j s \<Longrightarrow> live_at im j s \<and> j \<noteq> i" for j s
      by (auto simp: live_at_def reg_at_def erased(6) um_simps split: if_splits)
    moreover have "placed im' j s" if "placed im j s" "j \<noteq> i" for j s
      using that assms(2)
      by (auto simp: placed_def domain_active_def buffer_current_def erased(6) um_simps tables_wf_def)
    ultimately show ?thesis
      using assms(1) unfolding dereg snd_conv grounded_def by blast
  qed
qed

section \<open>Names and tables\<close>

lemma named_keeps:
  assumes "named im" and "keeps im im'"
  shows "named im'"
  unfolding named_def
proof (intro allI impI)
  fix i r'
  assume r': "reg_at im' i = Some r'"
  then obtain r where r: "reg_at im i = Some r"
    using keeps_None [OF assms(2), of i] by (cases "reg_at im i") auto
  from keepsD [OF assms(2) r] r' have "r' = r \<or> held_step r r'" by auto
  then have "same_registration r r'" using held_step_same by auto
  with assms r show "r_id r' = i \<and> id_value i < im_next_registration im' \<and> r_transport r' = no_id \<and>
      r_registration_generation r' = StrongGeneration 1"
    by (auto simp: named_def keeps_def same_registration_def)
qed

lemma named_register:
  assumes "named im" and "im_next_registration im \<noteq> - 1"
  shows "named (snd (register_buffer d bid pd env im))"
proof -
  obtain rr im' where reg: "register_buffer d bid pd env im = (rr, im')" by (rule prod.exhaust)
  from reg show ?thesis
  proof (cases rule: register_buffer_cases)
    case refused
    with assms reg show ?thesis by simp
  next
    case (accepted b bo bout b' r)
    have at: "reg_at im' = (reg_at im)(r_id r \<mapsto> r)"
      and n: "im_next_registration im' = im_next_registration im + 1"
      by (simp_all add: accepted(4) registered_impl_def reg_at_def um_simps)
    have r: "r_id r = StrongId (im_next_registration im)" "r_transport r = no_id"
      "r_registration_generation r = StrongGeneration 1"
      by (simp_all add: accepted(3))
    show ?thesis
      unfolding reg snd_conv
      using assms(1) u64_inc [OF assms(2)] by (auto simp: named_def at n r intro: less_trans)
  qed
qed

lemma named_deregister:
  assumes "named im"
  shows "named (snd (deregister i im))"
proof -
  obtain ok ex im' where dereg: "deregister i im = ((ok, ex), im')" by (metis surj_pair)
  from dereg show ?thesis
  proof (cases rule: deregister_cases)
    case refused
    with assms dereg show ?thesis by simp
  next
    case (failed r bs)
    have "im_next_registration im' = im_next_registration im" by (subst failed(5)) simp
    with assms failed(2) show ?thesis by (auto simp: dereg named_def failed(4))
  next
    case (erased r bs a)
    have at: "reg_at im' = (reg_at im)(i := None)"
      by (simp add: erased(6) reg_at_def um_simps)
    have n: "im_next_registration im' = im_next_registration im" by (simp add: erased(6))
    from assms show ?thesis by (auto simp: dereg named_def at n split: if_splits)
  qed
qed

lemma um_wf_loop: "um_for p f g m acc = (m', a) \<Longrightarrow> um_wf m \<Longrightarrow> um_wf m'"
  by (metis fst_conv um_wf_um_for)

lemma tables_wf_cong:
  "tables_wf im \<Longrightarrow> im_registrations im' = im_registrations im \<Longrightarrow>
     im_active_reg im' = im_active_reg im \<Longrightarrow> im_leases im' = im_leases im \<Longrightarrow>
     um_wf (im_domains im') \<Longrightarrow> um_wf (im_buffers im') \<Longrightarrow> tables_wf im'"
  by (simp add: tables_wf_def)

lemma tables_wf_acct [simp]: "tables_wf (im\<lparr>im_acct := a\<rparr>) \<longleftrightarrow> tables_wf im"
  by (simp add: tables_wf_def)

lemma tables_wf_stores: "tables_wf im \<Longrightarrow> um_wf (im_domains im) \<and> um_wf (im_buffers im)"
  by (simp add: tables_wf_def)

lemma tables_wf_create_buffer:
  assumes "tables_wf im" and "create_buffer d im = (i, im')"
  shows "tables_wf im'"
  using assms(2)
proof (cases rule: create_buffer_cases)
  case (refused j im0)
  with assms(1) named_buffer_frame [OF refused(1)] show ?thesis by (auto simp: tables_wf_def um_wf_update)
next
  case (created im0 a)
  with assms(1) named_buffer_frame [OF created(1)] show ?thesis by (auto simp: tables_wf_def um_wf_update)
next
  case (reallocated im0 e regs a b)
  with assms(1) named_buffer_frame [OF reallocated(1)] um_wf_loop [OF reallocated(4)] show ?thesis
    by (auto simp: tables_wf_def um_wf_update)
qed

lemma tables_wf_exec:
  assumes "tables_wf im"
  shows "tables_wf (exec op im)"
proof (cases op)
  case (OpDestroyDomain d)
  obtain b im' where c: "destroy_protection_domain d im = (b, im')" by (rule prod.exhaust)
  from c assms show ?thesis
    by (cases rule: destroy_protection_domain_cases)
      (auto simp: OpDestroyDomain c tables_wf_def um_wf_update dest: um_wf_loop)
next
  case (OpCreateBuffer d)
  with tables_wf_create_buffer [OF assms surjective_pairing] show ?thesis by simp
next
  case (OpAcquireLease i env m)
  obtain la im' where c: "acquire_lease i env m im = (la, im')" by (rule prod.exhaust)
  from c assms show ?thesis
    by (cases rule: acquire_lease_cases) (auto simp: OpAcquireLease c tables_wf_def um_simps)
next
  case (OpReleaseLease l)
  obtain b im' where c: "release_lease l im = (b, im')" by (rule prod.exhaust)
  from c assms show ?thesis
    by (cases rule: release_lease_cases)
      (auto simp: OpReleaseLease c tables_wf_def um_simps split: option.split)
next
  case (OpRevoke i mode)
  obtain rv im' where c: "revoke i mode im = (rv, im')" by (rule prod.exhaust)
  from c assms have "tables_wf im'"
    by (cases rule: revoke_cases) (auto simp: tables_wf_def um_simps dest: um_wf_loop)
  then show ?thesis by (simp add: OpRevoke c)
next
  case (OpRotateKey i)
  obtain ok ex im' where c: "rotate_key i im = ((ok, ex), im')" by (metis surj_pair)
  from c assms show ?thesis
    by (cases rule: rotate_key_cases) (auto simp: OpRotateKey c tables_wf_def um_simps)
next
  case (OpValidate q)
  with exec_validate [of q im] assms show ?thesis by (auto simp: on_acct_def)
next
  case (OpReuse d bid pd env)
  with exec_reuse [of d bid pd env im] assms show ?thesis by auto
qed (rule tables_wf_cong [OF assms];
    use tables_wf_stores [OF assms] in \<open>simp add: um_simps plain_ops Let_def split: option.split\<close>)+

lemma tables_wf_register:
  assumes "tables_wf im"
  shows "tables_wf (snd (register_buffer d bid pd env im))"
proof -
  obtain rr im' where reg: "register_buffer d bid pd env im = (rr, im')" by (rule prod.exhaust)
  from reg assms show ?thesis
    by (cases rule: register_buffer_cases) (auto simp: reg tables_wf_def registered_impl_def um_simps)
qed

lemma tables_wf_deregister:
  assumes "tables_wf im"
  shows "tables_wf (snd (deregister i im))"
proof -
  obtain ok ex im' where dereg: "deregister i im = ((ok, ex), im')" by (metis surj_pair)
  from dereg show ?thesis
  proof (cases rule: deregister_cases)
    case refused
    with assms dereg show ?thesis by simp
  next
    case (failed r bs)
    have "im_active_reg im' = im_active_reg im" "im_leases im' = im_leases im"
      "im_domains im' = im_domains im" "im_buffers im' = im_buffers im"
      by (subst failed(5), simp)+
    with failed(6) assms show ?thesis by (simp add: dereg tables_wf_def)
  next
    case (erased r bs a)
    with assms show ?thesis by (simp add: dereg tables_wf_def um_simps)
  qed
qed

lemma seq_reach_inv: "seq_reach im \<Longrightarrow> tables_wf im \<and> named im \<and> grounded im"
proof (induction rule: seq_reach.induct)
  case init
  show ?case
    by (simp add: new_impl_def tables_wf_def named_def grounded_def live_at_def reg_at_def um_simps)
next
  case (op im op)
  then show ?case
    using tables_wf_exec named_keeps [OF _ exec_keeps] grounded_exec by blast
next
  case (registering im d bid pd env)
  then show ?case
    using tables_wf_register named_register grounded_register by blast
next
  case (deregistering im i)
  then show ?case
    using tables_wf_deregister named_deregister grounded_deregister by blast
qed

section \<open>Reuse\<close>

text \<open>What makes a registration reusable for a descriptor, as the registry tests it.\<close>

definition reusable ::
    "BufferDescriptor \<Rightarrow> BackendId \<Rightarrow> ProtectionDomainId \<Rightarrow> AuthorityEnvelope \<Rightarrow>
     RegistrationRecord \<Rightarrow> bool" where
  "reusable d bid pd env r \<longleftrightarrow>
     r_buffer_id r = bd_id d \<and> r_buffer_generation r = bd_generation d \<and> r_domain r = bd_domain d \<and>
     r_backend r = bid \<and> r_domain_id r = pd \<and>
     access_superset (r_granted_access r) (bd_requested_access d) \<and> is_live (r_lifecycle r) \<and>
     r_boot r = ae_worker_boot env \<and> r_freshness r = FR_VALID \<and>
     (rk_revoked (r_remote_key r) \<or> id_valid (rk_id (r_remote_key r)))"

lemma reuse_miss_reason_iff: "reuse_miss_reason d r bid pd env = '''' \<longleftrightarrow> reusable d bid pd env r"
  unfolding reuse_miss_reason_def reusable_def is_live_def
  by (simp add: reason_gate)

lemma reuse_ok_iff:
  "rr_ok (fst (register_buffer_reuse d bid pd env im)) \<longleftrightarrow>
     authority_agrees (im_authority im) env \<and>
     (\<exists>i r. map_of (im_active_reg im) (bd_id d) = Some i \<and> reg_at im i = Some r \<and>
            reusable d bid pd env r)"
  by (auto simp: register_buffer_reuse_def Let_def reg_at_def validate_authority_allow_iff
      reuse_miss_reason_iff [symmetric] default_register_result_def split: option.split)

lemma reuse_registration:
  assumes "rr_ok (fst (register_buffer_reuse d bid pd env im))"
    and "map_of (im_active_reg im) (bd_id d) = Some i" and "reg_at im i = Some r"
  shows "rr_registration (fst (register_buffer_reuse d bid pd env im)) = r_id r"
  using assms by (auto simp: register_buffer_reuse_def Let_def reg_at_def default_register_result_def
      split: if_splits)

section \<open>Properties\<close>

text \<open>C4. In a registry whose calls do not overlap, every live registration is the one its
  buffer's slot names, its protection domain is active, its buffer generation is the buffer's
  current one, it is fresh and its remote key is not revoked.\<close>

theorem live_registration_is_grounded:
  assumes "seq_reach im" and "reg_at im i = Some r" and "is_live (r_lifecycle r)"
  shows "map_of (im_active_reg im) (r_buffer_id r) = Some i \<and> domain_active (r_domain_id r) im \<and>
    buffer_current (r_buffer_id r) (r_buffer_generation r) im \<and> r_freshness r = FR_VALID \<and>
    \<not> rk_revoked (r_remote_key r)"
  using seq_reach_inv [OF assms(1)] assms(2,3)
  by (simp add: grounded_def live_at_def placed_def keys_ok_def)

text \<open>C12. Single flight holds when calls do not overlap: two live registrations of one buffer are
  the same registration.\<close>

theorem single_flight_sequential:
  assumes "seq_reach im" and "reg_at im i = Some r" and "reg_at im j = Some s"
    and "is_live (r_lifecycle r)" and "is_live (r_lifecycle s)" and "r_buffer_id r = r_buffer_id s"
  shows "i = j"
proof -
  from seq_reach_inv [OF assms(1)] assms(2-5) have "placed im i r" "placed im j s"
    by (auto simp: grounded_def live_at_def)
  with assms(6) show ?thesis by (simp add: placed_def)
qed

text \<open>C15. In a registry whose calls do not overlap and that was not recovered from a file, reuse
  finds whatever can be reused: it succeeds if and only if the caller's authority agrees and the registry holds, anywhere, a
  live, fresh registration of the same buffer, buffer generation, memory domain, backend,
  protection domain and worker boot whose rights cover the requested ones. It then names such
  a registration, whose domain is active and whose buffer generation is current.\<close>

theorem reuse_finds_current_registration:
  assumes "seq_reach im" and R_def: "R = fst (register_buffer_reuse d bid pd env im)"
  shows "(rr_ok R \<longleftrightarrow> authority_agrees (im_authority im) env \<and>
      (\<exists>i r. reg_at im i = Some r \<and> reusable d bid pd env r)) \<and>
    (rr_ok R \<longrightarrow> (\<exists>r. reg_at im (rr_registration R) = Some r \<and> reusable d bid pd env r) \<and>
      domain_active pd im \<and> buffer_current (bd_id d) (bd_generation d) im)"
proof -
  note inv = seq_reach_inv [OF assms(1)]
  have slot: "map_of (im_active_reg im) (bd_id d) = Some i \<and> domain_active pd im \<and>
      buffer_current (bd_id d) (bd_generation d) im \<and> r_id r = i"
    if "reg_at im i = Some r" "reusable d bid pd env r" for i r
  proof -
    from inv that have "placed im i r" "r_id r = i"
      by (auto simp: grounded_def live_at_def reusable_def named_def)
    with that(2) show ?thesis by (simp add: placed_def reusable_def)
  qed
  have iff: "rr_ok R \<longleftrightarrow> authority_agrees (im_authority im) env \<and>
      (\<exists>i r. reg_at im i = Some r \<and> reusable d bid pd env r)"
    unfolding R_def reuse_ok_iff using slot by blast
  moreover have "(\<exists>r. reg_at im (rr_registration R) = Some r \<and> reusable d bid pd env r) \<and>
      domain_active pd im \<and> buffer_current (bd_id d) (bd_generation d) im" if "rr_ok R"
  proof -
    from that iff obtain i r where r: "reg_at im i = Some r" "reusable d bid pd env r" by blast
    from slot [OF r] reuse_registration [OF that [unfolded R_def] _ r(1)] have "rr_registration R = i"
      by (simp add: R_def)
    with r slot [OF r] show ?thesis by auto
  qed
  ultimately show ?thesis by blast
qed

text \<open>No request that names a transport is ever allowed: the registry never records the
  transport of a registration, so a valid transport identity in a request never matches.\<close>

theorem named_transport_is_refused:
  assumes "seq_reach im" and "id_valid (q_transport q)"
  shows "ad_outcome (fst (validate_remote_access q im)) \<noteq> AO_ALLOW"
  using seq_reach_inv [OF assms(1)] assms(2)
  by (auto simp: validate_allow_iff access_ok_def record_permits_def names_id_def named_def reg_at_def)

section \<open>Witnesses\<close>

lemma demo0_seq: "seq_reach demo0"
proof -
  have "im_next_lease (exec (OpSetAuthority demo_authority) new_impl) \<noteq> - 1"
    "im_next_lease (exec (OpAddBackend (Some demo_backend)) (exec (OpSetAuthority demo_authority) new_impl)) \<noteq> - 1"
    "im_next_lease (exec (OpCreateDomain (StrongId 1) (StrongId 1)) (exec (OpAddBackend (Some demo_backend))
      (exec (OpSetAuthority demo_authority) new_impl))) \<noteq> - 1"
    by (simp_all add: new_impl_def set_authority_def add_backend_def create_protection_domain_def Let_def)
  then have "seq_reach (exec (OpCreateBuffer page_buffer) (exec (OpCreateDomain (StrongId 1) (StrongId 1))
      (exec (OpAddBackend (Some demo_backend)) (exec (OpSetAuthority demo_authority) new_impl))))"
    by (intro seq_reach.op seq_reach.init) (simp_all add: new_impl_def)
  then show ?thesis by (simp add: demo0_def)
qed

lemma demo1_seq: "seq_reach demo1"
  unfolding demo1_def by (rule seq_reach.registering [OF demo0_seq]) simp

theorem live_registration_is_grounded_witness:
  "map_of (im_active_reg demo1) (StrongId 1) = Some demo_reg \<and> domain_active demo_pd demo1"
  using live_registration_is_grounded [OF demo1_seq, of demo_reg demo_record]
  by (simp add: demo1_at is_live_def)

theorem single_flight_sequential_witness:
  "reg_at demo1 demo_reg = Some demo_record \<and> demo_reg = (StrongId 1 :: RegistrationId)"
  using single_flight_sequential [OF demo1_seq, of demo_reg demo_record demo_reg demo_record]
  by (simp add: demo1_at is_live_def)

lemma demo_reusable: "reusable page_buffer demo_bid demo_pd demo_env demo_record"
proof -
  have "r_buffer_generation demo_record = StrongGeneration 1" "r_boot demo_record = StrongId 7"
    "r_granted_access demo_record = 0x0C" "id_valid (rk_id (r_remote_key demo_record))"
    by (simp_all add: demo_record_def registering_record_def demo_env_def demo_bout_def
        syn_make_registration_def committed_record_def demo_region_def syn_region_def)
  then show ?thesis by (simp add: reusable_def is_live_def demo_env_def)
qed

theorem reuse_finds_current_registration_witness:
  "rr_ok (fst (register_buffer_reuse page_buffer demo_bid demo_pd demo_env demo1))"
  using reuse_finds_current_registration [OF demo1_seq refl, of page_buffer demo_bid demo_pd demo_env]
    demo_reusable demo_agrees
  by (auto simp: demo1_at)

theorem named_transport_is_refused_witness:
  "ad_outcome (fst (validate_remote_access (demo_request\<lparr>q_transport := StrongId 0x53594E54\<rparr>) demo1))
     \<noteq> AO_ALLOW"
  by (rule named_transport_is_refused [OF demo1_seq]) simp

end
