(* ===== verification/Races.thy ===== *)
theory Races
  imports Concurrency
begin

text \<open>
  What the registry does not guarantee when calls overlap: runs of the worked scenario in which
  two registrations of one buffer become active and accessible, and in which a registration
  becomes active and accessible in a destroyed protection domain.
\<close>

section \<open>The scenario's registration, continued from any state\<close>

lemma demo_context_ready:
  "im_authority im = demo_authority \<Longrightarrow>
     ready_context page_buffer demo_pd demo_env im b = registering_context page_buffer b demo_pd demo_env demo_authority"
  by (simp add: ready_context_def)

lemma demo_backend1_capabilities: "be_capabilities demo_backend1 = be_capabilities demo_backend"
  "be_generation demo_backend1 = be_generation demo_backend"
  by (simp_all add: demo_backend1_def demo_backend_def)

lemma demo_backend1_can_register: "be_can_register page_buffer demo_backend1 = ''''"
  using demo_can_register
  by (simp add: demo_backend1_def demo_backend_def syn_can_register_ok)

lemma demo_backend1_wf: "be_wf demo_backend1" "be_room demo_backend1"
proof -
  have wf: "be_wf demo_backend" "be_room demo_backend"
    by (simp_all add: demo_backend_def syn_wf_def syn_room_def syn_create_def um_simps)
  show "be_wf demo_backend1" by (rule be.wf_register [OF wf demo_be_register])
  show "be_room demo_backend1" by (simp add: demo_backend1_def syn_room_def)
qed

text \<open>The backend step and the commit of a registration whose backend still agrees.\<close>

lemma pending_register_completes:
  assumes "map_of (im_backends im) bid = Some b" and "be_can_register d b = ''''"
  obtains bout b' im' where
    "sys_run (im, ps @ PendingRegister d bid r cx # qs) (im', ps @ qs)"
    "be_register d cx b = ((fst (fst (be_register d cx b)), Some bout), b')"
    "reg_at im' = (reg_at im)(r_id r \<mapsto> committed_record r bid bout (im_authority im))"
    "im_backends im' = AList.update bid b' (im_backends im)"
    "im_authority im' = im_authority im" "im_domains im' = im_domains im"
proof -
  obtain bo out b' where reg: "be_register d cx b = ((bo, out), b')" by (metis surj_pair)
  from be.register_accepted [OF assms(2) reg] obtain bout where ok: "ro_ok bo" and out: "out = Some bout"
    by blast
  note call = Registration.register_backend_ok [OF assms(1) reg [unfolded out] ok]
  let ?im1 = "im\<lparr>im_backends := AList.update bid b' (im_backends im)\<rparr>"
  have "sys_step (im, ps @ PendingRegister d bid r cx # qs) (?im1, ps @ PendingCommit bid r bout # qs)"
    by (rule sys_step.register_backend_ok [OF call])
  moreover have "sys_step (?im1, ps @ PendingCommit bid r bout # qs)
      (snd (register_commit r bid bout ?im1), ps @ qs)"
    by (rule sys_step.register_end [OF surjective_pairing])
  ultimately have "sys_run (im, ps @ PendingRegister d bid r cx # qs)
      (snd (register_commit r bid bout ?im1), ps @ qs)"
    by (meson r_into_rtranclp rtranclp.rtrancl_into_rtrancl)
  then show ?thesis
    by (rule that) (simp_all add: reg out register_commit_def Let_def reg_at_def um_simps)
qed

text \<open>What was granted is open once it is committed, whatever happened since the first section, and
  another registration at the same backend stays as open as it was.\<close>

lemma committed_permits:
  assumes can: "be_can_register d b = ''''" and reg: "be_register d cx b = ((bo, Some bout), b')"
    and gen: "r_backend_generation p = be_generation b"
  shows "r_granted_access (committed_record p bid bout auth) = bd_requested_access d"
    and "backend_permits q (committed_record p bid bout auth) b' \<longleftrightarrow>
      unat (q_offset q) + unat (q_length q) \<le> unat (bd_byte_length d) \<and>
      access_has (bd_requested_access d) (intrinsic_right (q_kind q))"
proof -
  show "r_granted_access (committed_record p bid bout auth) = bd_requested_access d"
    using be.register_accepted [OF can reg] by simp
  have "be_generation b' = be_generation b" "be_capabilities b' = be_capabilities b"
    using be.register_frame [OF reg] by simp_all
  moreover have "be_view b' (br_handle bout) =
      Some \<lparr>ev_generation = bk_remote_key_generation (br_keys bout), ev_length = bd_byte_length d,
        ev_access = bd_requested_access d, ev_usable = True\<rparr>"
    using be.register_accepted [OF can reg] by auto
  ultimately show "backend_permits q (committed_record p bid bout auth) b' \<longleftrightarrow>
      unat (q_offset q) + unat (q_length q) \<le> unat (bd_byte_length d) \<and>
      access_has (bd_requested_access d) (intrinsic_right (q_kind q))"
    using be.can_register_rights [OF can] by (auto simp: backend_permits_def gen entry_permits_def)
qed

lemma backend_permits_register:
  assumes "be_wf b" and "be_room b" and "be_register d cx b = ((bo, out), b')" and "backend_permits q r b"
  shows "backend_permits q r b'"
  using assms(4) be.register_frame [OF assms(3)] be.register_preserves_live [OF assms(1-3)]
  by (auto simp: backend_permits_def)

definition demo_pending :: Pending where
  "demo_pending = PendingRegister page_buffer demo_bid
     (ready_record page_buffer demo_bid demo_pd demo_env demo0 demo_backend) demo_context"

definition demo_begun :: Impl where
  "demo_begun = demo0\<lparr>im_next_registration := 2\<rparr>"

lemma demo_begun_fields [simp]:
  "im_next_registration demo_begun = 2" "im_authority demo_begun = demo_authority"
  by (simp_all add: demo_begun_def)

lemma demo_begun_reachable: "sys_run (new_impl, []) (demo_begun, [demo_pending])"
proof -
  have "register_prepare page_buffer demo_bid demo_pd demo_env demo0 =
      (Inr (ready_record page_buffer demo_bid demo_pd demo_env demo0 demo_backend, demo_context), demo_begun)"
    using register_prepare_ready [OF demo0_ready]
    by (simp add: demo_begun_def ready_context_def demo_context_def)
  then have "sys_step (demo0, []) (demo_begun, [demo_pending])"
    unfolding demo_pending_def by (rule sys_step.register_begin) simp
  with demo0_reachable show ?thesis by (rule rtranclp.rtrancl_into_rtrancl)
qed

lemma demo_pending_opens:
  assumes "map_of (im_backends im) demo_bid = Some b" and "be_can_register page_buffer b = ''''"
    and "be_generation b = be_generation demo_backend"
    and "authority_agrees (im_authority im) demo_env"
  obtains bout b' im' r where "sys_run (im, [demo_pending]) (im', [])"
    "be_register page_buffer demo_context b = ((fst (fst (be_register page_buffer demo_context b)), Some bout), b')"
    "r_id r = demo_reg" "r_buffer_id r = StrongId 1" "r_lifecycle r = RL_ACTIVE" "r_domain_id r = demo_pd"
    "reg_at im' = (reg_at im)(demo_reg \<mapsto> r)" "im_backends im' = AList.update demo_bid b' (im_backends im)"
    "im_authority im' = im_authority im" "im_domains im' = im_domains im"
    "ad_outcome (fst (validate_remote_access demo_request im')) = AO_ALLOW"
proof -
  let ?p = "ready_record page_buffer demo_bid demo_pd demo_env demo0 demo_backend"
  obtain bout b' im' where
    step: "sys_run (im, [] @ PendingRegister page_buffer demo_bid ?p demo_context # []) (im', [] @ [])"
    and reg: "be_register page_buffer demo_context b =
      ((fst (fst (be_register page_buffer demo_context b)), Some bout), b')"
    and at: "reg_at im' = (reg_at im)(r_id ?p \<mapsto> committed_record ?p demo_bid bout (im_authority im))"
    and bs: "im_backends im' = AList.update demo_bid b' (im_backends im)"
    and rest: "im_authority im' = im_authority im" "im_domains im' = im_domains im"
    by (rule pending_register_completes [OF assms(1,2)])
  let ?r = "committed_record ?p demo_bid bout (im_authority im)"
  have r: "reg_at im' demo_reg = Some ?r" unfolding at by simp
  note permits = committed_permits [OF assms(2) reg, of ?p]
  have "access_ok demo_request im'"
    using r permits assms(3,4) unfolding access_ok_def rest(1)
    by (auto simp: reg_at_def bs um_simps record_permits_def lifecycle_permits_def
        expects_def names_id_def gen_valid_def no_gen_def access_superset_def access_has_def
        intrinsic_right_def)
  then have "ad_outcome (fst (validate_remote_access demo_request im')) = AO_ALLOW"
    by (simp add: validate_allow_iff)
  then show ?thesis
    using step reg at bs rest by (intro that [of im' bout b' ?r]) (simp_all add: demo_pending_def)
qed

section \<open>Properties\<close>

text \<open>C13. The single-flight check does not hold under concurrency: \<open>register_buffer\<close> looks for an
  active registration of the buffer in its first critical section and records one only in its
  last, so two overlapping calls both go through. The registry then holds two live registrations
  of one buffer, and a remote request is allowed under each of them.\<close>

theorem single_flight_race:
  "\<exists>im i j r s p q. sys_run (new_impl, []) (im, []) \<and> i \<noteq> j \<and>
     reg_at im i = Some r \<and> reg_at im j = Some s \<and> is_live (r_lifecycle r) \<and>
     is_live (r_lifecycle s) \<and> r_buffer_id r = r_buffer_id s \<and>
     q_source_registration p = i \<and> ad_outcome (fst (validate_remote_access p im)) = AO_ALLOW \<and>
     q_source_registration q = j \<and> ad_outcome (fst (validate_remote_access q im)) = AO_ALLOW"
proof -
  let ?q = "demo_request\<lparr>q_source_registration := StrongId 2\<rparr>"
  have ready: "register_ready page_buffer demo_bid demo_pd demo_env demo_begun demo_backend"
    using demo0_ready by (simp add: demo_begun_def register_ready_def domain_active_def buffer_current_def)
  have cx: "ready_context page_buffer demo_pd demo_env demo_begun demo_backend = demo_context"
    by (simp add: ready_context_def demo_context_def demo_begun_def)
  from ready obtain s where second: "snd (register_buffer page_buffer demo_bid demo_pd demo_env demo_begun) =
      registered_impl demo_bid demo_backend1 s demo_begun" and s: "r_id s = StrongId 2"
    "r_buffer_id s = StrongId 1" "r_lifecycle s = RL_ACTIVE" "r_backend s = demo_bid"
    and ok: "rr_ok (fst (register_buffer page_buffer demo_bid demo_pd demo_env demo_begun))"
    "rr_registration (fst (register_buffer page_buffer demo_bid demo_pd demo_env demo_begun)) = StrongId 2"
    by (rule register_buffer_ready) (auto simp: cx demo_be_register)
  let ?im = "registered_impl demo_bid demo_backend1 s demo_begun"
  have "sys_run (demo_begun, [demo_pending]) (?im, [demo_pending])"
    unfolding second [symmetric] by (rule register_buffer_runs) (simp add: demo_begun_def)
  with demo_begun_reachable have run: "sys_run (new_impl, []) (?im, [demo_pending])"
    by (rule rtranclp_trans)
  have at: "reg_at ?im = [StrongId 2 \<mapsto> s]" "map_of (im_backends ?im) demo_bid = Some demo_backend1"
    by (simp_all add: reg_at_def registered_impl_def um_simps s demo_begun_def demo0_eq)
  have "ad_outcome (fst (validate_remote_access ?q ?im)) = AO_ALLOW"
    using registered_access [OF surjective_pairing ok(1), of ?q] ok(2)
    by (auto simp: second demo_agrees expects_def names_id_def access_superset_def access_has_def
        intrinsic_right_def gen_valid_def no_gen_def)
  then have before: "access_ok ?q ?im" by (simp add: validate_allow_iff)
  have auth0: "im_authority ?im = demo_authority" by (simp add: registered_impl_def)
  have agree: "authority_agrees (im_authority ?im) demo_env" unfolding auth0 by (rule demo_agrees)
  obtain b' im' bout r where step: "sys_run (?im, [demo_pending]) (im', [])"
    and reg: "be_register page_buffer demo_context demo_backend1 =
      ((fst (fst (be_register page_buffer demo_context demo_backend1)), Some bout), b')"
    and r: "r_id r = demo_reg" "r_buffer_id r = StrongId 1" "r_lifecycle r = RL_ACTIVE"
    and at': "reg_at im' = (reg_at ?im)(demo_reg \<mapsto> r)"
    and bs: "im_backends im' = AList.update demo_bid b' (im_backends ?im)"
    and auth: "im_authority im' = im_authority ?im"
    and first: "ad_outcome (fst (validate_remote_access demo_request im')) = AO_ALLOW"
    by (rule demo_pending_opens [OF at(2) demo_backend1_can_register demo_backend1_capabilities(2) agree])
  have "map_of (im_registrations im') (StrongId 2) = Some s" using at(1) at' by (simp add: reg_at_def)
  with before at(1) have "access_ok ?q im'"
    using backend_permits_register [OF demo_backend1_wf reg]
    by (auto simp: access_ok_def bs auth um_simps reg_at_def s(4) at(2))
  then have "ad_outcome (fst (validate_remote_access ?q im')) = AO_ALLOW" by (simp add: validate_allow_iff)
  moreover have "sys_run (new_impl, []) (im', [])" using run step by (rule rtranclp_trans)
  moreover have "reg_at im' demo_reg = Some r" "reg_at im' (StrongId 2) = Some s" "demo_reg \<noteq> StrongId 2"
    by (simp_all add: at' at(1))
  moreover have "is_live (r_lifecycle r)" "is_live (r_lifecycle s)" "r_buffer_id r = r_buffer_id s"
    using r s by (simp_all add: is_live_def)
  ultimately show ?thesis using first
    by (intro exI [of _ im'] exI [of _ demo_reg] exI [of _ "StrongId 2"] exI [of _ r] exI [of _ s]
        exI [of _ demo_request] exI [of _ ?q]) simp
qed

text \<open>A protection domain can be destroyed while a registration in it is between its
  critical sections: the registration then becomes live in the destroyed domain, and a request
  that names that domain is allowed.\<close>

theorem registration_outlives_domain:
  "\<exists>im r e q. sys_run (new_impl, []) (im, []) \<and>
     reg_at im (q_source_registration q) = Some r \<and> is_live (r_lifecycle r) \<and>
     map_of (im_domains im) (r_domain_id r) = Some e \<and> de_state e = DS_DESTROYED \<and>
     id_valid (q_domain q) \<and> ad_outcome (fst (validate_remote_access q im)) = AO_ALLOW"
proof -
  let ?im = "exec (OpDestroyDomain demo_pd) demo_begun"
  have run: "sys_run (new_impl, []) (?im, [demo_pending])"
    by (rule run_atomic [OF demo_begun_reachable])
  have im: "im_backends ?im = [(demo_bid, demo_backend)]" "im_authority ?im = demo_authority"
    "\<exists>e. map_of (im_domains ?im) demo_pd = Some e \<and> de_state e = DS_DESTROYED"
    by (simp_all add: destroy_protection_domain_def demo_begun_def demo0_eq um_simps Let_def)
  have backend: "map_of (im_backends ?im) demo_bid = Some demo_backend" unfolding im(1) by simp
  have agree: "authority_agrees (im_authority ?im) demo_env" unfolding im(2) by (rule demo_agrees)
  obtain im' r where step: "sys_run (?im, [demo_pending]) (im', [])"
    and r: "r_lifecycle r = RL_ACTIVE" "r_domain_id r = demo_pd"
    and at: "reg_at im' = (reg_at ?im)(demo_reg \<mapsto> r)" and doms: "im_domains im' = im_domains ?im"
    and allowed: "ad_outcome (fst (validate_remote_access demo_request im')) = AO_ALLOW"
    by (rule demo_pending_opens [OF backend demo_can_register refl agree])
  from im(3) obtain e where "map_of (im_domains im') (r_domain_id r) = Some e" "de_state e = DS_DESTROYED"
    by (auto simp: doms r(2))
  moreover have "sys_run (new_impl, []) (im', [])" using run step by (rule rtranclp_trans)
  moreover have "reg_at im' (q_source_registration demo_request) = Some r" by (simp add: at)
  ultimately show ?thesis using r(1) allowed
    by (intro exI [of _ im'] exI [of _ r] exI [of _ e] exI [of _ demo_request]) (simp add: is_live_def)
qed

section \<open>A leased registration\<close>

definition demo_leased :: Impl where
  "demo_leased = snd (acquire_lease demo_reg demo_env 4 demo1)"

lemma demo_leased_eq:
  "demo_leased = demo1\<lparr>im_next_lease := 2,
     im_leases := [(StrongId 1, new_lease (StrongId 1) demo_reg demo_record demo_env 4)],
     im_registrations := [(demo_reg, demo_record\<lparr>r_lease_count := 1\<rparr>)],
     im_acct := (im_acct demo1)\<lparr>a_active_leases := increment 1 (a_active_leases (im_acct demo1))\<rparr>\<rparr>"
proof -
  have "ad_outcome (validate_authority demo_authority demo_env) = AO_ALLOW"
    by (simp add: validate_authority_allow_iff demo_agrees)
  moreover have "r_granted_access demo_record = 0x0C"
    by (simp add: demo_record_def demo_bout_def syn_make_registration_def)
  moreover have "im_authority demo1 = demo_authority" "im_registrations demo1 = [(demo_reg, demo_record)]"
    "im_leases demo1 = []" "im_next_lease demo1 = 1"
    by (simp_all add: demo1_eq)
  ultimately show ?thesis
    by (simp add: demo_leased_def acquire_lease_def Let_def access_superset_def)
qed

end
