(* ===== verification/LeaseAccounting.thy ===== *)
theory LeaseAccounting
  imports Invariant Races
begin

text \<open>
  Leases and accounting in runs without overlap and without recovery. The lease count of a
  registration is exactly the number of its leases that are not released, so \<open>deregister\<close> refuses
  exactly while a lease is out (\<open>LeaseRuns\<close> carries this over to overlapping calls). The counters of
  the accounting never exceed what the registry holds, so they are back at zero when it holds
  nothing; the byte counters are not among them, and a run at the end shows them leaking.
\<close>

lemma u64_room: "(x :: u64) \<noteq> - 1 \<Longrightarrow> unat x < 2 ^ 64 - 1"
  using u64_inc [of x] unat_u64_bound [of "x + 1"] by (simp add: word_less_nat_alt)

lemma u64_succ: "unat (c :: u64) < 2 ^ 64 - 1 \<Longrightarrow> unat (c + 1) = unat c + 1"
  by (simp add: unat_word_ariths)

lemma u64_pred: "0 < unat (c :: u64) \<Longrightarrow> unat (c - 1) = unat c - 1"
  by (simp add: unat_sub word_le_nat_alt)

section \<open>Leases that are out\<close>

definition outstanding :: "Impl \<Rightarrow> RegistrationId \<Rightarrow> RegistrationLeaseId set" where
  "outstanding im i =
     {k. \<exists>l. map_of (im_leases im) k = Some l \<and> l_registration l = i \<and> l_state l \<noteq> LS_RELEASED}"

definition active_leases :: "Impl \<Rightarrow> RegistrationLeaseId set" where
  "active_leases im = {k. \<exists>l. map_of (im_leases im) k = Some l \<and> l_state l = LS_ACTIVE}"

definition leases_named :: "Impl \<Rightarrow> bool" where
  "leases_named im \<longleftrightarrow>
     (\<forall>k l. map_of (im_leases im) k = Some l \<longrightarrow>
        id_value k < im_next_lease im \<and> reg_at im (l_registration l) \<noteq> None)"

definition lease_counts_exact :: "Impl \<Rightarrow> bool" where
  "lease_counts_exact im \<longleftrightarrow>
     (\<forall>i r. reg_at im i = Some r \<longrightarrow> unat (r_lease_count r) = card (outstanding im i))"

lemma finite_outstanding [simp]: "finite (outstanding im i)"
  by (rule finite_subset [OF _ finite_dom_map_of [of "im_leases im"]]) (auto simp: outstanding_def)

lemma finite_active_leases [simp]: "finite (active_leases im)"
  by (rule finite_subset [OF _ finite_dom_map_of [of "im_leases im"]]) (auto simp: active_leases_def)

lemma card_ids_below:
  assumes "\<forall>k \<in> A. id_value k < (n :: u64)"
  shows "card A \<le> unat n"
proof -
  have "inj_on (\<lambda>k. unat (id_value k)) A"
    by (rule inj_onI) (simp add: word_unat_eq_iff [symmetric] StrongId.expand)
  moreover have "(\<lambda>k. unat (id_value k)) ` A \<subseteq> {..<unat n}"
    using assms by (auto simp: word_less_nat_alt)
  ultimately have "card A \<le> card {..<unat n}"
    by (rule card_inj_on_le) simp
  then show ?thesis by simp
qed

lemma card_outstanding_bound: "leases_named im \<Longrightarrow> card (outstanding im i) \<le> unat (im_next_lease im)"
  by (rule card_ids_below) (auto simp: leases_named_def outstanding_def)

definition leases_ok :: "Impl \<Rightarrow> bool" where
  "leases_ok im \<longleftrightarrow> leases_named im \<and> lease_counts_exact im"

lemma leases_ok_quiet:
  assumes "leases_ok im" and "im_leases im' = im_leases im" and "im_next_lease im' = im_next_lease im"
    and "\<And>i. map_option r_lease_count (reg_at im' i) = map_option r_lease_count (reg_at im i)"
  shows "leases_ok im'"
proof -
  have none: "reg_at im' i = None \<longleftrightarrow> reg_at im i = None" for i
    using assms(4) [of i] by (cases "reg_at im i"; cases "reg_at im' i") simp_all
  have out: "outstanding im' i = outstanding im i" for i
    by (simp add: outstanding_def assms(2))
  have "\<exists>s. reg_at im i = Some s \<and> r_lease_count s = r_lease_count r" if "reg_at im' i = Some r" for i r
    using assms(4) [of i] that by (cases "reg_at im i") simp_all
  with assms(1) show ?thesis
    unfolding leases_ok_def leases_named_def lease_counts_exact_def assms(2,3) none out
    by metis
qed

lemma leases_ok_same:
  "leases_ok im \<Longrightarrow> im_leases im' = im_leases im \<Longrightarrow> im_next_lease im' = im_next_lease im \<Longrightarrow>
     im_registrations im' = im_registrations im \<Longrightarrow> leases_ok im'"
  by (rule leases_ok_quiet) (simp_all add: reg_at_def)

lemma leases_ok_acquire:
  assumes "leases_ok im" and "im_next_lease im \<noteq> - 1" and "acquire_lease i env m im = (la, im')"
  shows "leases_ok im'"
  using assms(3)
proof (cases rule: acquire_lease_cases)
  case refused
  with assms(1) show ?thesis by simp
next
  case (granted r ls)
  let ?k = "StrongId (im_next_lease im) :: RegistrationLeaseId"
  have at: "reg_at im' = (reg_at im)(i \<mapsto> r\<lparr>r_lease_count := r_lease_count r + 1\<rparr>)"
    and ls: "map_of (im_leases im') = (map_of (im_leases im))(?k \<mapsto> ls)"
    and n: "im_next_lease im' = im_next_lease im + 1"
    by (simp_all add: granted(9) reg_at_def um_simps fun_eq_iff)
  have l: "l_registration ls = i" "l_state ls = LS_ACTIVE"
    by (simp_all add: granted(8) new_lease_def)
  from assms(1) have named: "leases_named im" and exact: "lease_counts_exact im"
    by (simp_all add: leases_ok_def)
  have fresh: "map_of (im_leases im) ?k = None"
    using named by (cases "map_of (im_leases im) ?k") (fastforce simp: leases_named_def)+
  have inc: "im_next_lease im < im_next_lease im + 1" by (rule u64_inc [OF assms(2)])
  have "outstanding im' j = (if j = i then insert ?k (outstanding im j) else outstanding im j)" for j
    using fresh l by (auto simp: outstanding_def ls)
  moreover have "?k \<notin> outstanding im i" using fresh by (simp add: outstanding_def)
  ultimately have card: "card (outstanding im' j) = (if j = i then card (outstanding im j) + 1 else card (outstanding im j))" for j
    by simp
  from exact granted(3) have c: "unat (r_lease_count r) = card (outstanding im i)"
    by (simp add: lease_counts_exact_def)
  have "unat (r_lease_count r) < 2 ^ 64 - 1"
    using card_outstanding_bound [OF named, of i] u64_room [OF assms(2)] by (simp add: c)
  then have "unat (r_lease_count r + 1) = unat (r_lease_count r) + 1" by (rule u64_succ)
  then have "lease_counts_exact im'"
    using exact c by (auto simp: lease_counts_exact_def at card)
  moreover have "leases_named im'"
    using named inc by (auto simp: leases_named_def at ls n l intro: less_trans)
  ultimately show ?thesis by (simp add: leases_ok_def)
qed

lemma leases_ok_release:
  assumes "leases_ok im" and "release_lease lid im = (b, im')"
  shows "leases_ok im'"
  using assms(2)
proof (cases rule: release_lease_cases)
  case refused
  with assms(1) show ?thesis by simp
next
  case (released ls regs)
  from assms(1) have named: "leases_named im" and exact: "lease_counts_exact im"
    by (simp_all add: leases_ok_def)
  let ?i = "l_registration ls"
  from named released(2) obtain r where r: "reg_at im ?i = Some r"
    by (auto simp: leases_named_def)
  have regs: "regs = AList.update ?i (drop_lease_count r) (im_registrations im)"
    using released(4) r by simp
  have at: "reg_at im' = (reg_at im)(?i \<mapsto> drop_lease_count r)"
    and l: "map_of (im_leases im') = (map_of (im_leases im))(lid \<mapsto> ls\<lparr>l_state := LS_RELEASED\<rparr>)"
    and n: "im_next_lease im' = im_next_lease im"
    by (simp_all add: released(5) regs reg_at_def um_simps fun_eq_iff)
  have out: "outstanding im' j = (if j = ?i then outstanding im j - {lid} else outstanding im j)" for j
    using released(2) by (auto simp: outstanding_def l)
  have mem: "lid \<in> outstanding im ?i" using released(2,3) by (simp add: outstanding_def)
  from exact r have c: "unat (r_lease_count r) = card (outstanding im ?i)"
    by (simp add: lease_counts_exact_def)
  with mem have "0 < unat (r_lease_count r)" by (auto simp: card_gt_0_iff)
  then have "unat (r_lease_count (drop_lease_count r)) = unat (r_lease_count r) - 1"
    by (simp add: drop_lease_count_def word_less_nat_alt u64_pred)
  then have "lease_counts_exact im'"
    using exact c mem by (auto simp: lease_counts_exact_def at out)
  moreover have "leases_named im'"
    using named released(2) by (auto simp: leases_named_def at l n)
  ultimately show ?thesis by (simp add: leases_ok_def)
qed

lemma leases_ok_revoke:
  assumes "leases_ok im" and "revoke i mode im = (rv, im')"
  shows "leases_ok im'"
  using assms(2)
proof (cases rule: revoke_cases)
  case refused
  with assms(1) show ?thesis by simp
next
  case (soft r)
  then show ?thesis
    by (intro leases_ok_quiet [OF assms(1)])
      (auto simp: reg_at_def um_simps soft_revoked_reg_def)
next
  case (hard r ls a)
  let ?im = "im\<lparr>im_leases := ls\<rparr>"
  have l: "map_of ls k = map_option (\<lambda>l. if l_registration l = i \<and> l_state l = LS_ACTIVE
      then l\<lparr>l_state := LS_REVOKED\<rparr> else l) (map_of (im_leases im) k)" for k
    by (rule um_for_map_of [OF hard(5)])
  have "k \<in> outstanding ?im j \<longleftrightarrow> k \<in> outstanding im j" for k j
    by (cases "map_of (im_leases im) k") (auto simp: outstanding_def l)
  then have out: "outstanding ?im j = outstanding im j" for j by blast
  have "leases_named ?im"
    using assms(1) by (auto simp: leases_ok_def leases_named_def l reg_at_def split: if_splits)
  moreover have "lease_counts_exact ?im"
    using assms(1) by (simp add: leases_ok_def lease_counts_exact_def out) (simp add: reg_at_def)
  ultimately have "leases_ok ?im" by (simp add: leases_ok_def)
  then show ?thesis
    by (rule leases_ok_quiet)
      (use hard(3) in \<open>auto simp: hard(6) reg_at_def um_simps hard_revoked_reg_def\<close>)
qed

lemma leases_ok_exec:
  assumes "leases_ok im" and "im_next_lease im \<noteq> - 1"
  shows "leases_ok (exec op im)"
proof (cases op)
  case (OpAcquireLease i env m)
  with leases_ok_acquire [OF assms surjective_pairing] show ?thesis by simp
next
  case (OpReleaseLease l)
  with leases_ok_release [OF assms(1) surjective_pairing] show ?thesis by simp
next
  case (OpRevoke i mode)
  with leases_ok_revoke [OF assms(1) surjective_pairing] show ?thesis by simp
qed (rule leases_ok_quiet [OF assms(1) exec_leases exec_lease_counts]; simp)+

lemma leases_ok_register:
  assumes "leases_ok im" and "named im"
  shows "leases_ok (snd (register_buffer d bid pd env im))"
proof -
  obtain rr im' where reg: "register_buffer d bid pd env im = (rr, im')" by (rule prod.exhaust)
  from reg show ?thesis
  proof (cases rule: register_buffer_cases)
    case refused
    with assms reg show ?thesis by simp
  next
    case (accepted b bo bout b' r)
    have at: "reg_at im' = (reg_at im)(r_id r \<mapsto> r)"
      and l: "im_leases im' = im_leases im" "im_next_lease im' = im_next_lease im"
      by (simp_all add: accepted(4) registered_impl_def reg_at_def um_simps)
    have r: "r_id r = StrongId (im_next_registration im)" "r_lease_count r = 0"
      by (simp_all add: accepted(3))
    have "reg_at im (r_id r) = None"
      using assms(2) by (cases "reg_at im (r_id r)") (fastforce simp: named_def r)+
    then have "l_registration l \<noteq> r_id r" if "map_of (im_leases im) k = Some l" for k l
      using assms(1) that unfolding leases_ok_def leases_named_def by metis
    then have none: "outstanding im (r_id r) = {}"
      by (auto simp: outstanding_def)
    have out: "outstanding im' j = outstanding im j" for j
      by (simp add: outstanding_def l)
    show ?thesis
      using assms(1) none r(2)
      by (auto simp: reg leases_ok_def leases_named_def lease_counts_exact_def at l out)
  qed
qed

lemma leases_ok_deregister:
  assumes "leases_ok im" and "tables_wf im"
  shows "leases_ok (snd (deregister i im))"
proof -
  obtain ok ex im' where dereg: "deregister i im = ((ok, ex), im')" by (metis surj_pair)
  from dereg show ?thesis
  proof (cases rule: deregister_cases)
    case refused
    with assms dereg show ?thesis by simp
  next
    case (failed r bs)
    have "im_leases im' = im_leases im" "im_next_lease im' = im_next_lease im"
      by (subst failed(5), simp)+
    then show ?thesis
      unfolding dereg snd_conv
      by (rule leases_ok_quiet [OF assms(1)]) (simp add: failed(2,4))
  next
    case (erased r bs a)
    have at: "reg_at im' = (reg_at im)(i := None)"
      and n: "im_next_lease im' = im_next_lease im"
      by (simp_all add: erased(6) reg_at_def um_simps)
    have l: "map_of (im_leases im') k = (case map_of (im_leases im) k of None \<Rightarrow> None
        | Some l \<Rightarrow> if l_registration l = i then None else Some l)" for k
      using assms(2) by (simp add: erased(6) um_simps tables_wf_def)
    have "outstanding im' j = outstanding im j" if "j \<noteq> i" for j
      using that by (auto simp: outstanding_def l split: option.splits)
    then show ?thesis
      using assms(1)
      by (auto simp: dereg leases_ok_def leases_named_def lease_counts_exact_def at n l
          split: option.splits if_splits)
  qed
qed

lemma seq_reach_leases: "seq_reach im \<Longrightarrow> leases_ok im"
proof (induction rule: seq_reach.induct)
  case init
  show ?case
    by (simp add: new_impl_def leases_ok_def leases_named_def lease_counts_exact_def reg_at_def)
next
  case (op im op)
  then show ?case using leases_ok_exec by blast
next
  case (registering im d bid pd env)
  then show ?case using leases_ok_register seq_reach_inv by blast
next
  case (deregistering im i)
  then show ?case using leases_ok_deregister seq_reach_inv by blast
qed

section \<open>Counters\<close>

text \<open>What the counters of registrations and keys are held against: the registrations.\<close>

definition regs_bounded :: "Impl \<Rightarrow> bool" where
  "regs_bounded im \<longleftrightarrow>
     unat (a_active_registrations (im_acct im)) \<le> card (dom (reg_at im)) \<and>
     unat (a_local_keys (im_acct im)) \<le> card (dom (reg_at im)) \<and>
     unat (a_remote_keys (im_acct im)) \<le> card (dom (reg_at im))"

definition leases_bounded :: "Impl \<Rightarrow> bool" where
  "leases_bounded im \<longleftrightarrow> unat (a_active_leases (im_acct im)) \<le> card (active_leases im)"

text \<open>\<open>not_above a a'\<close>: the counters of registrations have not grown, that of leases is the same.\<close>

definition not_above :: "Accounting \<Rightarrow> Accounting \<Rightarrow> bool" where
  "not_above a a' \<longleftrightarrow>
     unat (a_active_registrations a') \<le> unat (a_active_registrations a) \<and>
     unat (a_local_keys a') \<le> unat (a_local_keys a) \<and>
     unat (a_remote_keys a') \<le> unat (a_remote_keys a) \<and> a_active_leases a' = a_active_leases a"

lemma not_above_invalidate: "not_above a (account_registration_invalidate r a)"
  by (simp add: not_above_def account_registration_invalidate_def decr_le)

lemma not_above_trans: "not_above a b \<Longrightarrow> not_above b c \<Longrightarrow> not_above a c"
  by (simp add: not_above_def)

lemma not_above_loop:
  assumes "um_for p f account_registration_invalidate m acc = (m', a)"
  shows "not_above acc a"
proof -
  have "not_above acc (snd (um_for p f account_registration_invalidate m acc))"
    by (induction p f "account_registration_invalidate" m acc rule: um_for.induct)
      (auto simp: split_def Let_def not_above_def [of acc acc for acc]
        intro: not_above_trans [OF not_above_invalidate])
  with assms show ?thesis by simp
qed

lemma dom_reg_at_finite [simp]: "finite (dom (reg_at im))"
  by (simp add: reg_at_def finite_dom_map_of)

lemma keeps_dom: "keeps im im' \<Longrightarrow> dom (reg_at im') = dom (reg_at im)"
  using keepsD keeps_None by (fastforce simp: dom_def)

lemma regs_bounded_quiet:
  "regs_bounded im \<Longrightarrow> dom (reg_at im') = dom (reg_at im) \<Longrightarrow> not_above (im_acct im) (im_acct im') \<Longrightarrow>
     regs_bounded im'"
  by (simp add: regs_bounded_def not_above_def)

lemma leases_bounded_quiet:
  "leases_bounded im \<Longrightarrow> im_leases im' = im_leases im \<Longrightarrow> not_above (im_acct im) (im_acct im') \<Longrightarrow>
     leases_bounded im'"
  by (simp add: leases_bounded_def not_above_def active_leases_def)

text \<open>The leases in state \<open>ACTIVE\<close>, counted as list elements.\<close>

lemma card_map_of_filter:
  assumes "um_wf m"
  shows "card {k. \<exists>v. map_of m k = Some v \<and> P v} = length (filter (\<lambda>kv. P (snd kv)) m)"
proof -
  have "{k. \<exists>v. map_of m k = Some v \<and> P v} = fst ` set (filter (\<lambda>kv. P (snd kv)) m)"
    using assms by (force simp: um_wf_def)
  moreover have "distinct (map fst (filter (\<lambda>kv. P (snd kv)) m))"
    using assms by (simp add: um_wf_def distinct_map_filter)
  ultimately show ?thesis
    by (metis distinct_card length_map set_map)
qed

lemma revoke_loop:
  assumes "um_for (\<lambda>l. l_registration l = i \<and> l_state l = LS_ACTIVE) (\<lambda>l. l\<lparr>l_state := LS_REVOKED\<rparr>)
      (\<lambda>l a. a\<lparr>a_active_leases := decr 1 (a_active_leases a)\<rparr>) m acc = (m', a)"
    and "unat (a_active_leases acc) \<le> n + length (filter (\<lambda>kv. l_state (snd kv) = LS_ACTIVE) m)"
  shows "unat (a_active_leases a) \<le> n + length (filter (\<lambda>kv. l_state (snd kv) = LS_ACTIVE) m')"
  using assms
proof (induction m arbitrary: acc m' a n)
  case (Cons kl m)
  obtain k l where kl: "kl = (k, l)" by (cases kl)
  show ?case
  proof (cases "l_registration l = i \<and> l_state l = LS_ACTIVE")
    case True
    with Cons.prems(1) kl obtain m1 where
      loop: "um_for (\<lambda>l. l_registration l = i \<and> l_state l = LS_ACTIVE) (\<lambda>l. l\<lparr>l_state := LS_REVOKED\<rparr>)
        (\<lambda>l a. a\<lparr>a_active_leases := decr 1 (a_active_leases a)\<rparr>) m
        (acc\<lparr>a_active_leases := decr 1 (a_active_leases acc)\<rparr>) = (m1, a)"
      and m': "m' = (k, l\<lparr>l_state := LS_REVOKED\<rparr>) # m1"
      by (auto split: prod.splits)
    have "unat (decr 1 (a_active_leases acc)) \<le> unat (a_active_leases acc) - 1"
      by (simp add: unat_decr)
    with Cons.prems(2) kl True
    have "unat (decr 1 (a_active_leases acc)) \<le> n + length (filter (\<lambda>kv. l_state (snd kv) = LS_ACTIVE) m)"
      by simp
    with Cons.IH [OF loop, of n] show ?thesis by (simp add: m')
  next
    case False
    with Cons.prems(1) kl obtain m1 where
      loop: "um_for (\<lambda>l. l_registration l = i \<and> l_state l = LS_ACTIVE) (\<lambda>l. l\<lparr>l_state := LS_REVOKED\<rparr>)
        (\<lambda>l a. a\<lparr>a_active_leases := decr 1 (a_active_leases a)\<rparr>) m acc = (m1, a)"
      and m': "m' = (k, l) # m1"
      by (auto split: prod.splits)
    from Cons.IH [OF loop, of "if l_state l = LS_ACTIVE then n + 1 else n"] Cons.prems(2) kl
    show ?thesis by (simp add: m' split: if_splits)
  qed
qed simp

lemma um_for_revoke_acct:
  "um_for p f (\<lambda>l a. a\<lparr>a_active_leases := decr 1 (a_active_leases a)\<rparr>) m acc = (m', a) \<Longrightarrow>
     a = acc\<lparr>a_active_leases := a_active_leases a\<rparr>"
proof (induction m arbitrary: acc m' a)
  case (Cons kl m)
  obtain k l where kl: "kl = (k, l)" by (cases kl)
  obtain m1 a1 acc1 where step: "um_for p f (\<lambda>l a. a\<lparr>a_active_leases := decr 1 (a_active_leases a)\<rparr>) m acc1 = (m1, a)"
    and acc1: "acc1 = acc\<lparr>a_active_leases := a_active_leases acc1\<rparr>"
    using Cons.prems kl by (cases "p l") (auto split: prod.splits)
  from Cons.IH [OF step] acc1 show ?case
    by (metis Accounting.update_convs(6) Accounting.surjective)
qed simp

text \<open>Each operation keeps the counters within their bounds.\<close>

lemma access_count_not_above: "not_above a (access_count q oc s a)"
  by (simp add: not_above_def access_count_def count_completed_def count_refusal_def)

lemma reuse_not_above: "not_above (im_acct im) (im_acct (snd (register_buffer_reuse d bid pd env im)))"
  by (auto simp: register_buffer_reuse_def Let_def on_acct_def not_above_def split: option.split)

definition counters_ok :: "Impl \<Rightarrow> bool" where
  "counters_ok im \<longleftrightarrow> regs_bounded im \<and> leases_bounded im"

lemma counters_ok_quiet:
  assumes "counters_ok im" and "dom (reg_at im') = dom (reg_at im)" and "im_leases im' = im_leases im"
    and "not_above (im_acct im) (im_acct im')"
  shows "counters_ok im'"
  using assms regs_bounded_quiet [of im im'] leases_bounded_quiet [of im im']
  by (simp add: counters_ok_def)

lemma counters_ok_acquire:
  assumes "counters_ok im" and "leases_named im" and "acquire_lease i env m im = (la, im')"
  shows "counters_ok im'"
  using assms(3)
proof (cases rule: acquire_lease_cases)
  case refused
  with assms(1) show ?thesis by simp
next
  case (granted r ls)
  let ?k = "StrongId (im_next_lease im) :: RegistrationLeaseId"
  have fresh: "map_of (im_leases im) ?k = None"
    using assms(2) by (cases "map_of (im_leases im) ?k") (fastforce simp: leases_named_def)+
  have "active_leases im' = insert ?k (active_leases im)" "?k \<notin> active_leases im"
    using fresh by (auto simp: active_leases_def granted(8,9) um_simps new_lease_def)
  then have "card (active_leases im') = card (active_leases im) + 1" by simp
  moreover have "unat (increment 1 (a_active_leases (im_acct im))) \<le> unat (a_active_leases (im_acct im)) + 1"
    using unat_increment_le [of 1] by simp
  ultimately have "leases_bounded im'"
    using assms(1) by (simp add: counters_ok_def leases_bounded_def granted(9))
  moreover have "dom (reg_at im') = dom (reg_at im)"
    using acquire_lease_keeps [OF assms(3)] by (rule keeps_dom)
  then have "regs_bounded im'"
    using assms(1) by (simp add: counters_ok_def regs_bounded_def granted(9))
  ultimately show ?thesis by (simp add: counters_ok_def)
qed

lemma counters_ok_release:
  assumes "counters_ok im" and "release_lease lid im = (b, im')"
  shows "counters_ok im'"
  using assms(2)
proof (cases rule: release_lease_cases)
  case refused
  with assms(1) show ?thesis by simp
next
  case (released ls regs)
  have act: "active_leases im' = active_leases im - {lid}"
    by (auto simp: active_leases_def released(5) um_simps)
  have "unat (decr 1 (a_active_leases (im_acct im))) \<le> unat (a_active_leases (im_acct im)) - 1"
    by (simp add: unat_decr)
  then have "unat (decr 1 (a_active_leases (im_acct im))) \<le> card (active_leases im - {lid})"
    using assms(1) by (auto simp: counters_ok_def leases_bounded_def card_Diff_singleton_if)
  then have "leases_bounded im'"
    unfolding leases_bounded_def act by (simp add: released(5))
  moreover have "dom (reg_at im') = dom (reg_at im)"
    using release_lease_keeps [OF assms(2)] by (rule keeps_dom)
  then have "regs_bounded im'"
    using assms(1) by (simp add: counters_ok_def regs_bounded_def released(5))
  ultimately show ?thesis by (simp add: counters_ok_def)
qed

lemma counters_ok_revoke:
  assumes "counters_ok im" and "tables_wf im" and "revoke i mode im = (rv, im')"
  shows "counters_ok im'"
  using assms(3)
proof (cases rule: revoke_cases)
  case refused
  with assms(1) show ?thesis by simp
next
  case (soft r)
  have "dom (reg_at im') = dom (reg_at im)"
    using revoke_keeps [OF assms(3)] by (rule keeps_dom)
  then show ?thesis
    by (rule counters_ok_quiet [OF assms(1)]) (simp_all add: soft(5) not_above_def count_revocation_def)
next
  case (hard r ls a)
  have wf: "um_wf (im_leases im)" "um_wf ls"
    using assms(2) um_wf_loop [OF hard(5)] by (simp_all add: tables_wf_def)
  have "active_leases im' = {k. \<exists>l. map_of ls k = Some l \<and> l_state l = LS_ACTIVE}"
    by (simp add: active_leases_def hard(6))
  then have "card (active_leases im') = length (filter (\<lambda>kv. l_state (snd kv) = LS_ACTIVE) ls)"
    and "card (active_leases im) = length (filter (\<lambda>kv. l_state (snd kv) = LS_ACTIVE) (im_leases im))"
    by (simp_all add: card_map_of_filter wf active_leases_def)
  with revoke_loop [OF hard(5), of 0] assms(1) have "leases_bounded im'"
    by (simp add: counters_ok_def leases_bounded_def hard(6) count_revocation_def)
  moreover have "dom (reg_at im') = dom (reg_at im)"
    using revoke_keeps [OF assms(3)] by (rule keeps_dom)
  then have "regs_bounded im'"
    using assms(1) um_for_revoke_acct [OF hard(5)]
    by (auto simp: counters_ok_def regs_bounded_def hard(6) count_revocation_def) (metis Accounting.select_convs Accounting.update_convs(6) Accounting.surjective)+
  ultimately show ?thesis by (simp add: counters_ok_def)
qed

lemma create_buffer_not_above:
  assumes "create_buffer d im = (i, im')"
  shows "not_above (im_acct im) (im_acct im')"
  using assms
proof (cases rule: create_buffer_cases)
  case (refused j im0)
  with named_buffer_frame [OF refused(1)] show ?thesis by (auto simp: not_above_def)
next
  case (created im0 a)
  with named_buffer_frame [OF created(1)] show ?thesis by (auto simp: not_above_def)
next
  case (reallocated im0 e regs a b)
  with named_buffer_frame [OF reallocated(1)] not_above_loop [OF reallocated(4)] show ?thesis
    by (auto simp: not_above_def)
qed

lemma exec_not_above:
  assumes "\<And>i env m. op \<noteq> OpAcquireLease i env m" and "\<And>l. op \<noteq> OpReleaseLease l"
    and "\<And>i m. op \<noteq> OpRevoke i m"
  shows "not_above (im_acct im) (im_acct (exec op im))"
proof (cases op)
  case (OpDestroyDomain d)
  obtain b im' where c: "destroy_protection_domain d im = (b, im')" by (rule prod.exhaust)
  from c have "not_above (im_acct im) (im_acct im')"
  proof (cases rule: destroy_protection_domain_cases)
    case (destroyed e regs a)
    with not_above_loop [OF destroyed(3)] show ?thesis by (simp add: not_above_def)
  qed (simp add: not_above_def)
  then show ?thesis by (simp add: OpDestroyDomain c)
next
  case (OpCreateBuffer d)
  with create_buffer_not_above [OF surjective_pairing] show ?thesis by simp
next
  case (OpRotateKey i)
  obtain ok ex im' where c: "rotate_key i im = ((ok, ex), im')" by (metis surj_pair)
  from c have "im_acct im' = im_acct im" by (cases rule: rotate_key_cases) simp_all
  then show ?thesis by (simp add: OpRotateKey c not_above_def)
next
  case (OpValidate q)
  have "snd (validate_remote_access q im) =
      on_acct (access_count q (ad_outcome (fst (validate_remote_access q im))) (authority_stops q im)) im"
    using validate_counted [of q im] by (simp add: counted_def)
  then show ?thesis by (simp add: OpValidate on_acct_def access_count_not_above)
next
  case (OpReuse d bid pd env)
  then show ?thesis by (simp add: reuse_not_above)
qed (use assms in \<open>auto simp: plain_ops not_above_def Let_def split: option.split\<close>)

lemma counters_ok_exec:
  assumes "counters_ok im" and "leases_named im" and "tables_wf im"
  shows "counters_ok (exec op im)"
proof -
  have dom: "dom (reg_at (exec op im)) = dom (reg_at im)" by (rule keeps_dom [OF exec_keeps])
  show ?thesis
  proof (cases op)
    case (OpAcquireLease i env m)
    with counters_ok_acquire [OF assms(1,2) surjective_pairing] show ?thesis by simp
  next
    case (OpReleaseLease l)
    with counters_ok_release [OF assms(1) surjective_pairing] show ?thesis by simp
  next
    case (OpRevoke i mode)
    with counters_ok_revoke [OF assms(1,3) surjective_pairing] show ?thesis by simp
  qed (rule counters_ok_quiet [OF assms(1) dom exec_leases(1) exec_not_above]; simp)+
qed

lemma counters_ok_register:
  assumes "counters_ok im" and "named im"
  shows "counters_ok (snd (register_buffer d bid pd env im))"
proof -
  obtain rr im' where reg: "register_buffer d bid pd env im = (rr, im')" by (rule prod.exhaust)
  from reg show ?thesis
  proof (cases rule: register_buffer_cases)
    case refused
    with assms reg show ?thesis by simp
  next
    case (accepted b bo bout b' r)
    have at: "reg_at im' = (reg_at im)(r_id r \<mapsto> r)"
      by (simp add: accepted(4) registered_impl_def reg_at_def um_simps)
    have "reg_at im (r_id r) = None"
      using assms(2) by (cases "reg_at im (r_id r)") (fastforce simp: named_def accepted(3))+
    then have card: "card (dom (reg_at im')) = card (dom (reg_at im)) + 1"
      by (simp add: at card_insert_if domIff)
    have a: "im_acct im' = account_registration_commit r (im_acct im)" "im_leases im' = im_leases im"
      by (simp_all add: accepted(4) registered_impl_def)
    have inc: "unat (increment 1 c) \<le> unat c + 1" for c
      using unat_increment_le [of 1 c] by simp
    show ?thesis
      using assms(1) inc [of "a_active_registrations (im_acct im)"] inc [of "a_local_keys (im_acct im)"]
        inc [of "a_remote_keys (im_acct im)"]
      by (simp add: reg counters_ok_def regs_bounded_def leases_bounded_def active_leases_def card a
          account_registration_commit_def)
  qed
qed

lemma counters_ok_deregister:
  assumes "counters_ok im" and "leases_ok im" and "tables_wf im"
  shows "counters_ok (snd (deregister i im))"
proof -
  obtain ok ex im' where dereg: "deregister i im = ((ok, ex), im')" by (metis surj_pair)
  from dereg show ?thesis
  proof (cases rule: deregister_cases)
    case refused
    with assms dereg show ?thesis by simp
  next
    case (failed r bs)
    have "im_leases im' = im_leases im" "im_acct im' = im_acct im"
      by (subst failed(5), simp)+
    moreover have "dom (reg_at im') = dom (reg_at im)" using failed(2) by (auto simp: failed(4))
    ultimately show ?thesis
      unfolding dereg snd_conv by (intro counters_ok_quiet [OF assms(1)]) (simp_all add: not_above_def)
  next
    case (erased r bs a)
    have at: "reg_at im' = (reg_at im)(i := None)"
      by (simp add: erased(6) reg_at_def um_simps)
    have card: "card (dom (reg_at im')) = card (dom (reg_at im)) - 1"
      using erased(2) by (simp add: at card_Diff_singleton domI)
    from assms(2) erased(2,3) have "outstanding im i = {}"
      by (fastforce simp: leases_ok_def lease_counts_exact_def)
    then have none: "l_state l = LS_RELEASED"
      if "map_of (im_leases im) k = Some l" "l_registration l = i" for k l
      using that by (auto simp: outstanding_def)
    have l: "map_of (im_leases im') k = (case map_of (im_leases im) k of None \<Rightarrow> None
        | Some l \<Rightarrow> if l_registration l = i then None else Some l)" for k
      using assms(3) by (simp add: erased(6) um_simps tables_wf_def)
    have act: "active_leases im' = active_leases im"
      using none by (auto simp: active_leases_def l split: option.splits)
    have dec: "unat (decr 1 c) \<le> n - 1" if "unat c \<le> n" for c n
      using that by (auto simp: unat_decr)
    have "leases_bounded im'"
      using assms(1) by (simp add: counters_ok_def leases_bounded_def act)
        (simp add: erased(6) erased(5) account_registration_invalidate_def)
    moreover have "regs_bounded im'"
      using assms(1) unfolding regs_bounded_def card
      by (simp add: counters_ok_def regs_bounded_def erased(6) erased(5)
          account_registration_invalidate_def dec [simplified])
    ultimately show ?thesis by (simp add: dereg counters_ok_def)
  qed
qed

lemma seq_reach_counters: "seq_reach im \<Longrightarrow> counters_ok im"
proof (induction rule: seq_reach.induct)
  case init
  show ?case
    by (simp add: new_impl_def zero_accounting_def counters_ok_def regs_bounded_def leases_bounded_def)
next
  case (op im op)
  then show ?case
    using counters_ok_exec seq_reach_inv seq_reach_leases by (auto simp: leases_ok_def)
next
  case (registering im d bid pd env)
  then show ?case using counters_ok_register seq_reach_inv by blast
next
  case (deregistering im i)
  then show ?case using counters_ok_deregister seq_reach_inv seq_reach_leases by blast
qed

section \<open>Properties\<close>

text \<open>Teardown is clean for the counted objects: when a registry whose calls do not overlap
  holds no registration any more, its counters of active registrations, leases, local keys and
  remote keys are all zero, whatever was revoked, destroyed, reallocated or failed before.\<close>

theorem teardown_counters_zero:
  assumes "seq_reach im" and "registrations im = []"
  shows "a_active_registrations (im_acct im) = 0 \<and> a_active_leases (im_acct im) = 0 \<and>
    a_local_keys (im_acct im) = 0 \<and> a_remote_keys (im_acct im) = 0"
proof -
  from assms(2) have "im_registrations im = []"
    by (metis list.map_disc_iff registrations_def set_empty set_sort)
  then have none: "reg_at im = Map.empty" by (simp add: reg_at_def)
  with seq_reach_leases [OF assms(1)] have "active_leases im = {}"
    by (auto simp: leases_ok_def leases_named_def active_leases_def)
  with none seq_reach_counters [OF assms(1)] show ?thesis
    by (simp add: counters_ok_def regs_bounded_def leases_bounded_def unat_eq_0)
qed

lemma filter_single:
  assumes "um_wf m" and "map_of m i = Some r" and "p r"
    and "\<And>j s. map_of m j = Some s \<Longrightarrow> p s \<Longrightarrow> j = i"
  shows "filter p (map snd m) = [r]"
  using assms
proof (induction m)
  case (Cons kv m)
  obtain k v where kv: "kv = (k, v)" by (cases kv)
  from Cons.prems(1) have wf: "um_wf m" and k: "k \<notin> fst ` set m" by (simp_all add: um_wf_def kv)
  have weaker: "map_of (kv # m) j = Some s" if "map_of m j = Some s" for j s
    using that k by (cases "j = k") (force simp: kv dest: map_of_SomeD)+
  show ?case
  proof (cases "k = i")
    case True
    have "\<not> p s" if "s \<in> snd ` set m" for s
    proof
      assume "p s"
      from that obtain j where "(j, s) \<in> set m" by auto
      with wf have "map_of m j = Some s" by (simp add: um_wf_def)
      with weaker Cons.prems(4) \<open>p s\<close> have "j = i" by blast
      with \<open>(j, s) \<in> set m\<close> k True show False by force
    qed
    then have "filter p (map snd m) = []" by (auto simp: filter_empty_conv)
    with True Cons.prems(2,3) show ?thesis by (simp add: kv)
  next
    case False
    then have "\<not> p v" using Cons.prems(4) [of k v] by (auto simp: kv)
    moreover have "filter p (map snd m) = [r]"
      using Cons.prems(2,3,4) False weaker by (intro Cons.IH wf) (auto simp: kv)
    ultimately show ?thesis by (simp add: kv)
  qed
qed simp

text \<open>Destroying a protection domain charges its registrations twice: when the only live
  registration of a domain is revoked by \<open>destroy_protection_domain\<close> and then deregistered, its
  bytes are taken off \<open>registered_bytes\<close>, and itself off \<open>active_registrations\<close>, by both
  operations, although they were added once.\<close>

theorem destroyed_domain_counted_twice:
  assumes "seq_reach im" and "reg_at im i = Some r" and "is_live (r_lifecycle r)"
    and "\<And>j s. reg_at im j = Some s \<Longrightarrow> is_live (r_lifecycle s) \<Longrightarrow> r_domain_id s = r_domain_id r \<Longrightarrow> j = i"
    and "destroy_protection_domain (r_domain_id r) im = (b, im1)"
    and "deregister i im1 = ((True, ex), im2)"
  shows "a_registered_bytes (im_acct im2) =
      decr (r_length r) (decr (r_length r) (a_registered_bytes (im_acct im))) \<and>
    a_active_registrations (im_acct im2) = decr 1 (decr 1 (a_active_registrations (im_acct im)))"
proof -
  note inv = seq_reach_inv [OF assms(1)]
  from inv assms(2,3) have "domain_active (r_domain_id r) im"
    by (auto simp: grounded_def live_at_def placed_def)
  then have known: "map_of (im_domains im) (r_domain_id r) \<noteq> None" by (auto simp: domain_active_def)
  let ?p = "\<lambda>s. r_domain_id s = r_domain_id r \<and> is_live (r_lifecycle s)"
  have one: "filter ?p (map snd (im_registrations im)) = [r]"
  proof (rule filter_single [where i = i and r = r and p = ?p])
    show "um_wf (im_registrations im)" using inv by (simp add: tables_wf_def)
    show "map_of (im_registrations im) i = Some r" using assms(2) by (simp add: reg_at_def)
    show "?p r" using assms(3) by simp
    fix j s
    assume "map_of (im_registrations im) j = Some s" and "?p s"
    with assms(4) [of j s] show "j = i" by (simp add: reg_at_def)
  qed
  from assms(5) have first: "a_registered_bytes (im_acct im1) = decr (r_length r) (a_registered_bytes (im_acct im)) \<and>
      a_active_registrations (im_acct im1) = decr 1 (a_active_registrations (im_acct im)) \<and>
      reg_at im1 i = Some (domain_destroyed_reg r)"
  proof (cases rule: destroy_protection_domain_cases)
    case missing
    with known show ?thesis by simp
  next
    case (destroyed e regs a)
    have "a = account_registration_invalidate (domain_destroyed_reg r) (im_acct im)"
      using um_for_snd [of ?p domain_destroyed_reg account_registration_invalidate
          "im_registrations im" "im_acct im"] one destroyed(3) by simp
    moreover have "reg_at im1 i = Some (domain_destroyed_reg r)"
      using reg_at_um_for [OF destroyed(3), of im1] assms(2,3) by (simp add: destroyed(4))
    ultimately show ?thesis
      by (simp add: destroyed(4) account_registration_invalidate_def domain_destroyed_reg_def)
  qed
  from assms(6) show ?thesis
  proof (cases rule: deregister_cases)
    case (erased r' bs a)
    with first have "r_length r' = r_length r" by (simp add: domain_destroyed_reg_def)
    with first show ?thesis
      by (simp add: erased(6) erased(5) account_registration_invalidate_def)
  qed simp_all
qed

section \<open>Witnesses\<close>

lemma demo_leased_seq: "seq_reach demo_leased"
  using seq_reach.op [OF demo1_seq, of "OpAcquireLease demo_reg demo_env 4"]
  by (simp add: demo_leased_def demo1_eq)

text \<open>Deregistering the scenario's registration succeeds whatever state its record is in.\<close>

lemma demo_deregisters:
  assumes "im_registrations im = [(demo_reg, r)]" and "im_backends im = [(demo_bid, demo_backend1)]"
    and "reg_handle r = reg_handle demo_record" and "r_backend r = demo_bid"
    and "r_lease_count r = 0" and "deregisterable (r_lifecycle r)"
  shows "\<exists>ex im'. deregister demo_reg im = ((True, ex), im') \<and> im_registrations im' = []"
proof -
  have h: "reg_handle demo_record =
      \<lparr>rh_memory_region_id = demo_region, rh_handle = syn_make_handle demo_region\<rparr>"
    by (simp add: reg_handle_def demo_record_def demo_bout_def syn_make_registration_def)
  have "ro_ok (fst (be_deregister (reg_handle demo_record) demo_backend1))"
    by (simp add: h demo_backend1_def syn_deregister_def apsnd_def map_prod_def split_def)
  then obtain bo b' where call: "be_deregister (reg_handle demo_record) demo_backend1 = (bo, b')" "ro_ok bo"
    by (metis fst_conv surj_pair)
  with assms show ?thesis
    by (simp add: deregister_def deregister_prepare_def deregister_backend_def deregister_finish_def
        put_reg_def Let_def)
qed

lemma demo1_deregisters:
  "\<exists>ex im'. deregister demo_reg demo1 = ((True, ex), im') \<and> im_registrations im' = []"
  by (rule demo_deregisters [of _ demo_record]) (simp_all add: demo1_eq deregisterable_def)

theorem teardown_counters_zero_witness:
  "registrations (snd (deregister demo_reg demo1)) = [] \<and>
   a_active_registrations (im_acct (snd (deregister demo_reg demo1))) = 0"
proof -
  from demo1_deregisters obtain ex im' where d: "deregister demo_reg demo1 = ((True, ex), im')"
    and none: "im_registrations im' = []" by blast
  have "seq_reach im'" using seq_reach.deregistering [OF demo1_seq, of demo_reg] d by simp
  moreover from none have "registrations im' = []" by (simp add: registrations_def)
  ultimately show ?thesis using teardown_counters_zero d by simp
qed

theorem destroyed_domain_counted_twice_witness:
  "a_registered_bytes (im_acct demo1) = 4096 \<and>
   a_registered_bytes (im_acct (snd (deregister demo_reg
     (snd (destroy_protection_domain demo_pd demo1))))) = decr 4096 (decr 4096 4096)"
proof -
  obtain b im1 where des: "destroy_protection_domain demo_pd demo1 = (b, im1)" by (rule prod.exhaust)
  have "im_registrations im1 = [(demo_reg, domain_destroyed_reg demo_record)]"
    and "im_backends im1 = [(demo_bid, demo_backend1)]"
    using des by (auto simp: destroy_protection_domain_def demo1_eq demo0_eq is_live_def)
  then have "\<exists>ex im'. deregister demo_reg im1 = ((True, ex), im') \<and> im_registrations im' = []"
    by (rule demo_deregisters) (simp_all add: domain_destroyed_reg_def reg_handle_def deregisterable_def)
  then obtain ex im2 where d: "deregister demo_reg im1 = ((True, ex), im2)" by blast
  have bytes: "a_registered_bytes (im_acct demo1) = 4096"
    by (simp add: demo1_eq demo0_eq account_registration_commit_def zero_accounting_def increment_def)
  have at: "reg_at demo1 demo_reg = Some demo_record" by (simp add: demo1_at)
  have only: "j = demo_reg" if "reg_at demo1 j = Some s" for j s
    using that by (simp add: demo1_at split: if_splits)
  have live: "is_live (r_lifecycle demo_record)" by (simp add: is_live_def)
  have "destroy_protection_domain (r_domain_id demo_record) demo1 = (b, im1)" using des by simp
  from destroyed_domain_counted_twice [OF demo1_seq at live only this d] des bytes show ?thesis
    by (simp add: d)
qed

end
