(* ===== verification/Bytes.thy ===== *)
theory Bytes
  imports Prelude
begin

text \<open>
  The binary writer and the bounds-checked reader of \<open>include/rdmabuffer/bytes.hpp\<close>.

  \<^item> A writer only appends to its buffer, so each of its operations is the list of bytes that
    it appends, and a sequence of writes is the concatenation.
  \<^item> The reader is a record: its span, its position and its error flag. A decoder is a
    function on readers; the value \<open>None\<close> is the result \<open>false\<close> of the code.
  \<^item> \<open>reads\<close> says that a decoder consumes exactly some bytes and returns some value;
    \<open>bounded\<close> says that it never moves the position past the end of the span, nor backwards.
    Both are closed under sequencing, so the round trip and the memory safety of a decoder
    follow from its shape. The locale \<open>codec\<close> is the contract of a pair of an encoder and a
    decoder; lists of coded values are handled once, inside it.
\<close>

section \<open>The writer\<close>

definition put_u8 :: "u8 \<Rightarrow> u8 list" where
  "put_u8 v = [v]"

definition put_u32 :: "u32 \<Rightarrow> u8 list" where
  "put_u32 v = map (\<lambda>i. ucast (drop_bit (8 * i) v AND 0xFF)) [0..<4]"

definition put_u64 :: "u64 \<Rightarrow> u8 list" where
  "put_u64 v = map (\<lambda>i. ucast (drop_bit (8 * i) v AND 0xFF)) [0..<8]"

definition byte_of_char :: "char \<Rightarrow> u8" where
  "byte_of_char c = of_nat (of_char c)"

definition char_of_byte :: "u8 \<Rightarrow> char" where
  "char_of_byte b = char_of (unat b)"

definition put_str :: "string \<Rightarrow> u8 list" where
  "put_str s = put_u64 (of_nat (length s)) @ map byte_of_char s"

definition put_bool :: "bool \<Rightarrow> u8 list" where
  "put_bool b = put_u8 (if b then 1 else 0)"

section \<open>The reader\<close>

record Reader =
  rd_data :: "u8 list"
  rd_pos :: nat
  rd_error :: bool

definition new_reader :: "u8 list \<Rightarrow> Reader" where
  "new_reader d = \<lparr>rd_data = d, rd_pos = 0, rd_error = False\<rparr>"

definition rd_remaining :: "Reader \<Rightarrow> nat" where
  "rd_remaining r = length (rd_data r) - rd_pos r"

type_synonym 'a decoder = "Reader \<Rightarrow> 'a option \<times> Reader"

text \<open>\<open>fail()\<close> sets the error flag; \<open>rd_stop\<close> is a plain \<open>return false\<close> of a decoder.\<close>

definition rd_fail :: "'a decoder" where
  "rd_fail r = (None, r\<lparr>rd_error := True\<rparr>)"

definition rd_stop :: "'a decoder" where
  "rd_stop r = (None, r)"

definition rd_return :: "'a \<Rightarrow> 'a decoder" where
  "rd_return v r = (Some v, r)"

definition advance :: "nat \<Rightarrow> Reader \<Rightarrow> Reader" where
  "advance n r = r\<lparr>rd_pos := rd_pos r + n\<rparr>"

definition rd_bind :: "'a decoder \<Rightarrow> ('a \<Rightarrow> 'b decoder) \<Rightarrow> 'b decoder" where
  "rd_bind m f r = (case m r of (None, r') \<Rightarrow> (None, r') | (Some a, r') \<Rightarrow> f a r')"

text \<open>\<open>if (!c) return false;\<close> and the checked cast of a byte to an enumerator.\<close>

definition rd_check :: "bool \<Rightarrow> 'a decoder \<Rightarrow> 'a decoder" where
  "rd_check c m = (if c then m else rd_stop)"

definition rd_cast :: "'a option \<Rightarrow> ('a \<Rightarrow> 'b decoder) \<Rightarrow> 'b decoder" where
  "rd_cast x f = (case x of None \<Rightarrow> rd_stop | Some a \<Rightarrow> f a)"

definition rd_u8 :: "u8 decoder" where
  "rd_u8 r = (if rd_remaining r < 1 then rd_fail r
              else (Some (rd_data r ! rd_pos r), advance 1 r))"

text \<open>The loop \<open>v |= word(data[p++]) << (8 * i)\<close> over \<open>n\<close> bytes.\<close>

definition word_at :: "nat \<Rightarrow> u8 list \<Rightarrow> nat \<Rightarrow> 'a::len word" where
  "word_at n d p = fold (\<lambda>i v. v OR push_bit (8 * i) (ucast (d ! (p + i)))) [0..<n] 0"

definition rd_u32 :: "u32 decoder" where
  "rd_u32 r =
     (if rd_remaining r < 4 then rd_fail r else (Some (word_at 4 (rd_data r) (rd_pos r)), advance 4 r))"

definition rd_u64 :: "u64 decoder" where
  "rd_u64 r =
     (if rd_remaining r < 8 then rd_fail r else (Some (word_at 8 (rd_data r) (rd_pos r)), advance 8 r))"

definition rd_str :: "nat \<Rightarrow> string decoder" where
  "rd_str max_len =
     rd_bind rd_u64 (\<lambda>n r.
       if unat n > max_len \<or> unat n > rd_remaining r then rd_fail r
       else (Some (map char_of_byte (take (unat n) (drop (rd_pos r) (rd_data r)))),
             advance (unat n) r))"

definition rd_raw :: "nat \<Rightarrow> u8 list decoder" where
  "rd_raw len r = (if len > rd_remaining r then rd_fail r
                   else (Some (take len (drop (rd_pos r) (rd_data r))), advance len r))"

definition rd_skip :: "nat \<Rightarrow> unit decoder" where
  "rd_skip len r = (if len > rd_remaining r then rd_fail r else (Some (), advance len r))"

section \<open>Bytes and words\<close>

lemma and_ff: "v AND 0xFF = take_bit 8 (v :: 'a::len word)"
  by (simp add: take_bit_eq_mask mask_eq_exp_minus_1)

lemma bit_byte: "bit (ucast (drop_bit (8 * i) v AND 0xFF) :: u8) j \<longleftrightarrow> j < 8 \<and> bit (v :: 'a::len word) (8 * i + j)"
  by (auto simp: and_ff bit_simps dest: bit_imp_le_length)

lemma bit_fold_bytes:
  fixes f :: "nat \<Rightarrow> u8"
  shows "bit (fold (\<lambda>i w. w OR push_bit (8 * i) (ucast (f i))) [0..<n] (0 :: 'a::len word)) k \<longleftrightarrow>
    k < LENGTH('a) \<and> k div 8 < n \<and> bit (f (k div 8)) (k mod 8)"
proof (induction n)
  case (Suc n)
  have "8 * n \<le> k \<and> bit (f n) (k - 8 * n) \<longleftrightarrow> k div 8 = n \<and> bit (f n) (k mod 8)"
  proof (cases "k div 8 = n")
    case True
    then have "k = 8 * n + k mod 8" by presburger
    then have "8 * n \<le> k" "k - 8 * n = k mod 8" by linarith+
    with True show ?thesis by simp
  next
    case False
    then have "\<not> 8 * n \<le> k \<or> 8 \<le> k - 8 * n" by presburger
    with False show ?thesis by (auto dest: bit_imp_le_length)
  qed
  with Suc show ?case by (auto simp: bit_simps less_Suc_eq)
qed simp

text \<open>Writing a word and reading it back, and the converse.\<close>

lemma word_of_bytes:
  fixes v :: "'a::len word"
  assumes "LENGTH('a) \<le> 8 * n"
  shows "fold (\<lambda>i w. w OR push_bit (8 * i) (ucast (ucast (drop_bit (8 * i) v AND 0xFF) :: u8))) [0..<n] 0 = v"
proof (rule bit_word_eqI)
  fix k :: nat
  assume "k < LENGTH('a)"
  moreover from this assms have "k div 8 < n" by linarith
  ultimately show "bit (fold (\<lambda>i w. w OR push_bit (8 * i) (ucast (ucast (drop_bit (8 * i) v AND 0xFF) :: u8))) [0..<n] (0 :: 'a word)) k
      \<longleftrightarrow> bit v k"
    by (simp add: bit_fold_bytes bit_byte)
qed

lemma byte_of_word:
  assumes "8 * n \<le> LENGTH('a)" and "j < n"
  shows "ucast (drop_bit (8 * j) (fold (\<lambda>i w. w OR push_bit (8 * i) (ucast (f i))) [0..<n] (0 :: 'a::len word))
    AND 0xFF) = (f j :: u8)"
proof (rule bit_word_eqI)
  fix k :: nat
  assume "k < LENGTH(8)"
  then have "(8 * j + k) div 8 = j" "(8 * j + k) mod 8 = k" "8 * j + k < LENGTH('a)"
    using assms by auto
  then show "bit (ucast (drop_bit (8 * j) (fold (\<lambda>i w. w OR push_bit (8 * i) (ucast (f i))) [0..<n] (0 :: 'a word))
      AND 0xFF) :: u8) k \<longleftrightarrow> bit (f j) k"
    using assms(2) \<open>k < LENGTH(8)\<close> by (simp add: bit_byte bit_fold_bytes)
qed

lemma length_put [simp]:
  "length (put_u8 a) = 1" "length (put_u32 b) = 4" "length (put_u64 c) = 8"
  "length (put_str s) = 8 + length s" "length (put_bool x) = 1"
  by (simp_all add: put_u8_def put_u32_def put_u64_def put_str_def put_bool_def)

lemma put_u32_at: "p + 4 \<le> length d \<Longrightarrow> put_u32 (word_at 4 d p) = take 4 (drop p d)"
  by (rule nth_equalityI) (simp_all add: put_u32_def word_at_def byte_of_word)

lemma put_u64_at: "p + 8 \<le> length d \<Longrightarrow> put_u64 (word_at 8 d p) = take 8 (drop p d)"
  by (rule nth_equalityI) (simp_all add: put_u64_def word_at_def byte_of_word)

lemma char_of_byte_of_char [simp]: "char_of_byte (byte_of_char c) = c"
proof -
  have "of_char c < (256 :: nat)" by (rule nat_of_char_less_256)
  then have "unat (byte_of_char c) = of_char c"
    by (simp add: byte_of_char_def unat_of_nat take_bit_nat_eq_self)
  then show ?thesis by (simp add: char_of_byte_def)
qed

section \<open>What a decoder consumes\<close>

definition rest :: "Reader \<Rightarrow> u8 list" where
  "rest r = drop (rd_pos r) (rd_data r)"

text \<open>On a reader whose unread bytes begin with \<open>bs\<close>, the decoder returns \<open>v\<close> and stands after \<open>bs\<close>.\<close>

definition reads :: "'a decoder \<Rightarrow> u8 list \<Rightarrow> 'a \<Rightarrow> bool" where
  "reads m bs v \<longleftrightarrow> (\<forall>r post. rest r = bs @ post \<longrightarrow> m r = (Some v, advance (length bs) r))"

lemma readsD: "reads m bs v \<Longrightarrow> rest r = bs @ post \<Longrightarrow> m r = (Some v, advance (length bs) r)"
  by (simp add: reads_def)

lemma rest_advance [simp]: "rest (advance n r) = drop n (rest r)"
  by (simp add: rest_def advance_def add.commute)

lemma advance_add [simp]: "advance n (advance m r) = advance (m + n) r"
  by (simp add: advance_def)

lemma advance_0 [simp]: "advance 0 r = r"
  by (simp add: advance_def)

lemma rd_remaining_rest: "rd_remaining r = length (rest r)"
  by (simp add: rd_remaining_def rest_def)

lemma rest_nth: "i < length (rest r) \<Longrightarrow> rd_data r ! (rd_pos r + i) = rest r ! i"
  by (simp add: rest_def)

lemma reads_return: "w = v \<Longrightarrow> reads (rd_return w) [] v"
  by (simp add: reads_def rd_return_def)

lemma reads_bind:
  assumes "reads m bs a" and "reads (f a) cs v"
  shows "reads (rd_bind m f) (bs @ cs) v"
  unfolding reads_def
proof (intro allI impI)
  fix r post
  assume r: "rest r = (bs @ cs) @ post"
  with readsD [OF assms(1), of r "cs @ post"] have "m r = (Some a, advance (length bs) r)" by simp
  moreover from r have "rest (advance (length bs) r) = cs @ post" by simp
  ultimately show "rd_bind m f r = (Some v, advance (length (bs @ cs)) r)"
    using readsD [OF assms(2)] by (simp add: rd_bind_def)
qed

lemma reads_last: "reads m bs a \<Longrightarrow> reads (f a) [] v \<Longrightarrow> reads (rd_bind m f) bs v"
  using reads_bind [of m bs a f "[]" v] by simp

lemma reads_check: "c \<Longrightarrow> reads m bs v \<Longrightarrow> reads (rd_check c m) bs v"
  by (simp add: rd_check_def)

lemma reads_cast: "x = Some a \<Longrightarrow> reads (f a) bs v \<Longrightarrow> reads (rd_cast x f) bs v"
  by (simp add: rd_cast_def)

lemma reads_u8: "reads rd_u8 (put_u8 v) v"
  unfolding reads_def
proof (intro allI impI)
  fix r post
  assume "rest r = put_u8 v @ post"
  with rest_nth [of 0 r] show "rd_u8 r = (Some v, advance (length (put_u8 v)) r)"
    by (simp add: rd_u8_def rd_remaining_rest put_u8_def)
qed

text \<open>A loop over positions reads what stands in the span.\<close>

lemma fold_bytes_cong:
  "(\<And>i. i < n \<Longrightarrow> f i = g i) \<Longrightarrow>
   fold (\<lambda>i w. w OR push_bit (8 * i) (ucast (f i :: u8))) [0..<n] (0 :: 'a::len word) =
   fold (\<lambda>i w. w OR push_bit (8 * i) (ucast (g i))) [0..<n] 0"
  by (rule fold_cong) auto

lemma reads_u32: "reads rd_u32 (put_u32 v) v"
  unfolding reads_def
proof (intro allI impI)
  fix r post
  assume r: "rest r = put_u32 v @ post"
  have nth: "rd_data r ! (rd_pos r + i) = ucast (drop_bit (8 * i) v AND 0xFF)" if "i < 4" for i
    using rest_nth [of i r] r that by (simp add: nth_append put_u32_def)
  have "word_at 4 (rd_data r) (rd_pos r) = v"
    unfolding word_at_def by (subst fold_bytes_cong [OF nth], assumption, rule word_of_bytes) simp
  with r show "rd_u32 r = (Some v, advance (length (put_u32 v)) r)"
    by (simp add: rd_u32_def rd_remaining_rest)
qed

lemma reads_u64: "reads rd_u64 (put_u64 v) v"
  unfolding reads_def
proof (intro allI impI)
  fix r post
  assume r: "rest r = put_u64 v @ post"
  have nth: "rd_data r ! (rd_pos r + i) = ucast (drop_bit (8 * i) v AND 0xFF)" if "i < 8" for i
    using rest_nth [of i r] r that by (simp add: nth_append put_u64_def)
  have "word_at 8 (rd_data r) (rd_pos r) = v"
    unfolding word_at_def by (subst fold_bytes_cong [OF nth], assumption, rule word_of_bytes) simp
  with r show "rd_u64 r = (Some v, advance (length (put_u64 v)) r)"
    by (simp add: rd_u64_def rd_remaining_rest)
qed

lemma reads_unique: "reads m bs v \<Longrightarrow> reads m bs w \<Longrightarrow> v = w"
  using readsD [of m bs v "new_reader bs" "[]"] readsD [of m bs w "new_reader bs" "[]"]
  by (simp add: rest_def new_reader_def)

lemma put_u32_inj: "put_u32 v = put_u32 w \<Longrightarrow> v = w"
  using reads_unique [OF reads_u32 [of v]] reads_u32 [of w] by simp

lemma put_u64_inj: "put_u64 v = put_u64 w \<Longrightarrow> v = w"
  using reads_unique [OF reads_u64 [of v]] reads_u64 [of w] by simp

lemma word_at_put_u32:
  assumes "take 4 (drop p d) = put_u32 v"
  shows "word_at 4 d p = v"
proof -
  from arg_cong [OF assms, of length] have "p + 4 \<le> length d" by simp
  from put_u32_at [OF this] assms show ?thesis by (simp add: put_u32_inj)
qed

lemma word_at_put_u64:
  assumes "take 8 (drop p d) = put_u64 v"
  shows "word_at 8 d p = v"
proof -
  from arg_cong [OF assms, of length] have "p + 8 \<le> length d" by simp
  from put_u64_at [OF this] assms show ?thesis by (simp add: put_u64_inj)
qed

lemma reads_str:
  assumes "length s \<le> max_len" and "max_len < 2 ^ 64"
  shows "reads (rd_str max_len) (put_str s) s"
  unfolding rd_str_def put_str_def
proof (rule reads_bind [OF reads_u64])
  have n: "unat (of_nat (length s) :: u64) = length s"
    using assms by (simp add: unat_of_nat take_bit_nat_eq_self)
  have "map (char_of_byte \<circ> byte_of_char) s = s" by (simp add: comp_def)
  then show "reads (\<lambda>r. if unat (of_nat (length s) :: u64) > max_len \<or> unat (of_nat (length s) :: u64) > rd_remaining r
        then rd_fail r
        else (Some (map char_of_byte (take (unat (of_nat (length s) :: u64)) (drop (rd_pos r) (rd_data r)))),
              advance (unat (of_nat (length s) :: u64)) r)) (map byte_of_char s) s"
    unfolding reads_def n using assms(1)
    by (auto simp: rd_remaining_rest rest_def [symmetric])
qed

section \<open>Decoders stay in the span\<close>

definition rd_wf :: "Reader \<Rightarrow> bool" where
  "rd_wf r \<longleftrightarrow> rd_pos r \<le> length (rd_data r)"

definition bounded :: "'a decoder \<Rightarrow> bool" where
  "bounded m \<longleftrightarrow> (\<forall>r x r'. rd_wf r \<longrightarrow> m r = (x, r') \<longrightarrow>
     rd_wf r' \<and> rd_data r' = rd_data r \<and> rd_pos r \<le> rd_pos r')"

lemma boundedD:
  "bounded m \<Longrightarrow> rd_wf r \<Longrightarrow> m r = (x, r') \<Longrightarrow> rd_wf r' \<and> rd_data r' = rd_data r \<and> rd_pos r \<le> rd_pos r'"
  unfolding bounded_def by blast

lemma bounded_step:
  assumes "\<And>r. m r = rd_fail r \<or> m r = rd_stop r \<or> (\<exists>n v. n \<le> rd_remaining r \<and> m r = (Some v, advance n r))"
  shows "bounded m"
  unfolding bounded_def
proof (intro allI impI)
  fix r x r'
  assume r: "rd_wf r" and m: "m r = (x, r')"
  from assms [of r] consider "r' = r\<lparr>rd_error := True\<rparr>" | "r' = r"
    | n where "n \<le> rd_remaining r" "r' = advance n r"
    unfolding m rd_fail_def rd_stop_def by blast
  then show "rd_wf r' \<and> rd_data r' = rd_data r \<and> rd_pos r \<le> rd_pos r'"
    by cases (use r in \<open>simp_all add: rd_wf_def rd_remaining_def advance_def\<close>)
qed

lemma bounded_return [intro]: "bounded (rd_return v)"
  by (rule bounded_step) (metis advance_0 le0 rd_return_def)

lemma bounded_stop [intro]: "bounded rd_stop"
  by (rule bounded_step) simp

lemma bounded_bind [intro]:
  assumes "bounded m" and "\<And>a. bounded (f a)"
  shows "bounded (rd_bind m f)"
  unfolding bounded_def
proof (intro allI impI)
  fix r x r'
  assume r: "rd_wf r" and b: "rd_bind m f r = (x, r')"
  obtain y r1 where m: "m r = (y, r1)" by (rule prod.exhaust)
  note 1 = boundedD [OF assms(1) r m]
  show "rd_wf r' \<and> rd_data r' = rd_data r \<and> rd_pos r \<le> rd_pos r'"
  proof (cases y)
    case None
    with b m 1 show ?thesis by (simp add: rd_bind_def)
  next
    case (Some a)
    with b m have "f a r1 = (x, r')" by (simp add: rd_bind_def)
    with boundedD [OF assms(2)] 1 show ?thesis by fastforce
  qed
qed

lemma bounded_check [intro]: "bounded m \<Longrightarrow> bounded (rd_check c m)"
  by (simp add: rd_check_def bounded_stop)

lemma bounded_cast [intro]: "(\<And>a. bounded (f a)) \<Longrightarrow> bounded (rd_cast x f)"
  by (simp add: rd_cast_def bounded_stop split: option.splits)

lemma bounded_u8 [intro]: "bounded rd_u8"
  by (rule bounded_step) (metis rd_u8_def not_less)

lemma bounded_u32 [intro]: "bounded rd_u32"
  by (rule bounded_step) (metis rd_u32_def not_less)

lemma bounded_u64 [intro]: "bounded rd_u64"
  by (rule bounded_step) (metis rd_u64_def not_less)

lemma bounded_raw [intro]: "bounded (rd_raw n)"
  by (rule bounded_step) (metis rd_raw_def not_less)

lemma bounded_skip [intro]: "bounded (rd_skip n)"
  by (rule bounded_step) (metis rd_skip_def not_less)

lemma bounded_str [intro]: "bounded (rd_str n)"
  unfolding rd_str_def
  by (intro bounded_bind bounded_u64 bounded_step) (metis not_less)

section \<open>Codecs\<close>

text \<open>\<open>for (i = 0; i < n; ++i) { T x; if (!decode(r, x)) return false; out.push_back(x); }\<close>\<close>

fun rd_many :: "nat \<Rightarrow> 'a decoder \<Rightarrow> 'a list decoder" where
  "rd_many 0 m = rd_return []"
| "rd_many (Suc n) m = rd_bind m (\<lambda>v. rd_bind (rd_many n m) (\<lambda>vs. rd_return (v # vs)))"

text \<open>
  \<open>fits\<close> are the values that the decoder accepts after the encoder; \<open>kept\<close> is what survives of a
  value, which is all of it unless the encoding leaves a member out.
\<close>

locale codec =
  fixes enc :: "'a \<Rightarrow> u8 list"
    and dec :: "'a decoder"
    and fits :: "'a \<Rightarrow> bool"
    and kept :: "'a \<Rightarrow> 'a"
  assumes reads_enc: "fits v \<Longrightarrow> reads dec (enc v) (kept v)"
    and dec_bounded: "bounded dec"
begin

lemma reads_kept: "kept v = w \<Longrightarrow> fits v \<Longrightarrow> reads dec (enc v) w"
  using reads_enc by blast

lemma reads_many: "list_all fits vs \<Longrightarrow> reads (rd_many (length vs) dec) (concat (map enc vs)) (map kept vs)"
proof (induction vs)
  case Nil
  then show ?case by (simp add: reads_return)
next
  case (Cons v vs)
  then have "reads (rd_many (length vs) dec) (concat (map enc vs)) (map kept vs)" "fits v" by simp_all
  then show ?case
    by simp (rule reads_bind [OF reads_enc] reads_last reads_return refl | assumption)+
qed

lemma reads_list:
  "n = length vs \<Longrightarrow> ws = map kept vs \<Longrightarrow> list_all fits vs \<Longrightarrow> reads (rd_many n dec) (concat (map enc vs)) ws"
  using reads_many by simp

lemma bounded_many: "bounded (rd_many n dec)"
  by (induction n) (auto intro: dec_bounded)

lemma decode_encode: "fits v \<Longrightarrow> fst (dec (new_reader (enc v @ post))) = Some (kept v)"
  using readsD [OF reads_enc, of v "new_reader (enc v @ post)" post]
  by (simp add: rest_def new_reader_def)

text \<open>No encoding is a proper prefix of the encoding of another value.\<close>

lemma prefix_free:
  assumes "fits v" and "fits w" and "enc v @ p = enc w @ q"
  shows "kept v = kept w \<and> length (enc v) = length (enc w)"
proof -
  have "rest (new_reader (enc v @ p)) = enc v @ p" by (simp add: rest_def new_reader_def)
  with assms readsD [OF reads_enc [OF assms(1)]] readsD [OF reads_enc [OF assms(2)]]
  have "(Some (kept v), advance (length (enc v)) (new_reader (enc v @ p))) =
      (Some (kept w), advance (length (enc w)) (new_reader (enc v @ p)))"
    by metis
  then show ?thesis by (simp add: advance_def new_reader_def)
qed

end

interpretation u8_codec: codec put_u8 rd_u8 "\<lambda>_. True" "\<lambda>v. v"
  by unfold_locales (auto intro: reads_u8)

interpretation u32_codec: codec put_u32 rd_u32 "\<lambda>_. True" "\<lambda>v. v"
  by unfold_locales (auto intro: reads_u32)

interpretation u64_codec: codec put_u64 rd_u64 "\<lambda>_. True" "\<lambda>v. v"
  by unfold_locales (auto intro: reads_u64)

text \<open>The rules for the sequence of reads that undoes a sequence of writes.\<close>

lemmas reads_rules = reads_bind reads_last reads_cast reads_check reads_return
  reads_u8 reads_u32 reads_u64 reads_str

lemmas bounded_rules = bounded_bind bounded_cast bounded_check bounded_return bounded_stop
  bounded_u8 bounded_u32 bounded_u64 bounded_str

end
