(* ===== verification/Crc32.thy ===== *)
theory Crc32
  imports Bytes
begin

text \<open>
  The checksum of frames and of saved files (\<open>src/crc32.cpp\<close>): CRC-32 with the reflected
  polynomial, one bit at a time. The step is linear over exclusive or and injective, so a
  corruption that is confined to four consecutive bytes always changes the checksum.
\<close>

section \<open>The routine\<close>

text \<open>The body of the inner loop: \<open>mask\<close> is all ones when the low bit is set, else zero.\<close>

definition crc_bit :: "u32 \<Rightarrow> u32" where
  "crc_bit crc = (let mask = - (crc AND 1) in drop_bit 1 crc XOR (0xEDB88320 AND mask))"

text \<open>The body of the outer loop: one byte, eight bits.\<close>

definition crc_byte :: "u8 \<Rightarrow> u32 \<Rightarrow> u32" where
  "crc_byte b crc = (crc_bit ^^ 8) (crc XOR ucast b)"

definition crc32 :: "u8 list \<Rightarrow> u32" where
  "crc32 bs = (if bs = [] then 0 else fold crc_byte bs 0xFFFFFFFF XOR 0xFFFFFFFF)"

section \<open>Linearity and injectivity\<close>

lemma crc_bit_if: "crc_bit c = drop_bit 1 c XOR (if bit c 0 then 0xEDB88320 else 0)"
proof -
  have "c AND 1 = (if bit c 0 then 1 else 0)"
    by (simp add: and_one_eq mod_2_eq_odd bit_0)
  then show ?thesis by (simp add: crc_bit_def Let_def)
qed

lemma crc_bit_xor: "crc_bit (a XOR b) = crc_bit a XOR crc_bit b"
  unfolding crc_bit_if by (rule bit_word_eqI) (auto simp: bit_simps)

lemma crc_bit_zero [simp]: "crc_bit 0 = 0"
  by (simp add: crc_bit_if)

lemma crc_bit_eq_0_iff [simp]: "crc_bit c = 0 \<longleftrightarrow> c = 0"
proof
  assume z: "crc_bit c = 0"
  have "bit (crc_bit c) 31 \<longleftrightarrow> bit c 0"
    by (auto simp: crc_bit_if bit_simps dest: bit_imp_le_length)
  with z have "\<not> bit c 0" by simp
  with z have "drop_bit 1 c = 0" by (simp add: crc_bit_if)
  moreover have "bit c n \<longleftrightarrow> bit (drop_bit 1 c) (n - 1)" if "n \<noteq> 0" for n
    using that by (simp add: bit_simps)
  ultimately have "\<not> bit c n" for n
    using \<open>\<not> bit c 0\<close> by (cases "n = 0") auto
  then show "c = 0" by (intro bit_word_eqI) simp
qed simp

lemma crc_bits_xor: "(crc_bit ^^ n) (a XOR b) = (crc_bit ^^ n) a XOR (crc_bit ^^ n) b"
  by (induction n) (simp_all add: crc_bit_xor)

lemma crc_bits_eq_0_iff [simp]: "(crc_bit ^^ n) c = 0 \<longleftrightarrow> c = 0"
  by (induction n) simp_all

text \<open>When the high bits of the result are clear, the steps only shifted.\<close>

lemma crc_bit_shift: "\<not> bit (crc_bit x) 31 \<Longrightarrow> x = push_bit 1 (crc_bit x)"
proof -
  assume high: "\<not> bit (crc_bit x) 31"
  then have "\<not> bit x 0"
    by (auto simp: crc_bit_if bit_simps dest: bit_imp_le_length split: if_splits)
  then have "crc_bit x = drop_bit 1 x" "\<And>n. bit x n \<Longrightarrow> 1 \<le> n"
    by (auto simp: crc_bit_if) (metis gr0I le_simps(3) One_nat_def)
  then have "bit x n \<longleftrightarrow> bit (push_bit 1 (crc_bit x)) n" if "n < 32" for n
    unfolding bit_push_bit_iff using that by (cases n) (auto simp: bit_drop_bit_eq)
  then show ?thesis by (intro bit_word_eqI) simp
qed

lemma crc_bits_shift:
  "n \<le> 32 \<Longrightarrow> (\<And>k. 32 - n \<le> k \<Longrightarrow> \<not> bit ((crc_bit ^^ n) x) k) \<Longrightarrow> x = push_bit n ((crc_bit ^^ n) x)"
proof (induction n)
  case (Suc n)
  let ?y = "(crc_bit ^^ n) x"
  have "\<not> bit (crc_bit ?y) 31" using Suc.prems(2) [of 31] Suc.prems(1) by simp
  then have y: "?y = push_bit 1 (crc_bit ?y)" by (rule crc_bit_shift)
  have "\<not> bit ?y k" if "32 - n \<le> k" for k
  proof -
    have "k \<noteq> 0" using that Suc.prems(1) by linarith
    moreover from that have "\<not> bit (crc_bit ?y) (k - 1)"
      using Suc.prems(2) [of "k - 1"] by simp
    moreover have "bit ?y k \<longleftrightarrow> bit (push_bit 1 (crc_bit ?y)) k" using y by simp
    ultimately show ?thesis unfolding bit_push_bit_iff by blast
  qed
  with Suc have "x = push_bit n ?y" by simp
  with y show ?case by (metis funpow.simps(2) o_apply push_bit_push_bit Suc_eq_plus1)
qed simp

text \<open>The difference between two runs develops by the same steps.\<close>

lemma crc_byte_xor: "crc_byte b c XOR crc_byte b' c' = crc_byte (b XOR b') (c XOR c')"
proof -
  have "(c XOR ucast b) XOR (c' XOR ucast b') = (c XOR c') XOR ucast (b XOR b')"
    by (rule bit_word_eqI) (auto simp: bit_simps)
  then show ?thesis by (simp add: crc_byte_def crc_bits_xor [symmetric])
qed

lemma crc_run_same: "fold crc_byte bs c = fold crc_byte bs c' \<Longrightarrow> c = c'"
proof (induction bs arbitrary: c c')
  case (Cons b bs)
  then have "crc_byte b c = crc_byte b c'" by simp
  then have "crc_byte b c XOR crc_byte b c' = 0" by simp
  then have "c XOR c' = 0" unfolding crc_byte_xor by (simp add: crc_byte_def)
  then show ?case by (metis xor.right_neutral xor.assoc xor_self_eq)
qed simp

lemma crc_bits_push:
  "n \<le> 32 \<Longrightarrow> (\<And>k. 32 - n \<le> k \<Longrightarrow> \<not> bit y k) \<Longrightarrow> (crc_bit ^^ n) (push_bit n y) = y"
proof (induction n arbitrary: y)
  case (Suc n)
  have "crc_bit (push_bit (Suc 0) y) = y" (is "crc_bit ?z = y")
  proof -
    have low: "\<not> bit ?z 0" unfolding bit_push_bit_iff by simp
    have "bit (drop_bit 1 ?z) k \<longleftrightarrow> bit y k" if "k < 32" for k
      using Suc.prems(2) [of k] Suc.prems(1) that
      unfolding bit_drop_bit_eq o_apply bit_push_bit_iff by (cases "k < 31") auto
    then have "drop_bit 1 ?z = y" by (intro bit_word_eqI) simp
    with low show ?thesis by (simp add: crc_bit_if)
  qed
  moreover have "(crc_bit ^^ n) (push_bit n (push_bit 1 y)) = push_bit 1 y"
  proof (rule Suc.IH)
    fix k assume "32 - n \<le> k"
    with Suc.prems show "\<not> bit (push_bit 1 y) k"
      using Suc.prems(2) [of "k - 1"] unfolding bit_push_bit_iff by auto
  qed (use Suc.prems in simp)
  ultimately show ?case by (simp add: push_bit_push_bit)
qed simp

section \<open>Bursts\<close>

text \<open>The state that a run over at most four bytes takes to zero.\<close>

fun pack :: "u8 list \<Rightarrow> u32" where
  "pack [] = 0"
| "pack (d # ds) = ucast d XOR push_bit 8 (pack ds)"

lemma bit_pack: "bit (pack (d # ds)) k \<longleftrightarrow> (k < 8 \<and> bit d k) \<or> (8 \<le> k \<and> k < 32 \<and> bit (pack ds) (k - 8))"
  by (auto simp: bit_simps dest: bit_imp_le_length)

lemma pack_high: "length ds \<le> 4 \<Longrightarrow> 8 * length ds \<le> k \<Longrightarrow> \<not> bit (pack ds) k"
proof (induction ds arbitrary: k)
  case (Cons d ds)
  then show ?case by (auto simp: bit_pack simp del: pack.simps(2))
qed simp

lemma fold_crc_zero:
  "fold crc_byte ds s = 0 \<Longrightarrow> length ds \<le> 4 \<Longrightarrow> s = pack ds"
proof (induction ds arbitrary: s)
  case (Cons d ds)
  then have "(crc_bit ^^ 8) (s XOR ucast d) = pack ds" by (simp add: crc_byte_def)
  with Cons.prems(2) crc_bits_shift [of 8 "s XOR ucast d"] pack_high [of ds]
  have "s XOR ucast d = push_bit 8 (pack ds)" by simp
  then show ?case by (metis pack.simps(2) xor.assoc xor.commute xor.right_neutral xor_self_eq)
qed simp

lemma pack_zero: "pack ds = 0 \<Longrightarrow> length ds \<le> 4 \<Longrightarrow> ds = replicate (length ds) 0"
proof (induction ds)
  case (Cons d ds)
  have bits: "\<not> (k < 8 \<and> bit d k)" "\<not> (8 \<le> k \<and> k < 32 \<and> bit (pack ds) (k - 8))" for k
    using Cons.prems(1) bit_pack [of d ds k] by simp_all
  have "d = 0"
    by (rule bit_word_eqI) (use bits(1) in simp)
  moreover have "pack ds = 0"
  proof (rule bit_word_eqI)
    fix k :: nat
    have "\<not> bit (pack ds) k" if "24 \<le> k" using pack_high [of ds k] Cons.prems(2) that by simp
    moreover have "\<not> bit (pack ds) k" if "k < 24" using bits(2) [of "k + 8"] that by simp
    ultimately show "bit (pack ds) k \<longleftrightarrow> bit (0 :: u32) k" by (cases "k < 24") simp_all
  qed
  ultimately show ?case using Cons by simp
qed simp

lemma fold_crc_diff:
  "length u = length v \<Longrightarrow>
   fold crc_byte u c XOR fold crc_byte v c' = fold crc_byte (map2 (XOR) u v) (c XOR c')"
proof (induction u v arbitrary: c c' rule: list_induct2)
  case (Cons a u b v)
  then show ?case by (simp add: crc_byte_xor)
qed simp

lemma map2_xor_zero:
  "length u = length (v :: u8 list) \<Longrightarrow> map2 (XOR) u v = replicate (length u) 0 \<Longrightarrow> u = v"
proof (induction u v rule: list_induct2)
  case (Cons a u b v)
  then have "a XOR b = 0" "u = v" by auto
  then show ?case by (metis xor.assoc xor.right_neutral xor_self_eq)
qed simp

lemma xor_eq_0: "a XOR b = 0 \<longleftrightarrow> a = (b :: u32)"
  by (metis xor.assoc xor.right_neutral xor.left_neutral xor_self_eq)

lemma xor_cancel: "a XOR c = b XOR c \<longleftrightarrow> a = (b :: u32)"
  by (metis xor.assoc xor.right_neutral xor_self_eq)

lemma burst_differs:
  assumes "length u = length v" and "length u \<le> 4" and "u \<noteq> v"
  shows "fold crc_byte u c \<noteq> fold crc_byte v c"
proof
  assume "fold crc_byte u c = fold crc_byte v c"
  then have "fold crc_byte (map2 (XOR) u v) 0 = 0"
    using fold_crc_diff [OF assms(1), of c c] by simp
  then have "pack (map2 (XOR) u v) = 0"
    using assms(1,2) by (intro fold_crc_zero [symmetric]) simp_all
  then have "map2 (XOR) u v = replicate (length u) 0"
    using pack_zero [of "map2 (XOR) u v"] assms(1,2) by simp
  with map2_xor_zero [OF assms(1)] assms(3) show False by blast
qed

lemma crc32_burst:
  assumes "length u = length v" and "length u \<le> 4" and "u \<noteq> v"
  shows "crc32 (a @ u @ b) \<noteq> crc32 (a @ v @ b)"
proof
  assume eq: "crc32 (a @ u @ b) = crc32 (a @ v @ b)"
  let ?c = "fold crc_byte a 0xFFFFFFFF"
  from assms have "a @ u @ b \<noteq> []" "a @ v @ b \<noteq> []" by auto
  with eq have "fold crc_byte (a @ u @ b) 0xFFFFFFFF = fold crc_byte (a @ v @ b) 0xFFFFFFFF"
    by (simp only: crc32_def if_False xor_cancel)
  then have "fold crc_byte b (fold crc_byte u ?c) = fold crc_byte b (fold crc_byte v ?c)"
    by (simp only: fold_append o_apply)
  then have "fold crc_byte u ?c = fold crc_byte v ?c" by (rule crc_run_same)
  with burst_differs [OF assms] show False by blast
qed

section \<open>Checksummed blocks\<close>

text \<open>
  A block is a body followed by its checksum, the form of a frame and of a saved file. The run
  over a whole block ends in a constant, so a corruption anywhere in it is seen, also one that
  straddles body and trailer.
\<close>

definition block_ok :: "u8 list \<Rightarrow> bool" where
  "block_ok w \<longleftrightarrow> 4 < length w \<and> drop (length w - 4) w = put_u32 (crc32 (take (length w - 4) w))"

lemma bit_pack_nth:
  "length ds \<le> 4 \<Longrightarrow> bit (pack ds) k \<longleftrightarrow> k div 8 < length ds \<and> bit (ds ! (k div 8)) (k mod 8)"
proof (induction ds arbitrary: k)
  case (Cons d ds)
  show ?case
  proof (cases "k < 8")
    case True
    then show ?thesis by (simp add: bit_pack del: pack.simps(2))
  next
    case False
    then have "k div 8 = Suc ((k - 8) div 8)" "(k - 8) mod 8 = k mod 8"
      by (simp_all add: le_div_geq le_mod_geq)
    moreover have "k < 32" if "(k - 8) div 8 < length ds"
      using that Cons.prems False by simp
    ultimately show ?thesis using Cons False by (auto simp: bit_pack simp del: pack.simps(2))
  qed
qed simp

lemma pack_put_u32: "pack (put_u32 c) = c"
proof (rule bit_word_eqI)
  fix k :: nat
  assume "k < LENGTH(32)"
  then have "k div 8 < 4" by simp
  then show "bit (pack (put_u32 c)) k \<longleftrightarrow> bit c k"
    by (subst bit_pack_nth) (simp_all add: put_u32_def bit_byte)
qed

lemma pack_run: "length ds \<le> 4 \<Longrightarrow> fold crc_byte ds (pack ds) = 0"
proof (induction ds)
  case (Cons d ds)
  have "pack (d # ds) XOR ucast d = push_bit 8 (pack ds)"
    by (simp add: xor.left_commute xor.commute)
  then have "crc_byte d (pack (d # ds)) = pack ds"
    using crc_bits_push [of 8 "pack ds"] pack_high [of ds] Cons.prems
    by (simp only: crc_byte_def) simp
  with Cons show ?case by simp
qed simp

text \<open>What a run over a correct block ends in, whatever the block.\<close>

definition residue :: u32 where
  "residue = fold crc_byte [0, 0, 0, 0] 0xFFFFFFFF"

lemma run_trailer: "fold crc_byte (put_u32 c) (c XOR 0xFFFFFFFF) = residue"
proof -
  have "length (put_u32 c) = length [0 :: u8, 0, 0, 0]" by simp
  from fold_crc_diff [OF this, of "c XOR 0xFFFFFFFF" "0xFFFFFFFF"]
  have "fold crc_byte (put_u32 c) (c XOR 0xFFFFFFFF) XOR residue =
      fold crc_byte (map2 (XOR) (put_u32 c) [0, 0, 0, 0]) c"
    by (simp only: residue_def xor.assoc xor_self_eq xor.right_neutral)
  also have "map2 (XOR) (put_u32 c) [0, 0, 0, 0] = put_u32 c"
    by (rule nth_equalityI) (simp_all add: nth_Cons split: nat.splits)
  also have "fold crc_byte (put_u32 c) c = 0"
    using pack_run [of "put_u32 c"] by (simp add: pack_put_u32)
  finally show ?thesis by (simp only: xor_eq_0)
qed

lemma block_ok_residue:
  assumes "block_ok w"
  shows "fold crc_byte w 0xFFFFFFFF = residue"
proof -
  let ?b = "take (length w - 4) w"
  from assms have long: "4 < length w" and "drop (length w - 4) w = put_u32 (crc32 ?b)"
    by (simp_all add: block_ok_def)
  then have "w = ?b @ put_u32 (crc32 ?b)" by (metis append_take_drop_id)
  moreover
  from long have "0 < length ?b" by simp
  then have ne: "(?b = []) = False" by (simp only: length_greater_0_conv simp_thms)
  have "fold crc_byte ?b 0xFFFFFFFF = crc32 ?b XOR 0xFFFFFFFF"
    by (simp only: crc32_def ne if_False xor.assoc xor_self_eq xor.right_neutral)
  ultimately show ?thesis
    by (metis fold_append o_apply run_trailer)
qed

lemma burst_detected:
  assumes "block_ok (a @ u @ b)" and "length v = length u" and "length u \<le> 4" and "u \<noteq> v"
  shows "\<not> block_ok (a @ v @ b)"
proof
  assume "block_ok (a @ v @ b)"
  let ?c = "fold crc_byte a 0xFFFFFFFF"
  from block_ok_residue [OF assms(1)] block_ok_residue [OF \<open>block_ok (a @ v @ b)\<close>]
  have "fold crc_byte b (fold crc_byte u ?c) = fold crc_byte b (fold crc_byte v ?c)"
    by (simp only: fold_append o_apply)
  then have "fold crc_byte u ?c = fold crc_byte v ?c" by (rule crc_run_same)
  with burst_differs [of u v ?c] assms(2-4) show False by simp
qed

end
