(* ===== verification/Protocol.thy ===== *)
theory Protocol
  imports Crc32 Bytes
begin

text \<open>
  The framing of the coordinator and worker protocol (\<open>include/rdmabuffer/protocol.hpp\<close>,
  \<open>src/protocol.cpp\<close>): a header of 28 bytes, a payload of at most 16 MiB and a CRC-32 trailer.
  \<open>decode_frame\<close> returns the error code or the frame with the number of bytes it occupies.
  The decoder accepts exactly the encodings: \<open>decode_frame_iff\<close> is an equivalence.
\<close>

definition frame_magic :: u32 where "frame_magic = 0x52444246"

definition frame_version :: u32 where "frame_version = 1"

definition max_payload :: nat where "max_payload = 16 * 1024 * 1024"

definition header_size :: nat where "header_size = 28"

datatype MessageKind =
  MK_UNKNOWN
| MK_HELLO
| MK_HELLO_ACK
| MK_WORKER_BOOT
| MK_WORKER_BOOT_ACK
| MK_CREATE_DOMAIN
| MK_CREATE_DOMAIN_ACK
| MK_REGISTER_BUFFER
| MK_REGISTER_BUFFER_ACK
| MK_REQUEST_ACCESS
| MK_REQUEST_ACCESS_ACK
| MK_RELEASE_LEASE
| MK_RELEASE_LEASE_ACK
| MK_REVOKE
| MK_REVOKE_ACK
| MK_DEREGISTER
| MK_DEREGISTER_ACK
| MK_PERSIST
| MK_PERSIST_ACK
| MK_RECOVER
| MK_RECOVER_ACK
| MK_WORKER_LOST
| MK_ERROR
| MK_OK
| MK_KEEPALIVE
| MK_MAX

text \<open>The enumerators in order: an enumerator is the number of its place in the list.\<close>

definition message_kinds :: "MessageKind list" where
  "message_kinds =
     [MK_UNKNOWN, MK_HELLO, MK_HELLO_ACK, MK_WORKER_BOOT, MK_WORKER_BOOT_ACK, MK_CREATE_DOMAIN,
      MK_CREATE_DOMAIN_ACK, MK_REGISTER_BUFFER, MK_REGISTER_BUFFER_ACK, MK_REQUEST_ACCESS,
      MK_REQUEST_ACCESS_ACK, MK_RELEASE_LEASE, MK_RELEASE_LEASE_ACK, MK_REVOKE, MK_REVOKE_ACK,
      MK_DEREGISTER, MK_DEREGISTER_ACK, MK_PERSIST, MK_PERSIST_ACK, MK_RECOVER, MK_RECOVER_ACK,
      MK_WORKER_LOST, MK_ERROR, MK_OK, MK_KEEPALIVE, MK_MAX]"

fun message_kind_code :: "MessageKind \<Rightarrow> u32" where
  "message_kind_code MK_UNKNOWN = 0"
| "message_kind_code MK_HELLO = 1"
| "message_kind_code MK_HELLO_ACK = 2"
| "message_kind_code MK_WORKER_BOOT = 3"
| "message_kind_code MK_WORKER_BOOT_ACK = 4"
| "message_kind_code MK_CREATE_DOMAIN = 5"
| "message_kind_code MK_CREATE_DOMAIN_ACK = 6"
| "message_kind_code MK_REGISTER_BUFFER = 7"
| "message_kind_code MK_REGISTER_BUFFER_ACK = 8"
| "message_kind_code MK_REQUEST_ACCESS = 9"
| "message_kind_code MK_REQUEST_ACCESS_ACK = 10"
| "message_kind_code MK_RELEASE_LEASE = 11"
| "message_kind_code MK_RELEASE_LEASE_ACK = 12"
| "message_kind_code MK_REVOKE = 13"
| "message_kind_code MK_REVOKE_ACK = 14"
| "message_kind_code MK_DEREGISTER = 15"
| "message_kind_code MK_DEREGISTER_ACK = 16"
| "message_kind_code MK_PERSIST = 17"
| "message_kind_code MK_PERSIST_ACK = 18"
| "message_kind_code MK_RECOVER = 19"
| "message_kind_code MK_RECOVER_ACK = 20"
| "message_kind_code MK_WORKER_LOST = 21"
| "message_kind_code MK_ERROR = 22"
| "message_kind_code MK_OK = 23"
| "message_kind_code MK_KEEPALIVE = 24"
| "message_kind_code MK_MAX = 25"

text \<open>\<open>static_cast<MessageKind>(kindu)\<close> of a number that passed the check.\<close>

definition message_kind_cast :: "u32 \<Rightarrow> MessageKind" where
  "message_kind_cast u = message_kinds ! unat u"

record Frame =
  f_kind :: MessageKind
  f_seq :: u64
  f_payload :: "u8 list"

section \<open>Encoding and decoding\<close>

definition get32 :: "u8 list \<Rightarrow> nat \<Rightarrow> (u32 \<times> nat) option" where
  "get32 d p = (if p + 4 > length d then None else Some (word_at 4 d p, p + 4))"

definition get64 :: "u8 list \<Rightarrow> nat \<Rightarrow> (u64 \<times> nat) option" where
  "get64 d p = (if p + 8 > length d then None else Some (word_at 8 d p, p + 8))"

definition frame_header :: "MessageKind \<Rightarrow> u64 \<Rightarrow> u64 \<Rightarrow> u8 list" where
  "frame_header kind seq len =
     put_u32 frame_magic @ put_u32 frame_version @ put_u32 (message_kind_code kind) @
     put_u64 seq @ put_u64 len"

definition encode_frame :: "MessageKind \<Rightarrow> u64 \<Rightarrow> u8 list \<Rightarrow> u8 list" where
  "encode_frame kind seq payload =
     (if length payload > max_payload then []
      else (let frame = frame_header kind seq (of_nat (length payload)) @ payload
            in frame @ put_u32 (crc32 frame)))"

text \<open>The five reads of the header, which stop at the first that fails.\<close>

definition read_header :: "u8 list \<Rightarrow> (u32 \<times> u32 \<times> u32 \<times> u64 \<times> u64) option" where
  "read_header d =
     (case get32 d 0 of None \<Rightarrow> None | Some (magic, p1) \<Rightarrow>
      case get32 d p1 of None \<Rightarrow> None | Some (version, p2) \<Rightarrow>
      case get32 d p2 of None \<Rightarrow> None | Some (kindu, p3) \<Rightarrow>
      case get64 d p3 of None \<Rightarrow> None | Some (seq, p4) \<Rightarrow>
      case get64 d p4 of None \<Rightarrow> None | Some (len, p5) \<Rightarrow> Some (magic, version, kindu, seq, len))"

definition decode_frame :: "u8 list \<Rightarrow> string + Frame \<times> nat" where
  "decode_frame d =
     (if length d < header_size then Inl ''TRUNCATED''
      else case read_header d of None \<Rightarrow> Inl ''TRUNCATED''
      | Some (magic, version, kindu, seq, len) \<Rightarrow>
        if magic \<noteq> frame_magic then Inl ''BAD_MAGIC''
        else if version \<noteq> frame_version then Inl ''BAD_VERSION''
        else if kindu \<ge> message_kind_code MK_MAX \<or> kindu = 0 then Inl ''INVALID_ENUM''
        else if unat len > max_payload then Inl ''OVERSIZED''
        else
          (let total = header_size + unat len + 4; crcpos = header_size + unat len
           in if length d < total then Inl ''TRUNCATED''
              else case get32 d crcpos of None \<Rightarrow> Inl ''TRUNCATED''
              | Some (expected, _) \<Rightarrow>
                if crc32 (take crcpos d) \<noteq> expected then Inl ''CHECKSUM_MISMATCH''
                else Inr (\<lparr>f_kind = message_kind_cast kindu, f_seq = seq,
                           f_payload = take (unat len) (drop header_size d)\<rparr>, total)))"

text \<open>The text payloads.\<close>

definition payload_string :: "string \<Rightarrow> u8 list" where
  "payload_string s = map byte_of_char s"

definition parse_payload_string :: "u8 list \<Rightarrow> string" where
  "parse_payload_string payload = map char_of_byte payload"

lemma payload_string_roundtrip: "parse_payload_string (payload_string s) = s"
  by (simp add: payload_string_def parse_payload_string_def comp_def)

section \<open>The codes of the kinds\<close>

lemma message_kind_cast_code: "message_kind_cast (message_kind_code k) = k"
  by (cases k) (simp_all add: message_kind_cast_def message_kinds_def)

lemma message_kind_code_cast:
  assumes "u < 26"
  shows "message_kind_code (message_kind_cast u) = u"
proof -
  have "list_all (\<lambda>n. message_kind_code (message_kinds ! n) = of_nat n) [0..<26]"
    by code_simp
  moreover from assms have "unat u < 26" by unat_arith
  ultimately show ?thesis
    by (simp add: message_kind_cast_def list_all_iff)
qed

lemma message_kind_code_0 [simp]: "message_kind_code k = 0 \<longleftrightarrow> k = MK_UNKNOWN"
  by (cases k) simp_all

lemma message_kind_code_max [simp]: "25 \<le> message_kind_code k \<longleftrightarrow> k = MK_MAX"
  by (cases k) (simp_all add: word_le_nat_alt)

text \<open>A frame that can be sent: a kind between the two sentinels and a payload within bounds.\<close>

definition sendable :: "Frame \<Rightarrow> bool" where
  "sendable f \<longleftrightarrow> f_kind f \<noteq> MK_UNKNOWN \<and> f_kind f \<noteq> MK_MAX \<and> length (f_payload f) \<le> max_payload"

definition frame_bytes :: "Frame \<Rightarrow> u8 list" where
  "frame_bytes f = encode_frame (f_kind f) (f_seq f) (f_payload f)"

section \<open>The decoder accepts exactly the encodings\<close>

lemma put_u32_eq [simp]: "put_u32 v = put_u32 w \<longleftrightarrow> v = w"
  using put_u32_inj by blast

lemma put_u64_eq [simp]: "put_u64 v = put_u64 w \<longleftrightarrow> v = w"
  using put_u64_inj by blast

lemma take_split: "take (m + n) d = take m d @ take n (drop m d)"
  by (rule take_add)

lemma header_words:
  assumes "header_size \<le> length d"
  shows "take header_size d = put_u32 m @ put_u32 v @ put_u32 k @ put_u64 s @ put_u64 l \<longleftrightarrow>
    read_header d = Some (m, v, k, s, l)"
proof -
  have len: "28 \<le> length d" using assms by (simp add: header_size_def)
  have "take 28 d = take 4 d @ take 4 (drop 4 d) @ take 4 (drop 8 d) @ take 8 (drop 12 d) @ take 8 (drop 20 d)"
    using take_add [of 4 24 d] take_add [of 4 20 "drop 4 d"] take_add [of 4 16 "drop 8 d"]
      take_add [of 8 8 "drop 12 d"] by (simp add: add.commute)
  also have "\<dots> = put_u32 (word_at 4 d 0) @ put_u32 (word_at 4 d 4) @ put_u32 (word_at 4 d 8) @
      put_u64 (word_at 8 d 12) @ put_u64 (word_at 8 d 20)"
    using len by (simp add: put_u32_at put_u64_at)
  finally have words: "take 28 d = put_u32 (word_at 4 d 0) @ put_u32 (word_at 4 d 4) @
      put_u32 (word_at 4 d 8) @ put_u64 (word_at 8 d 12) @ put_u64 (word_at 8 d 20)" .
  show ?thesis
    unfolding header_size_def words using len
    by (simp add: read_header_def get32_def get64_def)
qed

lemma read_header_Some: "header_size \<le> length d \<Longrightarrow> \<exists>m v k s l. read_header d = Some (m, v, k, s, l)"
  by (simp add: read_header_def get32_def get64_def header_size_def)

lemma frame_header_parts:
  "length (frame_header k s l) = header_size"
  by (simp add: frame_header_def header_size_def)

lemma payload_length: "length p \<le> max_payload \<Longrightarrow> unat (of_nat (length p) :: u64) = length p"
  by (simp add: max_payload_def unat_of_nat take_bit_nat_eq_self)

lemma frame_bytes_length: "sendable f \<Longrightarrow> length (frame_bytes f) = header_size + length (f_payload f) + 4"
  by (simp add: sendable_def frame_bytes_def encode_frame_def Let_def frame_header_parts)

lemma frame_bytes_parts:
  assumes "sendable f" and n: "n = header_size + length (f_payload f) + 4" and "n \<le> length d"
  shows "take n d = frame_bytes f \<longleftrightarrow>
    take header_size d = frame_header (f_kind f) (f_seq f) (of_nat (length (f_payload f))) \<and>
    take (length (f_payload f)) (drop header_size d) = f_payload f \<and>
    take 4 (drop (header_size + length (f_payload f)) d) = put_u32 (crc32 (take (header_size + length (f_payload f)) d))"
proof -
  let ?h = "frame_header (f_kind f) (f_seq f) (of_nat (length (f_payload f)))" and ?p = "f_payload f"
  have "take n d = take header_size d @ take (length ?p) (drop header_size d) @
      take 4 (drop (header_size + length ?p) d)"
    unfolding n by (simp only: take_add [of "header_size + length ?p" 4 d]
        take_add [of header_size "length ?p" d] append_assoc)
  moreover have "frame_bytes f = ?h @ ?p @ put_u32 (crc32 (?h @ ?p))"
    using assms(1) by (simp add: frame_bytes_def encode_frame_def sendable_def Let_def)
  moreover have "take (header_size + length ?p) d = take header_size d @ take (length ?p) (drop header_size d)"
    by (rule take_add)
  ultimately show ?thesis
    using assms(3) n by (auto simp: append_eq_append_conv frame_header_parts)
qed

lemma decode_frame_iff:
  "decode_frame d = Inr (f, n) \<longleftrightarrow>
   sendable f \<and> n = header_size + length (f_payload f) + 4 \<and> n \<le> length d \<and> take n d = frame_bytes f"
proof (cases "header_size \<le> length d")
  case False
  then show ?thesis by (auto simp: decode_frame_def)
next
  case True
  then obtain m v k s l where h: "read_header d = Some (m, v, k, s, l)" using read_header_Some by blast
  from header_words [OF True] h have hw:
    "take header_size d = frame_header (f_kind f) (f_seq f) (of_nat (length (f_payload f))) \<longleftrightarrow>
     m = frame_magic \<and> v = frame_version \<and> k = message_kind_code (f_kind f) \<and> s = f_seq f \<and>
     l = of_nat (length (f_payload f))"
    by (auto simp: frame_header_def)
  show ?thesis
  proof
    assume dec: "decode_frame d = Inr (f, n)"
    with True h have ok: "m = frame_magic" "v = frame_version" "k < 25" "k \<noteq> 0" "unat l \<le> max_payload"
      "header_size + unat l + 4 \<le> length d" "n = header_size + unat l + 4"
      "f = \<lparr>f_kind = message_kind_cast k, f_seq = s, f_payload = take (unat l) (drop header_size d)\<rparr>"
      "crc32 (take (header_size + unat l) d) = word_at 4 d (header_size + unat l)"
      by (auto simp: decode_frame_def get32_def Let_def split: if_splits)
    then have len: "length (f_payload f) = unat l" and "k < 26" by (simp_all, unat_arith)
    have kind: "message_kind_code (f_kind f) = k"
      using ok(8) message_kind_code_cast [OF \<open>k < 26\<close>] by simp
    have "sendable f"
      using ok(3-5) len kind by (auto simp: sendable_def)
    moreover have "take n d = frame_bytes f"
      using frame_bytes_parts [OF \<open>sendable f\<close>, of n d] hw ok len kind
      by (simp add: put_u32_at)
    ultimately show "sendable f \<and> n = header_size + length (f_payload f) + 4 \<and> n \<le> length d \<and>
      take n d = frame_bytes f" using ok len by simp
  next
    assume a: "sendable f \<and> n = header_size + length (f_payload f) + 4 \<and> n \<le> length d \<and> take n d = frame_bytes f"
    with frame_bytes_parts [of f n d] hw have w: "m = frame_magic" "v = frame_version"
      "k = message_kind_code (f_kind f)" "s = f_seq f" "l = of_nat (length (f_payload f))"
      "take (length (f_payload f)) (drop header_size d) = f_payload f"
      "take 4 (drop (header_size + length (f_payload f)) d) =
        put_u32 (crc32 (take (header_size + length (f_payload f)) d))"
      by auto
    from a have len: "unat l = length (f_payload f)" "unat l \<le> max_payload"
      by (simp_all add: w(5) sendable_def payload_length)
    from a show "decode_frame d = Inr (f, n)"
      using True h word_at_put_u32 [OF w(7)] len
      by (simp add: decode_frame_def get32_def Let_def w sendable_def message_kind_cast_code)
  qed
qed

section \<open>Properties\<close>

text \<open>C17. The frame decoder accepts exactly the encodings: it returns a frame and the number of
  bytes it occupies if and only if that many bytes at the front of the buffer are the encoding
  of the frame, whose kind is a message kind and whose payload is within the bound. So a frame
  is read back as it was sent, with the next frame left in place, and nothing else is accepted.\<close>

theorem frame_decoder_exact:
  "decode_frame d = Inr (f, n) \<longleftrightarrow>
   f_kind f \<noteq> MK_UNKNOWN \<and> f_kind f \<noteq> MK_MAX \<and> length (f_payload f) \<le> max_payload \<and>
   n = length (encode_frame (f_kind f) (f_seq f) (f_payload f)) \<and>
   (\<exists>later. d = encode_frame (f_kind f) (f_seq f) (f_payload f) @ later)"
proof -
  have "n \<le> length d \<and> take n d = frame_bytes f \<longleftrightarrow> (\<exists>later. d = frame_bytes f @ later)"
    if "n = length (frame_bytes f)"
    using that by (metis append_eq_conv_conj append_take_drop_id length_append le_add1)
  then show ?thesis
    unfolding decode_frame_iff using frame_bytes_length [of f]
    by (auto simp: sendable_def frame_bytes_def)
qed

lemma frame_block:
  assumes "sendable f"
  shows "block_ok (frame_bytes f)"
  using assms by (simp add: frame_bytes_def encode_frame_def sendable_def block_ok_def Let_def frame_header_parts header_size_def)

lemma take_window: "i + k \<le> n \<Longrightarrow> take k (drop i (take n xs)) = take k (drop i xs)"
  by (simp add: drop_take min_def)

lemma length_field: "sendable f \<Longrightarrow> take 8 (drop 20 (frame_bytes f)) = put_u64 (of_nat (length (f_payload f)))"
  by (simp add: frame_bytes_def encode_frame_def sendable_def Let_def frame_header_def)

text \<open>C16. A frame corrupted in transit is never accepted when the corruption lies within four
  consecutive bytes outside the length field: the decoder returns an error, whatever the bytes
  were changed to.\<close>

theorem corrupt_frame_rejected:
  assumes "encode_frame kind seq payload = a @ u @ b" and "length payload \<le> max_payload"
    and "length v = length u" and "length u \<le> 4" and "u \<noteq> v"
    and "length a + length u \<le> 20 \<or> header_size \<le> length a"
  shows "\<exists>err. decode_frame (a @ v @ b) = Inl err"
proof (rule ccontr)
  assume "\<not> ?thesis"
  then obtain f n where dec: "decode_frame (a @ v @ b) = Inr (f, n)"
    by (metis sum.exhaust surj_pair)
  let ?sent = "a @ u @ b" and ?got = "a @ v @ b"
  have sent: "?sent = frame_header kind seq (of_nat (length payload)) @ payload @
      put_u32 (crc32 (frame_header kind seq (of_nat (length payload)) @ payload))"
    using assms(1,2) by (simp add: encode_frame_def Let_def)
  have len: "length ?got = header_size + length payload + 4"
    using arg_cong [OF sent, of length] assms(3) by (simp add: frame_header_parts)
  from dec have f: "sendable f" "n = header_size + length (f_payload f) + 4" "n \<le> length ?got"
    "take n ?got = frame_bytes f" unfolding decode_frame_iff by blast+
  have field: "take 8 (drop 20 ?got) = take 8 (drop 20 ?sent)"
    using assms(3,6) by (auto simp: header_size_def drop_append take_append)
  have "take 8 (drop 20 ?sent) = put_u64 (of_nat (length payload))"
    unfolding sent by (simp add: frame_header_def)
  moreover have "take 8 (drop 20 ?got) = put_u64 (of_nat (length (f_payload f)))"
  proof -
    from f(2) have "20 + 8 \<le> n" by (simp add: header_size_def)
    from take_window [OF this, of ?got] show ?thesis
      unfolding f(4) length_field [OF f(1)] by (rule sym)
  qed
  ultimately have "length (f_payload f) = length payload"
    using field f(1) assms(2) payload_length by (metis put_u64_eq sendable_def)
  with f(2) len have "take n ?got = ?got" by simp
  with f(4) frame_block [OF f(1)] have "block_ok ?got" by (simp only:)
  moreover have "block_ok ?sent"
    unfolding sent by (simp add: block_ok_def frame_header_parts header_size_def)
  ultimately show False using burst_detected [of a u b v] assms(3-5) by simp
qed

text \<open>A keep-alive frame with sequence number 7 and one byte of payload, flipped in transit.\<close>

theorem corrupt_frame_rejected_witness:
  "\<exists>err. decode_frame ((frame_header MK_KEEPALIVE 7 1) @ [0x40] @
     put_u32 (crc32 (frame_header MK_KEEPALIVE 7 1 @ [0x41]))) = Inl err"
  by (rule corrupt_frame_rejected [of MK_KEEPALIVE 7 "[0x41]" _ "[0x41]"])
    (simp_all add: encode_frame_def max_payload_def Let_def frame_header_parts)

end
