(* ===== verification/Wire.thy ===== *)
theory Wire
  imports BufferModel Bytes
begin

text \<open>
  The payload codec of the coordinator and worker protocol
  (\<open>include/rdmabuffer/codec.hpp\<close>, namespace \<open>wire\<close>): buffer descriptors and the seven
  payloads. A decoder takes the payload and returns the decoded values, \<open>None\<close> for the result
  \<open>false\<close>. No decoder looks at the bytes behind the last field.
\<close>

section \<open>Buffer descriptors\<close>

definition write_descriptor :: "BufferDescriptor \<Rightarrow> u8 list" where
  "write_descriptor d =
     put_u64 (id_value (bd_id d)) @
     put_u64 (gen_value (bd_generation d)) @
     put_u8 (memory_domain_code (bd_domain d)) @
     put_u64 (bp_address (bd_base d)) @
     put_u8 (pointer_kind_code (bp_kind (bd_base d))) @
     put_u64 (bd_byte_length d) @
     put_u64 (bd_alignment d) @
     put_u64 (bd_page_size d) @
     put_u64 (id_value (bd_owner d)) @
     put_u64 (id_value (bd_process d)) @
     put_u64 (id_value (bd_worker d)) @
     put_u64 (id_value (bd_node d)) @
     put_u64 (id_value (bd_device d)) @
     put_u8 (transfer_direction_code (bd_direction d)) @
     put_u8 (bd_requested_access d) @
     put_u8 (registration_mode_code (bd_registration_mode d)) @
     put_u8 (lifetime_policy_code (bd_lifetime d)) @
     put_u8 (provenance_code (bd_provenance d)) @
     put_u8 (freshness_code (bd_freshness d)) @
     put_u64 (gen_value (bd_policy_generation d))"

definition read_descriptor :: "BufferDescriptor decoder" where
  "read_descriptor =
     rd_bind rd_u64 (\<lambda>i. rd_bind rd_u64 (\<lambda>gen.
     rd_bind rd_u8 (\<lambda>u. rd_cast (memory_domain_of_code u) (\<lambda>domain.
     rd_bind rd_u64 (\<lambda>address.
     rd_bind rd_u8 (\<lambda>k. rd_cast (pointer_kind_of_code k) (\<lambda>kind.
     rd_bind rd_u64 (\<lambda>len. rd_bind rd_u64 (\<lambda>alignment. rd_bind rd_u64 (\<lambda>page_size.
     rd_bind rd_u64 (\<lambda>owner. rd_bind rd_u64 (\<lambda>process. rd_bind rd_u64 (\<lambda>worker.
     rd_bind rd_u64 (\<lambda>node. rd_bind rd_u64 (\<lambda>device.
     rd_bind rd_u8 (\<lambda>dr. rd_bind rd_u8 (\<lambda>am. rd_bind rd_u8 (\<lambda>rm.
     rd_bind rd_u8 (\<lambda>lt. rd_bind rd_u8 (\<lambda>pv. rd_bind rd_u8 (\<lambda>fr.
     rd_cast (transfer_direction_of_code dr) (\<lambda>direction.
     rd_cast (registration_mode_of_code rm) (\<lambda>mode.
     rd_cast (lifetime_policy_of_code lt) (\<lambda>lifetime.
     rd_cast (provenance_of_code pv) (\<lambda>provenance.
     rd_cast (freshness_of_code fr) (\<lambda>freshness.
     rd_bind rd_u64 (\<lambda>policy.
     rd_return
       \<lparr>bd_id = StrongId i, bd_generation = StrongGeneration gen, bd_domain = domain,
        bd_base = \<lparr>bp_address = address, bp_kind = kind\<rparr>, bd_byte_length = len,
        bd_alignment = alignment, bd_page_size = page_size, bd_owner = StrongId owner,
        bd_process = StrongId process, bd_worker = StrongId worker, bd_node = StrongId node,
        bd_device = StrongId device, bd_direction = direction, bd_requested_access = am,
        bd_registration_mode = mode, bd_lifetime = lifetime, bd_provenance = provenance,
        bd_freshness = freshness, bd_policy_generation = StrongGeneration policy\<rparr>)))))))))))))))))))))))))))"

lemmas of_codes =
  memory_domain_enum.of_code_code pointer_kind_enum.of_code_code lifecycle_enum.of_code_code
  transport_class_enum.of_code_code provenance_enum.of_code_code
  registration_mode_enum.of_code_code lifetime_policy_enum.of_code_code
  transfer_direction_enum.of_code_code capability_state_enum.of_code_code
  backend_state_enum.of_code_code freshness_enum.of_code_code

lemma read_write_descriptor: "reads read_descriptor (write_descriptor d) d"
  unfolding read_descriptor_def write_descriptor_def
  by ((rule reads_rules of_codes)+, simp)

lemma read_descriptor_bounded: "bounded read_descriptor"
  unfolding read_descriptor_def by (intro bounded_rules)

interpretation descriptor_codec: codec write_descriptor read_descriptor "\<lambda>_. True" "\<lambda>d. d"
  by unfold_locales (rule read_write_descriptor, rule read_descriptor_bounded)

section \<open>Payloads\<close>

definition run_decoder :: "'a decoder \<Rightarrow> u8 list \<Rightarrow> 'a option" where
  "run_decoder m p = fst (m (new_reader p))"

lemma run_decoder_reads: "reads m bs v \<Longrightarrow> run_decoder m (bs @ post) = Some v"
  using readsD [of m bs v "new_reader (bs @ post)" post]
  by (simp add: run_decoder_def rest_def new_reader_def)

definition encode_hello :: "string \<Rightarrow> u8 list" where
  "encode_hello role = put_str role"

definition decode_hello :: "u8 list \<Rightarrow> string option" where
  "decode_hello = run_decoder (rd_str 64)"

definition encode_hello_ack :: "u64 \<Rightarrow> u64 \<Rightarrow> u64 \<Rightarrow> u8 list" where
  "encode_hello_ack boot epoch node = put_u64 boot @ put_u64 epoch @ put_u64 node"

definition decode_hello_ack :: "u8 list \<Rightarrow> (u64 \<times> u64 \<times> u64) option" where
  "decode_hello_ack = run_decoder
     (rd_bind rd_u64 (\<lambda>boot. rd_bind rd_u64 (\<lambda>epoch. rd_bind rd_u64 (\<lambda>node.
      rd_return (boot, epoch, node)))))"

definition encode_register :: "BufferDescriptor \<Rightarrow> u64 \<Rightarrow> u64 \<Rightarrow> u8 list" where
  "encode_register d domain backend = put_u64 domain @ put_u64 backend @ write_descriptor d"

definition decode_register :: "u8 list \<Rightarrow> (BufferDescriptor \<times> u64 \<times> u64) option" where
  "decode_register = run_decoder
     (rd_bind rd_u64 (\<lambda>domain. rd_bind rd_u64 (\<lambda>backend. rd_bind read_descriptor (\<lambda>d.
      rd_return (d, domain, backend)))))"

definition encode_register_ack :: "bool \<Rightarrow> u64 \<Rightarrow> u64 \<Rightarrow> string \<Rightarrow> u8 list" where
  "encode_register_ack ok reg keygen message =
     put_u8 (if ok then 1 else 0) @ put_u64 reg @ put_u64 keygen @ put_str message"

definition decode_register_ack :: "u8 list \<Rightarrow> (bool \<times> u64 \<times> u64 \<times> string) option" where
  "decode_register_ack = run_decoder
     (rd_bind rd_u8 (\<lambda>o'. rd_bind rd_u64 (\<lambda>reg. rd_bind rd_u64 (\<lambda>keygen.
      rd_bind (rd_str 4096) (\<lambda>message. rd_return (o' \<noteq> 0, reg, keygen, message))))))"

record AccessPayload =
  ap_reg :: u64
  ap_off :: u64
  ap_len :: u64
  ap_kind :: u64
  ap_access :: u8
  ap_boot :: u64
  ap_expkeygen :: u64

definition encode_access :: "AccessPayload \<Rightarrow> u8 list" where
  "encode_access a =
     put_u64 (ap_reg a) @ put_u64 (ap_off a) @ put_u64 (ap_len a) @ put_u64 (ap_kind a) @
     put_u8 (ap_access a) @ put_u64 (ap_boot a) @ put_u64 (ap_expkeygen a)"

definition decode_access :: "u8 list \<Rightarrow> AccessPayload option" where
  "decode_access = run_decoder
     (rd_bind rd_u64 (\<lambda>reg. rd_bind rd_u64 (\<lambda>off. rd_bind rd_u64 (\<lambda>len. rd_bind rd_u64 (\<lambda>kind.
      rd_bind rd_u8 (\<lambda>access. rd_bind rd_u64 (\<lambda>boot. rd_bind rd_u64 (\<lambda>expkeygen.
      rd_return \<lparr>ap_reg = reg, ap_off = off, ap_len = len, ap_kind = kind, ap_access = access,
                 ap_boot = boot, ap_expkeygen = expkeygen\<rparr>))))))))"

definition encode_access_ack :: "u8 \<Rightarrow> string \<Rightarrow> u8 list" where
  "encode_access_ack outcome message = put_u8 outcome @ put_str message"

definition decode_access_ack :: "u8 list \<Rightarrow> (u8 \<times> string) option" where
  "decode_access_ack = run_decoder
     (rd_bind rd_u8 (\<lambda>outcome. rd_bind (rd_str 4096) (\<lambda>message. rd_return (outcome, message))))"

definition encode_result :: "bool \<Rightarrow> string \<Rightarrow> u8 list" where
  "encode_result ok message = put_u8 (if ok then 1 else 0) @ put_str message"

definition decode_result :: "u8 list \<Rightarrow> (bool \<times> string) option" where
  "decode_result = run_decoder
     (rd_bind rd_u8 (\<lambda>o'. rd_bind (rd_str 4096) (\<lambda>message. rd_return (o' \<noteq> 0, message))))"

lemmas payload_defs =
  encode_hello_def decode_hello_def encode_hello_ack_def decode_hello_ack_def
  encode_register_def decode_register_def encode_register_ack_def decode_register_ack_def
  encode_access_def decode_access_def encode_access_ack_def decode_access_ack_def
  encode_result_def decode_result_def

section \<open>Round trips\<close>

text \<open>
  Every payload is read back as it was written, whatever bytes follow it, as long as its text
  fits the length bound of its decoder (64 bytes for a role, 4096 for a message).
\<close>

lemma hello_roundtrip: "length role \<le> 64 \<Longrightarrow> decode_hello (encode_hello role @ post) = Some role"
  unfolding payload_defs by (rule run_decoder_reads) ((rule reads_rules)+, simp_all add: reads_return)

lemma hello_ack_roundtrip:
  "decode_hello_ack (encode_hello_ack boot epoch node @ post) = Some (boot, epoch, node)"
  unfolding payload_defs by (rule run_decoder_reads) ((rule reads_rules)+, simp)

lemma register_roundtrip:
  "decode_register (encode_register d domain backend @ post) = Some (d, domain, backend)"
  unfolding payload_defs by (rule run_decoder_reads) ((rule reads_rules read_write_descriptor)+, simp)

lemma register_ack_roundtrip:
  "length message \<le> 4096 \<Longrightarrow>
   decode_register_ack (encode_register_ack ok reg keygen message @ post) = Some (ok, reg, keygen, message)"
  unfolding payload_defs by (rule run_decoder_reads) ((rule reads_rules)+, simp_all add: reads_return)

lemma access_roundtrip: "decode_access (encode_access a @ post) = Some a"
  unfolding payload_defs by (rule run_decoder_reads) ((rule reads_rules)+, simp)

lemma access_ack_roundtrip:
  "length message \<le> 4096 \<Longrightarrow>
   decode_access_ack (encode_access_ack outcome message @ post) = Some (outcome, message)"
  unfolding payload_defs by (rule run_decoder_reads) ((rule reads_rules)+, simp_all add: reads_return)

lemma result_roundtrip:
  "length message \<le> 4096 \<Longrightarrow> decode_result (encode_result ok message @ post) = Some (ok, message)"
  unfolding payload_defs by (rule run_decoder_reads) ((rule reads_rules)+, simp_all add: reads_return)

text \<open>A text above the bound is refused by the reader although the writer accepted it.\<close>

definition refuses :: "'a decoder \<Rightarrow> u8 list \<Rightarrow> bool" where
  "refuses m bs \<longleftrightarrow> (\<forall>r. rest r = bs \<longrightarrow> fst (m r) = None)"

lemma refuses_bind: "reads m bs v \<Longrightarrow> refuses (f v) post \<Longrightarrow> refuses (rd_bind m f) (bs @ post)"
  by (simp add: refuses_def rd_bind_def readsD)

lemma refuses_first: "refuses m bs \<Longrightarrow> refuses (rd_bind m f) bs"
  by (auto simp: refuses_def rd_bind_def split: prod.splits option.splits)

lemma refuses_str:
  assumes "max_len < length s" and "length s < 2 ^ 64"
  shows "refuses (rd_str max_len) (put_str s @ post)"
proof -
  have "unat (of_nat (length s) :: u64) = length s"
    using assms by (simp add: unat_of_nat take_bit_nat_eq_self)
  then show ?thesis
    using assms(1) readsD [OF reads_u64]
    by (auto simp: refuses_def rd_str_def rd_bind_def rd_fail_def put_str_def)
qed

lemma run_decoder_refuses: "refuses m bs \<Longrightarrow> run_decoder m bs = None"
  by (simp add: refuses_def run_decoder_def rest_def new_reader_def)

lemma hello_too_long:
  "64 < length role \<Longrightarrow> length role < 2 ^ 64 \<Longrightarrow> decode_hello (encode_hello role @ post) = None"
  unfolding payload_defs by (intro run_decoder_refuses refuses_str)

lemma messages_too_long:
  assumes "4096 < length message" and "length message < 2 ^ 64"
  shows "decode_register_ack (encode_register_ack ok reg keygen message @ post) = None"
    and "decode_access_ack (encode_access_ack outcome message @ post) = None"
    and "decode_result (encode_result ok message @ post) = None"
  unfolding payload_defs append_assoc
  by (intro run_decoder_refuses refuses_bind [OF reads_u8] refuses_bind [OF reads_u64]
      refuses_first refuses_str assms)+

section \<open>Property\<close>

text \<open>C34. Every command payload of the wire protocol is read back as it was written, whatever bytes
  follow it: the role of a hello (up to 64 bytes), the numbers of a hello acknowledgement, the
  descriptor with its domain and backend of a registration, the seven fields of an access, and
  the acknowledgements with a message of up to 4096 bytes. A longer role or message is refused by
  the decoder although the encoder accepts it.\<close>

theorem payloads_roundtrip:
  assumes "length role < 2 ^ 64" and "length message < 2 ^ 64"
  shows "decode_hello (encode_hello role @ post) = (if length role \<le> 64 then Some role else None) \<and>
    decode_hello_ack (encode_hello_ack boot epoch node @ post) = Some (boot, epoch, node) \<and>
    decode_register (encode_register d domain backend @ post) = Some (d, domain, backend) \<and>
    decode_access (encode_access a @ post) = Some a \<and>
    decode_register_ack (encode_register_ack ok reg keygen message @ post) =
      (if length message \<le> 4096 then Some (ok, reg, keygen, message) else None) \<and>
    decode_access_ack (encode_access_ack outcome message @ post) =
      (if length message \<le> 4096 then Some (outcome, message) else None) \<and>
    decode_result (encode_result ok message @ post) =
      (if length message \<le> 4096 then Some (ok, message) else None)"
  using hello_roundtrip hello_ack_roundtrip register_roundtrip access_roundtrip register_ack_roundtrip
    access_ack_roundtrip result_roundtrip hello_too_long [OF _ assms(1)]
    messages_too_long [OF _ assms(2)]
  by (simp add: not_le)

theorem payloads_roundtrip_witness:
  "decode_hello (encode_hello ''worker'' @ [7]) = Some ''worker'' \<and>
   decode_hello (encode_hello (replicate 65 CHR ''x'') @ [7]) = None"
  using payloads_roundtrip [of "''worker''" "''done''" "[7]"]
    payloads_roundtrip [of "replicate 65 CHR ''x''" "''done''" "[7]"]
  by simp

end
