(* ===== verification/Persistence.thy ===== *)
theory Persistence
  imports Records Accounting Crc32 Wire
begin

text \<open>
  The versioned binary format of saved states (\<open>include/rdmabuffer/persistence.hpp\<close>,
  \<open>src/persistence.cpp\<close>). Every record has an encoder and a decoder, interpreted as a \<open>codec\<close>,
  so the round trip of a whole state is assembled from the round trips of its parts. What the
  format leaves out is explicit: the policy generation of a registration is not written, the
  provenance of the authority snapshot is written and then dropped by the reader.
\<close>

record PersistableState =
  ps_format_version :: u32
  ps_buffers :: "BufferDescriptor list"
  ps_registrations :: "RegistrationRecord list"
  ps_domains :: "ProtectionDomainId list"
  ps_remote_key_history :: "RemoteKey list"
  ps_local_key_history :: "LocalKey list"
  ps_revocation_history :: "string list"
  ps_accounting_summary :: Accounting
  ps_backend_capability_snapshot :: "BackendInfo list"
  ps_authority_snapshot :: AuthoritySnapshot
  ps_policy_generation :: PolicyGeneration

definition default_persistable :: PersistableState where
  "default_persistable =
     \<lparr>ps_format_version = 1, ps_buffers = [], ps_registrations = [], ps_domains = [],
      ps_remote_key_history = [], ps_local_key_history = [], ps_revocation_history = [],
      ps_accounting_summary = zero_accounting, ps_backend_capability_snapshot = [],
      ps_authority_snapshot = default_snapshot, ps_policy_generation = no_gen\<rparr>"

definition format_magic :: u32 where "format_magic = 0x52444D31"

definition format_version :: u32 where "format_version = 1"

definition max_count :: nat where "max_count = 2 ^ 20"

section \<open>Descriptors and keys\<close>

definition encode_descriptor :: "BufferDescriptor \<Rightarrow> u8 list" where
  "encode_descriptor b =
     put_u64 (id_value (bd_id b)) @
     put_u64 (gen_value (bd_generation b)) @
     put_u8 (memory_domain_code (bd_domain b)) @
     put_u64 (bp_address (bd_base b)) @
     put_u8 (pointer_kind_code (bp_kind (bd_base b))) @
     put_u64 (bd_byte_length b) @
     put_u64 (bd_alignment b) @
     put_u64 (bd_page_size b) @
     put_u64 (id_value (bd_owner b)) @
     put_u64 (id_value (bd_process b)) @
     put_u64 (id_value (bd_worker b)) @
     put_u64 (id_value (bd_node b)) @
     put_u64 (id_value (bd_device b)) @
     put_u8 (transfer_direction_code (bd_direction b)) @
     put_u8 (bd_requested_access b) @
     put_u8 (registration_mode_code (bd_registration_mode b)) @
     put_u8 (lifetime_policy_code (bd_lifetime b)) @
     put_u8 (provenance_code (bd_provenance b)) @
     put_u8 (freshness_code (bd_freshness b)) @
     put_u64 (gen_value (bd_policy_generation b))"

definition decode_descriptor :: "BufferDescriptor decoder" where
  "decode_descriptor =
     rd_bind rd_u64 (\<lambda>i. rd_bind rd_u64 (\<lambda>gen.
     rd_bind rd_u8 (\<lambda>d. rd_cast (memory_domain_of_code d) (\<lambda>domain.
     rd_bind rd_u64 (\<lambda>address.
     rd_bind rd_u8 (\<lambda>pk. rd_cast (pointer_kind_of_code pk) (\<lambda>kind.
     rd_bind rd_u64 (\<lambda>len. rd_bind rd_u64 (\<lambda>alignment. rd_bind rd_u64 (\<lambda>page_size.
     rd_bind rd_u64 (\<lambda>owner. rd_bind rd_u64 (\<lambda>process. rd_bind rd_u64 (\<lambda>worker.
     rd_bind rd_u64 (\<lambda>node. rd_bind rd_u64 (\<lambda>device.
     rd_bind rd_u8 (\<lambda>dr. rd_bind rd_u8 (\<lambda>am. rd_bind rd_u8 (\<lambda>rm.
     rd_bind rd_u8 (\<lambda>lt. rd_bind rd_u8 (\<lambda>pv. rd_bind rd_u8 (\<lambda>fr.
     rd_cast (transfer_direction_of_code dr) (\<lambda>direction.
     rd_cast (registration_mode_of_code rm) (\<lambda>mode.
     rd_cast (lifetime_policy_of_code lt) (\<lambda>lifetime.
     rd_cast (provenance_of_code pv) (\<lambda>provenance.
     rd_cast (freshness_of_code fr) (\<lambda>freshness.
     rd_bind rd_u64 (\<lambda>policy.
     rd_return
       \<lparr>bd_id = StrongId i, bd_generation = StrongGeneration gen, bd_domain = domain,
        bd_base = \<lparr>bp_address = address, bp_kind = kind\<rparr>, bd_byte_length = len,
        bd_alignment = alignment, bd_page_size = page_size, bd_owner = StrongId owner,
        bd_process = StrongId process, bd_worker = StrongId worker, bd_node = StrongId node,
        bd_device = StrongId device, bd_direction = direction, bd_requested_access = am,
        bd_registration_mode = mode, bd_lifetime = lifetime, bd_provenance = provenance,
        bd_freshness = freshness, bd_policy_generation = StrongGeneration policy\<rparr>)))))))))))))))))))))))))))"

definition encode_remote_key :: "RemoteKey \<Rightarrow> u8 list" where
  "encode_remote_key k =
     put_u64 (id_value (rk_id k)) @ put_u64 (id_value (rk_registration k)) @
     put_u64 (gen_value (rk_registration_generation k)) @
     put_u64 (gen_value (rk_key_generation k)) @
     put_u64 (gen_value (rk_buffer_generation k)) @ put_u64 (id_value (rk_boot k)) @
     put_u64 (id_value (rk_process k)) @ put_u64 (id_value (rk_backend k)) @
     put_u8 (transport_class_code (rk_transport k)) @ put_u8 (rk_access k) @
     put_u64 (rk_start k) @ put_u64 (rk_length k) @ put_u64 (rk_opaque_value k) @
     put_u8 (if rk_revoked k then 1 else 0) @ put_u8 (provenance_code (rk_provenance k))"

definition decode_remote_key :: "RemoteKey decoder" where
  "decode_remote_key =
     rd_bind rd_u64 (\<lambda>i. rd_bind rd_u64 (\<lambda>reg. rd_bind rd_u64 (\<lambda>reg_gen.
     rd_bind rd_u64 (\<lambda>key_gen. rd_bind rd_u64 (\<lambda>buf_gen. rd_bind rd_u64 (\<lambda>boot.
     rd_bind rd_u64 (\<lambda>process. rd_bind rd_u64 (\<lambda>backend.
     rd_bind rd_u8 (\<lambda>t. rd_cast (transport_class_of_code t) (\<lambda>transport.
     rd_bind rd_u8 (\<lambda>access.
     rd_bind rd_u64 (\<lambda>start. rd_bind rd_u64 (\<lambda>len. rd_bind rd_u64 (\<lambda>opaque.
     rd_bind rd_u8 (\<lambda>rv. rd_bind rd_u8 (\<lambda>pv. rd_cast (provenance_of_code pv) (\<lambda>provenance.
     rd_return
       \<lparr>rk_id = StrongId i, rk_registration = StrongId reg,
        rk_registration_generation = StrongGeneration reg_gen,
        rk_key_generation = StrongGeneration key_gen,
        rk_buffer_generation = StrongGeneration buf_gen, rk_boot = StrongId boot,
        rk_process = StrongId process, rk_backend = StrongId backend, rk_transport = transport,
        rk_access = access, rk_start = start, rk_length = len, rk_opaque_value = opaque,
        rk_revoked = (rv \<noteq> 0), rk_provenance = provenance\<rparr>)))))))))))))))))"

definition encode_local_key :: "LocalKey \<Rightarrow> u8 list" where
  "encode_local_key k =
     put_u64 (id_value (lk_id k)) @ put_u64 (id_value (lk_registration k)) @
     put_u64 (gen_value (lk_registration_generation k)) @ put_u64 (id_value (lk_boot k)) @
     put_u64 (id_value (lk_backend k)) @
     put_u8 (transport_class_code (lk_transport k)) @ put_u8 (lk_access k) @
     put_u64 (lk_opaque_value k) @ put_u8 (provenance_code (lk_provenance k))"

definition decode_local_key :: "LocalKey decoder" where
  "decode_local_key =
     rd_bind rd_u64 (\<lambda>i. rd_bind rd_u64 (\<lambda>reg. rd_bind rd_u64 (\<lambda>reg_gen.
     rd_bind rd_u64 (\<lambda>boot. rd_bind rd_u64 (\<lambda>backend.
     rd_bind rd_u8 (\<lambda>t. rd_bind rd_u8 (\<lambda>access.
     rd_cast (transport_class_of_code t) (\<lambda>transport.
     rd_bind rd_u64 (\<lambda>opaque. rd_bind rd_u8 (\<lambda>pv.
     rd_cast (provenance_of_code pv) (\<lambda>provenance.
     rd_return
       \<lparr>lk_id = StrongId i, lk_registration = StrongId reg,
        lk_registration_generation = StrongGeneration reg_gen, lk_boot = StrongId boot,
        lk_backend = StrongId backend, lk_transport = transport, lk_access = access,
        lk_opaque_value = opaque, lk_provenance = provenance\<rparr>)))))))))))"

lemma read_descriptor_same: "encode_descriptor = write_descriptor" "decode_descriptor = read_descriptor"
  by (simp_all add: fun_eq_iff encode_descriptor_def write_descriptor_def
      decode_descriptor_def read_descriptor_def)

interpretation persisted_descriptor: codec encode_descriptor decode_descriptor "\<lambda>_. True" "\<lambda>b. b"
  unfolding read_descriptor_same by (rule descriptor_codec.codec_axioms)

lemma reads_remote_key: "reads decode_remote_key (encode_remote_key k) k"
  unfolding decode_remote_key_def encode_remote_key_def
  by ((rule reads_rules of_codes)+, simp)

interpretation remote_key_codec: codec encode_remote_key decode_remote_key "\<lambda>_. True" "\<lambda>k. k"
  by unfold_locales (rule reads_remote_key, unfold decode_remote_key_def, intro bounded_rules)

lemma reads_local_key: "reads decode_local_key (encode_local_key k) k"
  unfolding decode_local_key_def encode_local_key_def
  by ((rule reads_rules of_codes)+, simp)

interpretation local_key_codec: codec encode_local_key decode_local_key "\<lambda>_. True" "\<lambda>k. k"
  by unfold_locales (rule reads_local_key, unfold decode_local_key_def, intro bounded_rules)

section \<open>Registrations\<close>

definition encode_registration :: "RegistrationRecord \<Rightarrow> u8 list" where
  "encode_registration r =
     put_u64 (id_value (r_id r)) @ put_u64 (id_value (r_buffer_id r)) @
     put_u64 (gen_value (r_buffer_generation r)) @ put_u64 (gen_value (r_registration_generation r)) @
     put_u64 (id_value (r_backend r)) @ put_u64 (gen_value (r_backend_generation r)) @
     put_u64 (id_value (r_transport r)) @ put_u64 (id_value (r_nic r)) @
     put_u8 (memory_domain_code (r_domain r)) @ put_u8 (transport_class_code (r_transport_class r)) @
     put_u8 (r_granted_access r) @
     put_u64 (r_start r) @ put_u64 (r_length r) @ put_u64 (r_page_alignment r) @
     put_u64 (id_value (r_owner r)) @ put_u64 (id_value (r_process r)) @
     put_u64 (id_value (r_worker r)) @ put_u64 (id_value (r_boot r)) @
     put_u64 (gen_value (r_epoch r)) @ put_u64 (id_value (r_device r)) @
     put_u64 (id_value (r_domain_id r)) @ put_u64 (r_registration_timestamp_ns r) @
     put_u8 (provenance_code (r_provenance r)) @ put_u8 (freshness_code (r_freshness r)) @
     put_u8 (lifecycle_code (r_lifecycle r)) @
     put_u64 (r_lease_count r) @ put_u64 (r_ref_count r) @
     put_u64 (id_value (r_memory_region_id r)) @
     put_str (r_backend_handle r) @ put_str (r_invalidation_reason r) @
     encode_descriptor (r_descriptor r) @
     encode_remote_key (r_remote_key r) @
     encode_local_key (r_local_key r)"

text \<open>The record starts from its defaults, so a member that is not read is zero.\<close>

definition decode_registration :: "RegistrationRecord decoder" where
  "decode_registration =
     rd_bind rd_u64 (\<lambda>i. rd_bind rd_u64 (\<lambda>buf. rd_bind rd_u64 (\<lambda>buf_gen. rd_bind rd_u64 (\<lambda>reg_gen.
     rd_bind rd_u64 (\<lambda>backend. rd_bind rd_u64 (\<lambda>backend_gen.
     rd_bind rd_u64 (\<lambda>transport. rd_bind rd_u64 (\<lambda>nic.
     rd_bind rd_u8 (\<lambda>dm. rd_bind rd_u8 (\<lambda>tc. rd_bind rd_u8 (\<lambda>acc.
     rd_cast (memory_domain_of_code dm) (\<lambda>domain.
     rd_cast (transport_class_of_code tc) (\<lambda>tclass.
     rd_bind rd_u64 (\<lambda>start. rd_bind rd_u64 (\<lambda>len. rd_bind rd_u64 (\<lambda>alignment.
     rd_bind rd_u64 (\<lambda>owner. rd_bind rd_u64 (\<lambda>process. rd_bind rd_u64 (\<lambda>worker.
     rd_bind rd_u64 (\<lambda>boot. rd_bind rd_u64 (\<lambda>epoch. rd_bind rd_u64 (\<lambda>device.
     rd_bind rd_u64 (\<lambda>pd. rd_bind rd_u64 (\<lambda>timestamp.
     rd_bind rd_u8 (\<lambda>pv. rd_bind rd_u8 (\<lambda>fr. rd_bind rd_u8 (\<lambda>lc.
     rd_cast (provenance_of_code pv) (\<lambda>provenance.
     rd_cast (freshness_of_code fr) (\<lambda>freshness.
     rd_cast (lifecycle_of_code lc) (\<lambda>lifecycle.
     rd_bind rd_u64 (\<lambda>leases. rd_bind rd_u64 (\<lambda>refs. rd_bind rd_u64 (\<lambda>region.
     rd_bind (rd_str max_count) (\<lambda>handle. rd_bind (rd_str max_count) (\<lambda>reason.
     rd_bind decode_descriptor (\<lambda>descriptor.
     rd_bind decode_remote_key (\<lambda>remote_key.
     rd_bind decode_local_key (\<lambda>local_key.
     rd_return
       \<lparr>r_id = StrongId i, r_buffer_id = StrongId buf, r_buffer_generation = StrongGeneration buf_gen,
        r_registration_generation = StrongGeneration reg_gen, r_descriptor = descriptor,
        r_backend = StrongId backend, r_backend_generation = StrongGeneration backend_gen,
        r_transport = StrongId transport, r_transport_class = tclass, r_nic = StrongId nic,
        r_domain = domain, r_granted_access = acc, r_local_key = local_key,
        r_remote_key = remote_key, r_start = start, r_length = len, r_page_alignment = alignment,
        r_memory_region_id = StrongId region, r_backend_handle = handle, r_owner = StrongId owner,
        r_process = StrongId process, r_worker = StrongId worker, r_boot = StrongId boot,
        r_epoch = StrongGeneration epoch, r_device = StrongId device, r_domain_id = StrongId pd,
        r_registration_timestamp_ns = timestamp, r_provenance = provenance,
        r_freshness = freshness, r_lifecycle = lifecycle, r_lease_count = leases,
        r_ref_count = refs, r_invalidation_reason = reason,
        r_policy_generation = no_gen\<rparr>))))))))))))))))))))))))))))))))))))))"

definition registration_fits :: "RegistrationRecord \<Rightarrow> bool" where
  "registration_fits r \<longleftrightarrow>
     length (r_backend_handle r) \<le> max_count \<and> length (r_invalidation_reason r) \<le> max_count"

definition without_policy :: "RegistrationRecord \<Rightarrow> RegistrationRecord" where
  "without_policy r = r\<lparr>r_policy_generation := no_gen\<rparr>"

lemma reads_registration:
  assumes "registration_fits r"
  shows "reads decode_registration (encode_registration r) (without_policy r)"
proof -
  note strs = reads_str [of "r_backend_handle r" max_count] reads_str [of "r_invalidation_reason r" max_count]
  from assms have fits: "length (r_backend_handle r) \<le> max_count" "length (r_invalidation_reason r) \<le> max_count"
    "max_count < 2 ^ 64" by (simp_all add: registration_fits_def max_count_def)
  show ?thesis
    unfolding decode_registration_def encode_registration_def
    by ((rule reads_rules(1-4) reads_u8 reads_u64 strs(1) [OF fits(1,3)] strs(2) [OF fits(2,3)]
          of_codes persisted_descriptor.reads_enc reads_remote_key reads_local_key TrueI reads_return)+,
        simp add: without_policy_def)
qed

interpretation registration_codec:
  codec encode_registration decode_registration registration_fits without_policy
  by unfold_locales
    (rule reads_registration, assumption, unfold decode_registration_def,
     intro bounded_rules persisted_descriptor.dec_bounded remote_key_codec.dec_bounded
       local_key_codec.dec_bounded)

section \<open>Backend snapshots, accounting and authority\<close>

text \<open>\<open>cap8\<close> and its counterpart for the provenance map an unknown byte to \<open>UNKNOWN\<close>.\<close>

definition cap8 :: "u8 \<Rightarrow> CapabilityState" where
  "cap8 x = (case capability_state_of_code x of Some s \<Rightarrow> s | None \<Rightarrow> CS_UNKNOWN)"

definition prov8 :: "u8 \<Rightarrow> Provenance" where
  "prov8 x = (case provenance_of_code x of Some p \<Rightarrow> p | None \<Rightarrow> PV_UNKNOWN)"

definition encode_backend_info :: "BackendInfo \<Rightarrow> u8 list" where
  "encode_backend_info b =
     (let c = bi_capabilities b in
     put_u64 (id_value (bi_id b)) @ put_str (bi_name b) @ put_str (bi_description b) @
     put_u8 (provenance_code (bi_provenance b)) @ put_u8 (backend_state_code (bi_state b)) @
     put_u64 (gen_value (bi_generation b)) @
     put_u64 (bi_prot_domain_count b) @ put_u64 (bi_registration_count b) @
     put_u64 (of_nat (length (bc_supported_domains c))) @
     concat (map (\<lambda>d. put_u8 (memory_domain_code d)) (bc_supported_domains c)) @
     put_u64 (bc_max_registration_length c) @ put_u64 (bc_required_alignment c) @
     put_u8 (capability_state_code (bc_remote_read c)) @
     put_u8 (capability_state_code (bc_remote_write c)) @
     put_u8 (capability_state_code (bc_remote_atomic c)) @
     put_u8 (capability_state_code (bc_host_pinned c)) @
     put_u8 (capability_state_code (bc_pageable_registration c)) @
     put_u8 (capability_state_code (bc_cuda_device c)) @
     put_u8 (capability_state_code (bc_cuda_managed c)) @
     put_u8 (capability_state_code (bc_on_demand_paging c)) @
     put_u8 (capability_state_code (bc_one_sided c)) @
     put_u8 (capability_state_code (bc_multiprocess c)) @
     put_u8 (capability_state_code (bc_multinode c)) @
     put_u8 (capability_state_code (bc_key_rotation c)) @
     put_u8 (capability_state_code (bc_revocation c)) @
     put_u8 (provenance_code (bc_provenance c)))"

text \<open>The body of the loop over the supported domains.\<close>

definition decode_domain :: "MemoryDomain decoder" where
  "decode_domain = rd_bind rd_u8 (\<lambda>d. rd_cast (memory_domain_of_code d) rd_return)"

text \<open>The thirteen bytes \<open>v[0]\<close> to \<open>v[12]\<close> are read by a loop before they are used.\<close>

definition decode_backend_info :: "BackendInfo decoder" where
  "decode_backend_info =
     rd_bind rd_u64 (\<lambda>i. rd_bind (rd_str 256) (\<lambda>name. rd_bind (rd_str 1024) (\<lambda>description.
     rd_bind rd_u8 (\<lambda>pv. rd_bind rd_u8 (\<lambda>st.
     rd_cast (provenance_of_code pv) (\<lambda>provenance.
     rd_cast (backend_state_of_code st) (\<lambda>state.
     rd_bind rd_u64 (\<lambda>gen. rd_bind rd_u64 (\<lambda>doms. rd_bind rd_u64 (\<lambda>regs.
     rd_bind rd_u64 (\<lambda>ndom. rd_check (unat ndom \<le> max_count)
     (rd_bind (rd_many (unat ndom) decode_domain) (\<lambda>domains.
     rd_bind rd_u64 (\<lambda>max_len. rd_bind rd_u64 (\<lambda>alignment.
     rd_bind rd_u8 (\<lambda>v0. rd_bind rd_u8 (\<lambda>v1. rd_bind rd_u8 (\<lambda>v2. rd_bind rd_u8 (\<lambda>v3.
     rd_bind rd_u8 (\<lambda>v4. rd_bind rd_u8 (\<lambda>v5. rd_bind rd_u8 (\<lambda>v6. rd_bind rd_u8 (\<lambda>v7.
     rd_bind rd_u8 (\<lambda>v8. rd_bind rd_u8 (\<lambda>v9. rd_bind rd_u8 (\<lambda>v10. rd_bind rd_u8 (\<lambda>v11.
     rd_bind rd_u8 (\<lambda>v12. rd_bind rd_u8 (\<lambda>cp.
     rd_return
       \<lparr>bi_id = StrongId i, bi_name = name, bi_description = description,
        bi_provenance = provenance,
        bi_capabilities =
          \<lparr>bc_supported_domains = domains, bc_max_registration_length = max_len,
           bc_required_alignment = alignment, bc_remote_read = cap8 v0, bc_remote_write = cap8 v1,
           bc_remote_atomic = cap8 v2, bc_host_pinned = cap8 v3,
           bc_pageable_registration = cap8 v4, bc_cuda_device = cap8 v5,
           bc_cuda_managed = cap8 v6, bc_on_demand_paging = cap8 v7, bc_one_sided = cap8 v8,
           bc_multiprocess = cap8 v9, bc_multinode = cap8 v10, bc_key_rotation = cap8 v11,
           bc_revocation = cap8 v12, bc_provenance = prov8 cp\<rparr>,
        bi_state = state, bi_generation = StrongGeneration gen,
        bi_prot_domain_count = doms, bi_registration_count = regs\<rparr>)))))))))))))))))))))))))))))"

definition backend_info_fits :: "BackendInfo \<Rightarrow> bool" where
  "backend_info_fits b \<longleftrightarrow> length (bi_name b) \<le> 256 \<and> length (bi_description b) \<le> 1024 \<and>
     length (bc_supported_domains (bi_capabilities b)) \<le> max_count"

lemma cap8_code [simp]: "cap8 (capability_state_code s) = s"
  by (simp add: cap8_def capability_state_enum.of_code_code)

lemma prov8_code [simp]: "prov8 (provenance_code p) = p"
  by (simp add: prov8_def provenance_enum.of_code_code)

interpretation domain_codec: codec "\<lambda>d. put_u8 (memory_domain_code d)" decode_domain "\<lambda>_. True" "\<lambda>d. d"
  by unfold_locales
    (unfold decode_domain_def, (rule reads_rules of_codes refl)+,
     intro bounded_rules)

lemma count_unat: "length xs \<le> max_count \<Longrightarrow> unat (of_nat (length xs) :: u64) = length xs"
  by (simp add: max_count_def unat_of_nat take_bit_nat_eq_self)

lemma reads_backend_info:
  assumes "backend_info_fits b"
  shows "reads decode_backend_info (encode_backend_info b) b"
proof -
  from assms have fits: "length (bi_name b) \<le> 256" "(256 :: nat) < 2 ^ 64"
    "length (bi_description b) \<le> 1024" "(1024 :: nat) < 2 ^ 64"
    "length (bc_supported_domains (bi_capabilities b)) \<le> max_count"
    by (simp_all add: backend_info_fits_def)
  let ?n = "of_nat (length (bc_supported_domains (bi_capabilities b))) :: u64"
  have n: "unat ?n = length (bc_supported_domains (bi_capabilities b))" by (rule count_unat [OF fits(5)])
  then have small: "unat ?n \<le> max_count" using fits(5) by simp
  have "reads (rd_many (unat ?n) decode_domain)
      (concat (map (\<lambda>d. put_u8 (memory_domain_code d)) (bc_supported_domains (bi_capabilities b))))
      (bc_supported_domains (bi_capabilities b))"
    by (rule domain_codec.reads_list) (simp_all add: n list_all_iff)
  note domains = this
  show ?thesis
    unfolding decode_backend_info_def encode_backend_info_def Let_def
    by ((rule reads_rules(1-4) reads_u8 reads_u64 reads_str [OF fits(1,2)] reads_str [OF fits(3,4)]
          of_codes domains small reads_return)+, simp)
qed

interpretation backend_info_codec:
  codec encode_backend_info decode_backend_info backend_info_fits "\<lambda>b. b"
  by unfold_locales
    (rule reads_backend_info, assumption, unfold decode_backend_info_def,
     intro bounded_rules domain_codec.bounded_many)

definition encode_accounting :: "Accounting \<Rightarrow> u8 list" where
  "encode_accounting a =
     put_u64 (a_logical_buffers a) @ put_u64 (a_live_buffer_bytes a) @ put_u64 (a_pinned_bytes a) @
     put_u64 (a_registered_bytes a) @ put_u64 (a_active_registrations a) @
     put_u64 (a_active_leases a) @ put_u64 (a_protection_domains a) @ put_u64 (a_local_keys a) @
     put_u64 (a_remote_keys a) @ put_u64 (a_remote_read_bytes a) @
     put_u64 (a_remote_write_bytes a) @ put_u64 (a_atomic_operations a) @
     put_u64 (a_failed_access_attempts a) @ put_u64 (a_stale_access_rejections a) @
     put_u64 (a_revocations a) @ put_u64 (a_deregistrations a) @
     put_u64 (a_registration_reuse_hits a) @ put_u64 (a_registration_misses a) @
     put_u64 (a_participant_restarts a)"

definition decode_accounting :: "Accounting decoder" where
  "decode_accounting =
     rd_bind rd_u64 (\<lambda>c0. rd_bind rd_u64 (\<lambda>c1. rd_bind rd_u64 (\<lambda>c2. rd_bind rd_u64 (\<lambda>c3.
     rd_bind rd_u64 (\<lambda>c4. rd_bind rd_u64 (\<lambda>c5. rd_bind rd_u64 (\<lambda>c6. rd_bind rd_u64 (\<lambda>c7.
     rd_bind rd_u64 (\<lambda>c8. rd_bind rd_u64 (\<lambda>c9. rd_bind rd_u64 (\<lambda>c10. rd_bind rd_u64 (\<lambda>c11.
     rd_bind rd_u64 (\<lambda>c12. rd_bind rd_u64 (\<lambda>c13. rd_bind rd_u64 (\<lambda>c14. rd_bind rd_u64 (\<lambda>c15.
     rd_bind rd_u64 (\<lambda>c16. rd_bind rd_u64 (\<lambda>c17. rd_bind rd_u64 (\<lambda>c18.
     rd_return
       \<lparr>a_logical_buffers = c0, a_live_buffer_bytes = c1, a_pinned_bytes = c2,
        a_registered_bytes = c3, a_active_registrations = c4, a_active_leases = c5,
        a_protection_domains = c6, a_local_keys = c7, a_remote_keys = c8,
        a_remote_read_bytes = c9, a_remote_write_bytes = c10, a_atomic_operations = c11,
        a_failed_access_attempts = c12, a_stale_access_rejections = c13, a_revocations = c14,
        a_deregistrations = c15, a_registration_reuse_hits = c16, a_registration_misses = c17,
        a_participant_restarts = c18\<rparr>)))))))))))))))))))"

interpretation accounting_codec: codec encode_accounting decode_accounting "\<lambda>_. True" "\<lambda>a. a"
  by unfold_locales
    (unfold encode_accounting_def decode_accounting_def, (rule reads_rules)+, simp,
     intro bounded_rules)

definition encode_authority :: "AuthoritySnapshot \<Rightarrow> u8 list" where
  "encode_authority s =
     put_u64 (gen_value (as_coordinator_epoch s)) @ put_u64 (id_value (as_worker_boot s)) @
     put_u64 (id_value (as_worker s)) @ put_u64 (id_value (as_owner s)) @
     put_u64 (gen_value (as_owner_generation s)) @ put_u64 (gen_value (as_worker_generation s)) @
     put_u64 (gen_value (as_policy_generation s)) @ put_u64 (gen_value (as_backend_generation s)) @
     put_u64 (gen_value (as_transport_generation s)) @ put_u64 (gen_value (as_nic_generation s)) @
     put_u64 (id_value (as_node s)) @ put_u64 (id_value (as_process s)) @
     put_u8 (provenance_code (as_provenance s))"

text \<open>The byte of the provenance is read and dropped: \<open>s\<close> keeps the provenance it had.\<close>

definition decode_authority :: "AuthoritySnapshot \<Rightarrow> AuthoritySnapshot decoder" where
  "decode_authority s =
     rd_bind rd_u64 (\<lambda>epoch. rd_bind rd_u64 (\<lambda>boot. rd_bind rd_u64 (\<lambda>worker.
     rd_bind rd_u64 (\<lambda>owner. rd_bind rd_u64 (\<lambda>owner_gen. rd_bind rd_u64 (\<lambda>worker_gen.
     rd_bind rd_u64 (\<lambda>policy. rd_bind rd_u64 (\<lambda>backend_gen. rd_bind rd_u64 (\<lambda>transport_gen.
     rd_bind rd_u64 (\<lambda>nic_gen. rd_bind rd_u64 (\<lambda>node. rd_bind rd_u64 (\<lambda>process.
     rd_bind rd_u8 (\<lambda>pv.
     rd_return
       (s\<lparr>as_coordinator_epoch := StrongGeneration epoch, as_worker_boot := StrongId boot,
         as_worker := StrongId worker, as_owner := StrongId owner,
         as_owner_generation := StrongGeneration owner_gen,
         as_worker_generation := StrongGeneration worker_gen,
         as_policy_generation := StrongGeneration policy,
         as_backend_generation := StrongGeneration backend_gen,
         as_transport_generation := StrongGeneration transport_gen,
         as_nic_generation := StrongGeneration nic_gen, as_node := StrongId node,
         as_process := StrongId process\<rparr>))))))))))))))"

lemma reads_authority:
  "reads (decode_authority s0) (encode_authority s) (s\<lparr>as_provenance := as_provenance s0\<rparr>)"
  unfolding decode_authority_def encode_authority_def by ((rule reads_rules)+, simp)

interpretation authority_codec:
  codec encode_authority "decode_authority s0" "\<lambda>_. True" "\<lambda>s. s\<lparr>as_provenance := as_provenance s0\<rparr>"
  for s0
  by unfold_locales (rule reads_authority, unfold decode_authority_def, intro bounded_rules)

section \<open>Whole states\<close>

definition put_count :: "'a list \<Rightarrow> u8 list" where
  "put_count xs = put_u64 (of_nat (length xs))"

definition state_body :: "PersistableState \<Rightarrow> u8 list" where
  "state_body s =
     put_u32 format_magic @ put_u32 format_version @
     put_u64 (gen_value (ps_policy_generation s)) @
     encode_authority (ps_authority_snapshot s) @
     put_count (ps_buffers s) @ concat (map encode_descriptor (ps_buffers s)) @
     put_count (ps_registrations s) @ concat (map encode_registration (ps_registrations s)) @
     put_count (ps_domains s) @ concat (map (\<lambda>d. put_u64 (id_value d)) (ps_domains s)) @
     put_count (ps_remote_key_history s) @ concat (map encode_remote_key (ps_remote_key_history s)) @
     put_count (ps_local_key_history s) @ concat (map encode_local_key (ps_local_key_history s)) @
     put_count (ps_revocation_history s) @ concat (map put_str (ps_revocation_history s)) @
     encode_accounting (ps_accounting_summary s) @
     put_count (ps_backend_capability_snapshot s) @
     concat (map encode_backend_info (ps_backend_capability_snapshot s))"

definition serialize :: "PersistableState \<Rightarrow> u8 list" where
  "serialize s = (let body = state_body s in body @ put_u32 (crc32 body))"

text \<open>One step of \<open>parse\<close>: \<open>if (!read) { err = ...; return false; }\<close>.\<close>

definition parse_step :: "string \<Rightarrow> 'a decoder \<Rightarrow> ('a \<Rightarrow> Reader \<Rightarrow> string + 'b) \<Rightarrow> Reader \<Rightarrow> string + 'b" where
  "parse_step err m f r = (case m r of (None, _) \<Rightarrow> Inl err | (Some a, r') \<Rightarrow> f a r')"

text \<open>\<open>if (!r.u64(n) || n > max_count)\<close>, and the loop that reads \<open>n\<close> elements.\<close>

definition read_count :: "nat decoder" where
  "read_count = rd_bind rd_u64 (\<lambda>n. rd_check (unat n \<le> max_count) (rd_return (unat n)))"

definition parse_list :: "'a decoder \<Rightarrow> ('a list \<Rightarrow> Reader \<Rightarrow> string + 'b) \<Rightarrow> Reader \<Rightarrow> string + 'b" where
  "parse_list m f = parse_step ''IMPOSSIBLE_COUNT'' read_count (\<lambda>n.
     parse_step ''TRUNCATED'' (rd_many n m) f)"

text \<open>The integrity loops: \<open>bad\<close> is the generation check, \<open>seen\<close> the identities so far.\<close>

fun scan_ids :: "('a \<Rightarrow> bool) \<Rightarrow> ('a \<Rightarrow> u64) \<Rightarrow> u64 list \<Rightarrow> 'a list \<Rightarrow> string option" where
  "scan_ids bad key seen [] = None"
| "scan_ids bad key seen (x # xs) =
     (if bad x then Some ''GENERATION_REGRESSION''
      else if list_ex (\<lambda>v. v = key x) seen then Some ''DUPLICATE_IDENTITY''
      else scan_ids bad key (seen @ [key x]) xs)"

definition integrity_error :: "PersistableState \<Rightarrow> string option" where
  "integrity_error s =
     (case scan_ids (\<lambda>b. gen_value (bd_generation b) = 0) (\<lambda>b. id_value (bd_id b)) [] (ps_buffers s) of
        Some e \<Rightarrow> Some e
      | None \<Rightarrow>
     (case scan_ids (\<lambda>r. gen_value (r_registration_generation r) = 0) (\<lambda>r. id_value (r_id r)) []
             (ps_registrations s) of
        Some e \<Rightarrow> Some e
      | None \<Rightarrow> scan_ids (\<lambda>d. False) id_value [] (ps_domains s)))"

text \<open>The lists behind the buffers, and the end of the body.\<close>

definition parse_lists ::
    "PersistableState \<Rightarrow> u64 \<Rightarrow> AuthoritySnapshot \<Rightarrow> BufferDescriptor list \<Rightarrow> Reader \<Rightarrow>
     string + PersistableState" where
  "parse_lists s0 policy authority buffers =
     parse_list decode_registration (\<lambda>regs.
     parse_list (rd_bind rd_u64 (\<lambda>v. rd_return (StrongId v))) (\<lambda>domains.
     parse_list decode_remote_key (\<lambda>remote_keys.
     parse_list decode_local_key (\<lambda>local_keys.
     parse_list (rd_str max_count) (\<lambda>revocations.
     parse_step ''TRUNCATED'' decode_accounting (\<lambda>acct.
     parse_list decode_backend_info (\<lambda>infos r.
       if rd_remaining r \<noteq> 0 then Inl ''TRAILING_GARBAGE''
       else
         (let s = s0\<lparr>ps_policy_generation := StrongGeneration policy,
                     ps_authority_snapshot := authority, ps_buffers := buffers,
                     ps_registrations := regs, ps_domains := domains,
                     ps_remote_key_history := remote_keys, ps_local_key_history := local_keys,
                     ps_revocation_history := revocations, ps_accounting_summary := acct,
                     ps_backend_capability_snapshot := infos\<rparr>
          in case integrity_error s of Some e \<Rightarrow> Inl e | None \<Rightarrow> Inr s))))))))"

text \<open>The body behind the checksum, from the state \<open>s0\<close> that the caller passed in.\<close>

definition parse_body :: "PersistableState \<Rightarrow> Reader \<Rightarrow> string + PersistableState" where
  "parse_body s0 =
     parse_step ''TRUNCATED'' rd_u64 (\<lambda>policy.
     parse_step ''TRUNCATED'' (decode_authority (ps_authority_snapshot s0)) (\<lambda>authority.
     parse_step ''TRUNCATED'' rd_u64 (\<lambda>n r.
       if unat n > max_count then Inl ''IMPOSSIBLE_COUNT''
       else parse_step ''TRUNCATED'' (rd_many (unat n) decode_descriptor)
              (\<lambda>buffers. parse_lists s0 policy authority buffers) r)))"

definition parse :: "PersistableState \<Rightarrow> u8 list \<Rightarrow> string + PersistableState" where
  "parse s0 bytes =
     (if length bytes < 4 + 4 + 4 then Inl ''TRUNCATED''
      else
        (let body = take (length bytes - 4) bytes
         in parse_step ''TRUNCATED'' rd_u32 (\<lambda>magic.
            parse_step ''TRUNCATED'' rd_u32 (\<lambda>ver r.
              if magic \<noteq> format_magic then Inl ''BAD_MAGIC''
              else if ver \<noteq> format_version then Inl ''BAD_VERSION''
              else if crc32 body \<noteq> word_at 4 bytes (length bytes - 4) then Inl ''CHECKSUM_MISMATCH''
              else parse_body s0 r)) (new_reader body)))"

section \<open>The integrity loops\<close>

lemma scan_ids_None:
  "scan_ids bad key seen xs = None \<longleftrightarrow>
   (\<forall>x\<in>set xs. \<not> bad x) \<and> distinct (map key xs) \<and> key ` set xs \<inter> set seen = {}"
  by (induction bad key seen xs rule: scan_ids.induct) (auto simp: list_ex_iff)

text \<open>A state with nonzero generations and distinct identities.\<close>

definition sound_ids :: "PersistableState \<Rightarrow> bool" where
  "sound_ids s \<longleftrightarrow>
     (\<forall>b\<in>set (ps_buffers s). gen_valid (bd_generation b)) \<and> distinct (map bd_id (ps_buffers s)) \<and>
     (\<forall>r\<in>set (ps_registrations s). gen_valid (r_registration_generation r)) \<and>
     distinct (map r_id (ps_registrations s)) \<and> distinct (ps_domains s)"

lemma id_value_eq: "id_value a = id_value b \<longleftrightarrow> a = b"
  by (cases a; cases b) simp

lemma distinct_id_value: "distinct (map (\<lambda>x. id_value (f x)) xs) \<longleftrightarrow> distinct (map f xs)"
  by (induction xs) (auto simp: id_value_eq)

lemma integrity_error_None: "integrity_error s = None \<longleftrightarrow> sound_ids s"
proof -
  have "integrity_error s = None \<longleftrightarrow>
      scan_ids (\<lambda>b. gen_value (bd_generation b) = 0) (\<lambda>b. id_value (bd_id b)) [] (ps_buffers s) = None \<and>
      scan_ids (\<lambda>r. gen_value (r_registration_generation r) = 0) (\<lambda>r. id_value (r_id r)) []
        (ps_registrations s) = None \<and> scan_ids (\<lambda>d. False) id_value [] (ps_domains s) = None"
    by (simp add: integrity_error_def split: option.splits)
  then show ?thesis
    unfolding scan_ids_None using distinct_id_value [of "\<lambda>d. d" "ps_domains s"]
    by (simp add: sound_ids_def distinct_id_value gen_valid_def conj_assoc)
qed

section \<open>Reading back what was written\<close>

text \<open>With exactly \<open>bs\<close> unread, the parser answers \<open>x\<close>.\<close>

definition yields :: "(Reader \<Rightarrow> 'c) \<Rightarrow> u8 list \<Rightarrow> 'c \<Rightarrow> bool" where
  "yields p bs x \<longleftrightarrow> (\<forall>r. rest r = bs \<longrightarrow> p r = x)"

lemma yields_step: "reads m bs v \<Longrightarrow> yields (f v) post x \<Longrightarrow> yields (parse_step err m f) (bs @ post) x"
  by (simp add: yields_def parse_step_def readsD)

lemma yields_if: "\<not> c \<Longrightarrow> yields p bs x \<Longrightarrow> yields (\<lambda>r. if c then e else p r) bs x"
  by (simp add: yields_def)

lemma reads_read_count: "length xs \<le> max_count \<Longrightarrow> reads read_count (put_count xs) (length xs)"
  unfolding read_count_def put_count_def
  by (rule reads_last [OF reads_u64]) (simp add: rd_check_def count_unat reads_return)

context codec
begin

lemma yields_list:
  assumes "length vs \<le> max_count" and "list_all fits vs" and "yields (f (map kept vs)) post x"
  shows "yields (parse_list dec f) (put_count vs @ concat (map enc vs) @ post) x"
  unfolding parse_list_def
  by (intro yields_step [OF reads_read_count] yields_step [OF reads_many] assms)

end

text \<open>Texts and domain identities as codecs.\<close>

interpretation text_codec: codec put_str "rd_str max_count" "\<lambda>s. length s \<le> max_count" "\<lambda>s. s"
  by unfold_locales (auto intro: reads_str simp: max_count_def)

interpretation domain_id_codec:
  codec "\<lambda>d :: ProtectionDomainId. put_u64 (id_value d)" "rd_bind rd_u64 (\<lambda>v. rd_return (StrongId v))"
    "\<lambda>_. True" "\<lambda>d. d"
  by unfold_locales ((rule reads_rules)+, simp, intro bounded_rules)

text \<open>The states that the format can hold, and what a reader starting from \<open>s0\<close> gets of them.\<close>

definition state_fits :: "PersistableState \<Rightarrow> bool" where
  "state_fits s \<longleftrightarrow>
     length (ps_buffers s) \<le> max_count \<and> length (ps_registrations s) \<le> max_count \<and>
     length (ps_domains s) \<le> max_count \<and> length (ps_remote_key_history s) \<le> max_count \<and>
     length (ps_local_key_history s) \<le> max_count \<and> length (ps_revocation_history s) \<le> max_count \<and>
     length (ps_backend_capability_snapshot s) \<le> max_count \<and>
     list_all registration_fits (ps_registrations s) \<and>
     list_all (\<lambda>t. length t \<le> max_count) (ps_revocation_history s) \<and>
     list_all backend_info_fits (ps_backend_capability_snapshot s)"

definition state_kept :: "PersistableState \<Rightarrow> PersistableState \<Rightarrow> PersistableState" where
  "state_kept s0 s =
     s\<lparr>ps_format_version := ps_format_version s0,
       ps_registrations := map without_policy (ps_registrations s),
       ps_authority_snapshot := (ps_authority_snapshot s)
         \<lparr>as_provenance := as_provenance (ps_authority_snapshot s0)\<rparr>\<rparr>"

lemma state_kept_read:
  "s0\<lparr>ps_policy_generation := ps_policy_generation s,
      ps_authority_snapshot := (ps_authority_snapshot s)
        \<lparr>as_provenance := as_provenance (ps_authority_snapshot s0)\<rparr>,
      ps_buffers := ps_buffers s, ps_registrations := map without_policy (ps_registrations s),
      ps_domains := ps_domains s, ps_remote_key_history := ps_remote_key_history s,
      ps_local_key_history := ps_local_key_history s,
      ps_revocation_history := ps_revocation_history s,
      ps_accounting_summary := ps_accounting_summary s,
      ps_backend_capability_snapshot := ps_backend_capability_snapshot s\<rparr> = state_kept s0 s"
  by (rule PersistableState.equality) (simp_all add: state_kept_def)

lemma scan_ids_map: "scan_ids bad key seen (map f xs) = scan_ids (bad \<circ> f) (key \<circ> f) seen xs"
  by (induction xs arbitrary: seen) simp_all

lemma integrity_error_kept: "integrity_error (state_kept s0 s) = integrity_error s"
  by (simp add: integrity_error_def state_kept_def scan_ids_map comp_def without_policy_def
      split: option.split)

text \<open>What parsing a well-formed encoding comes to: the state, or the integrity error it has.\<close>

definition parse_verdict :: "PersistableState \<Rightarrow> PersistableState \<Rightarrow> string + PersistableState" where
  "parse_verdict s0 s =
     (case integrity_error s of None \<Rightarrow> Inr (state_kept s0 s) | Some e \<Rightarrow> Inl e)"

lemma yields_parse_body:
  assumes fits: "state_fits s"
  shows "yields (parse_body s0)
     (put_u64 (gen_value (ps_policy_generation s)) @
     encode_authority (ps_authority_snapshot s) @
     put_count (ps_buffers s) @ concat (map encode_descriptor (ps_buffers s)) @
     put_count (ps_registrations s) @ concat (map encode_registration (ps_registrations s)) @
     put_count (ps_domains s) @ concat (map (\<lambda>d. put_u64 (id_value d)) (ps_domains s)) @
     put_count (ps_remote_key_history s) @ concat (map encode_remote_key (ps_remote_key_history s)) @
     put_count (ps_local_key_history s) @ concat (map encode_local_key (ps_local_key_history s)) @
     put_count (ps_revocation_history s) @ concat (map put_str (ps_revocation_history s)) @
     encode_accounting (ps_accounting_summary s) @
     put_count (ps_backend_capability_snapshot s) @
     concat (map encode_backend_info (ps_backend_capability_snapshot s)) @ [])
     (parse_verdict s0 s)"
proof -
  have n: "unat (of_nat (length (ps_buffers s)) :: u64) = length (ps_buffers s)"
    using fits by (intro count_unat) (simp add: state_fits_def)
  have all: "list_all (\<lambda>_. True) xs" for xs :: "'x list" by (simp add: list_all_iff)
  from fits have c: "length (ps_buffers s) \<le> max_count" "length (ps_registrations s) \<le> max_count"
    "length (ps_domains s) \<le> max_count" "length (ps_remote_key_history s) \<le> max_count"
    "length (ps_local_key_history s) \<le> max_count" "length (ps_revocation_history s) \<le> max_count"
    "length (ps_backend_capability_snapshot s) \<le> max_count"
    and e: "list_all registration_fits (ps_registrations s)"
    "list_all (\<lambda>t. length t \<le> max_count) (ps_revocation_history s)"
    "list_all backend_info_fits (ps_backend_capability_snapshot s)"
    by (simp_all add: state_fits_def)
  show ?thesis
    unfolding parse_body_def parse_lists_def put_count_def [of "ps_buffers s"]
    by (rule yields_step [OF reads_u64] yields_step [OF reads_authority] yields_if
        yields_step [OF persisted_descriptor.reads_list [OF n refl all]]
        registration_codec.yields_list [OF c(2) e(1)] domain_id_codec.yields_list [OF c(3) all]
        remote_key_codec.yields_list [OF c(4) all] local_key_codec.yields_list [OF c(5) all]
        text_codec.yields_list [OF c(6) e(2)] yields_step [OF accounting_codec.reads_enc [OF TrueI]]
        backend_info_codec.yields_list [OF c(7) e(3)] | simp add: n c(1) not_less)+
      (simp add: yields_def rd_remaining_rest state_kept_read integrity_error_kept parse_verdict_def Let_def)
qed

lemma length_state_body: "8 < length (state_body s)"
  by (simp add: state_body_def put_count_def)

lemma serialize_block: "block_ok (serialize s)"
  using length_state_body [of s] by (auto simp: serialize_def block_ok_def Let_def)

lemma parse_encoded:
  assumes "state_fits s"
  shows "parse s0 (serialize s) = parse_verdict s0 s"
proof -
  let ?b = "state_body s"
  have body: "take (length (serialize s) - 4) (serialize s) = ?b"
    and trailer: "take 4 (drop (length ?b) (serialize s)) = put_u32 (crc32 ?b)"
    and len: "length (serialize s) = length ?b + 4" and front: "take (length ?b) (serialize s) = ?b"
    by (simp_all add: serialize_def Let_def)
  obtain bs where b: "?b = put_u32 format_magic @ put_u32 format_version @ bs" and bs: "yields (parse_body s0) bs (parse_verdict s0 s)"
    using yields_parse_body [OF assms, of s0] by (simp add: state_body_def)
  have "rest (new_reader ?b) = put_u32 format_magic @ put_u32 format_version @ bs"
    by (simp add: rest_def new_reader_def b)
  from readsD [OF reads_u32 this] have magic: "rd_u32 (new_reader ?b) = (Some format_magic, advance 4 (new_reader ?b))"
    by simp
  have at: "rest (advance 4 (new_reader ?b)) = put_u32 format_version @ bs"
    by (simp add: rest_def new_reader_def advance_def b)
  from readsD [OF reads_u32 this] have version:
    "rd_u32 (advance 4 (new_reader ?b)) = (Some format_version, advance 8 (new_reader ?b))"
    by simp
  have "rest (advance 8 (new_reader ?b)) = bs"
    by (simp add: rest_def new_reader_def advance_def b)
  with bs have "parse_body s0 (advance 8 (new_reader ?b)) = parse_verdict s0 s"
    by (simp add: yields_def)
  moreover have "word_at 4 (serialize s) (length ?b) = crc32 ?b"
    by (rule word_at_put_u32 [OF trailer])
  ultimately show ?thesis
    using length_state_body [of s]
    by (simp add: parse_def body parse_step_def magic version len front Let_def)
qed

section \<open>What the parser accepts\<close>

lemma parse_step_Inr:
  "parse_step err m f r = Inr x \<longleftrightarrow> (\<exists>a r'. m r = (Some a, r') \<and> f a r' = Inr x)"
  by (auto simp: parse_step_def split: prod.splits option.splits)

lemma parse_block:
  assumes "parse s0 bytes = Inr s"
  shows "block_ok bytes"
proof -
  from assms have "12 \<le> length bytes"
    "crc32 (take (length bytes - 4) bytes) = word_at 4 bytes (length bytes - 4)"
    by (auto simp: parse_def Let_def parse_step_Inr split: if_splits)
  then show ?thesis
    using put_u32_at [of "length bytes - 4" bytes] by (simp add: block_ok_def)
qed

lemma rd_many_length: "rd_many n m r = (Some vs, r') \<Longrightarrow> length vs = n"
  by (induction n arbitrary: r vs) (auto simp: rd_return_def rd_bind_def split: prod.splits option.splits)

lemma if_Inr: "(if c then Inl e else x) = Inr y \<longleftrightarrow> \<not> c \<and> x = Inr y"
  by simp

lemma read_count_bound: "read_count r = (Some n, r') \<Longrightarrow> n \<le> max_count"
  by (auto simp: read_count_def rd_bind_def rd_check_def rd_return_def rd_stop_def
      split: prod.splits option.splits if_splits)

lemma parse_list_Inr:
  assumes "parse_list m f r = Inr x"
  shows "\<exists>vs r'. length vs \<le> max_count \<and> f vs r' = Inr x"
  using assms read_count_bound rd_many_length unfolding parse_list_def parse_step_Inr by metis

text \<open>The number of elements of every list of a state is within the bound.\<close>

definition counts_bounded :: "PersistableState \<Rightarrow> bool" where
  "counts_bounded s \<longleftrightarrow>
     length (ps_buffers s) \<le> max_count \<and> length (ps_registrations s) \<le> max_count \<and>
     length (ps_domains s) \<le> max_count \<and> length (ps_remote_key_history s) \<le> max_count \<and>
     length (ps_local_key_history s) \<le> max_count \<and> length (ps_revocation_history s) \<le> max_count \<and>
     length (ps_backend_capability_snapshot s) \<le> max_count"

lemma parse_body_Inr:
  assumes "parse_body s0 r = Inr s"
  shows "sound_ids s \<and> counts_bounded s"
proof -
  from assms obtain policy authority buffers r' where "length buffers \<le> max_count"
    and "parse_lists s0 policy authority buffers r' = Inr s"
    unfolding parse_body_def parse_step_Inr if_Inr using rd_many_length by (metis not_less)
  then show ?thesis
    unfolding parse_lists_def
    by (auto dest!: parse_list_Inr simp: parse_step_Inr Let_def counts_bounded_def
        integrity_error_None split: if_splits option.splits)
qed

lemma parse_Inr: "parse s0 bytes = Inr s \<Longrightarrow> sound_ids s \<and> counts_bounded s"
  by (auto simp: parse_def Let_def parse_step_Inr split: if_splits dest: parse_body_Inr)

section \<open>The semantic digest\<close>

definition fnv1a :: "string \<Rightarrow> u64" where
  "fnv1a s = fold (\<lambda>c h. (h XOR ucast (byte_of_char c)) * 0x100000001B3) s 0xCBF29CE484222325"

text \<open>The texts that \<open>semantic_digest\<close> streams, and the loops that stream one per element.\<close>

definition digest_buffer :: "BufferDescriptor \<Rightarrow> string" where
  "digest_buffer b =
     msg ''buf'' @ int_to_str (id_value (bd_id b)) @ msg '':'' @
     int_to_str (gen_value (bd_generation b)) @ msg '':'' @ int_to_str (bd_byte_length b) @ msg '':'' @
     int_to_str (ucast (memory_domain_code (bd_domain b))) @ msg '';''"

definition digest_registration :: "RegistrationRecord \<Rightarrow> string" where
  "digest_registration r =
     msg ''reg'' @ int_to_str (id_value (r_id r)) @ msg '':'' @
     int_to_str (id_value (r_buffer_id r)) @ msg '':'' @
     int_to_str (gen_value (r_buffer_generation r)) @ msg '':'' @
     int_to_str (gen_value (r_registration_generation r)) @ msg '':'' @
     int_to_str (r_start r) @ msg '':'' @ int_to_str (r_length r) @ msg '';''"

definition digest_remote_key :: "RemoteKey \<Rightarrow> string" where
  "digest_remote_key k =
     msg ''rk'' @ int_to_str (id_value (rk_id k)) @ msg '':'' @
     int_to_str (id_value (rk_registration k)) @ msg '':'' @
     int_to_str (gen_value (rk_key_generation k)) @ msg '':'' @
     (if rk_revoked k then msg ''1'' else msg ''0'') @ msg '';''"

definition digest_text :: "PersistableState \<Rightarrow> string" where
  "digest_text s =
     msg ''v'' @ int_to_str (ucast (ps_format_version s)) @ msg '':'' @
     msg ''pc'' @ int_to_str (gen_value (ps_policy_generation s)) @ msg '';'' @
     msg ''a'' @ int_to_str (gen_value (as_coordinator_epoch (ps_authority_snapshot s))) @
     msg '','' @ int_to_str (id_value (as_worker_boot (ps_authority_snapshot s))) @
     msg '','' @ int_to_str (gen_value (as_backend_generation (ps_authority_snapshot s))) @ msg '';'' @
     concat (map digest_buffer (ps_buffers s)) @
     concat (map digest_registration (ps_registrations s)) @
     concat (map (\<lambda>d. msg ''dom'' @ int_to_str (id_value d) @ msg '';'') (ps_domains s)) @
     concat (map digest_remote_key (ps_remote_key_history s)) @
     concat (map (\<lambda>t. msg ''rv'' @ t @ msg '';'') (ps_revocation_history s))"

definition semantic_digest :: "PersistableState \<Rightarrow> string" where
  "semantic_digest s = to_hex (fnv1a (digest_text s))"

lemma digest_kept:
  "ps_format_version s0 = ps_format_version s \<Longrightarrow> semantic_digest (state_kept s0 s) = semantic_digest s"
proof -
  assume v: "ps_format_version s0 = ps_format_version s"
  have "digest_registration \<circ> without_policy = digest_registration"
    by (rule ext) (simp add: digest_registration_def without_policy_def)
  with v show ?thesis by (simp add: semantic_digest_def digest_text_def state_kept_def)
qed

section \<open>Properties\<close>

lemma scan_ids_code:
  "scan_ids bad key seen xs = Some e \<Longrightarrow> e = ''GENERATION_REGRESSION'' \<or> e = ''DUPLICATE_IDENTITY''"
  by (induction bad key seen xs rule: scan_ids.induct) (auto split: if_splits)

lemma integrity_error_code:
  "integrity_error s = Some e \<Longrightarrow> e = ''GENERATION_REGRESSION'' \<or> e = ''DUPLICATE_IDENTITY''"
  unfolding integrity_error_def by (simp split: option.splits) (metis scan_ids_code)+

text \<open>C18. A saved state is read back: \<open>parse\<close> of \<open>serialize s\<close> returns the state \<open>s\<close>, apart from
  the three members the format does not carry over (the format version and the provenance of the
  authority stay as the caller had them, the policy generation of every registration becomes
  zero), when the identities of \<open>s\<close> are distinct and its generations are set; otherwise it
  reports which of the two is violated. The lists and texts of \<open>s\<close> must fit the bounds of the
  format.\<close>

theorem saved_state_roundtrip:
  assumes "state_fits s"
  shows "(sound_ids s \<longrightarrow> parse s0 (serialize s) =
      Inr (s\<lparr>ps_format_version := ps_format_version s0,
             ps_registrations := map (\<lambda>r. r\<lparr>r_policy_generation := no_gen\<rparr>) (ps_registrations s),
             ps_authority_snapshot := (ps_authority_snapshot s)
               \<lparr>as_provenance := as_provenance (ps_authority_snapshot s0)\<rparr>\<rparr>)) \<and>
    (\<not> sound_ids s \<longrightarrow> parse s0 (serialize s) = Inl ''GENERATION_REGRESSION'' \<or>
      parse s0 (serialize s) = Inl ''DUPLICATE_IDENTITY'')"
proof -
  have eq: "parse s0 (serialize s) = parse_verdict s0 s" by (rule parse_encoded [OF assms])
  have policy: "without_policy = (\<lambda>r. r\<lparr>r_policy_generation := no_gen\<rparr>)"
    by (rule ext) (simp add: without_policy_def)
  show ?thesis
  proof (cases "integrity_error s")
    case None
    then have "sound_ids s" by (simp add: integrity_error_None)
    with None show ?thesis unfolding eq parse_verdict_def by (simp add: state_kept_def policy)
  next
    case (Some e)
    then have "\<not> sound_ids s" by (simp flip: integrity_error_None)
    with integrity_error_code [OF Some] Some show ?thesis unfolding eq parse_verdict_def by auto
  qed
qed

text \<open>C19. The parser accepts nothing that violates the integrity rules: whatever bytes it is
  given, a state it returns has distinct buffer, registration and domain identities, no zero
  buffer or registration generation, and none of its seven lists is beyond the bound; and the
  bytes end in the checksum of what stands before it.\<close>

theorem parsed_state_is_sound:
  assumes "parse s0 bytes = Inr s"
  shows "distinct (map bd_id (ps_buffers s)) \<and> distinct (map r_id (ps_registrations s)) \<and>
    distinct (ps_domains s) \<and> (\<forall>b\<in>set (ps_buffers s). gen_valid (bd_generation b)) \<and>
    (\<forall>r\<in>set (ps_registrations s). gen_valid (r_registration_generation r)) \<and>
    length (ps_buffers s) \<le> max_count \<and> length (ps_registrations s) \<le> max_count \<and>
    length (ps_domains s) \<le> max_count \<and> length (ps_remote_key_history s) \<le> max_count \<and>
    length (ps_local_key_history s) \<le> max_count \<and> length (ps_revocation_history s) \<le> max_count \<and>
    length (ps_backend_capability_snapshot s) \<le> max_count \<and>
    drop (length bytes - 4) bytes = put_u32 (crc32 (take (length bytes - 4) bytes))"
  using parse_Inr [OF assms] parse_block [OF assms]
  by (simp add: sound_ids_def counts_bounded_def block_ok_def)

text \<open>C33. A damaged file is never accepted when the damage lies within four consecutive bytes,
  anywhere in the file: the parser returns an error code.\<close>

theorem damaged_file_rejected:
  assumes "serialize s = a @ u @ b" and "length v = length u" and "length u \<le> 4" and "u \<noteq> v"
  shows "\<exists>err. parse s0 (a @ v @ b) = Inl err"
proof (rule ccontr)
  assume "\<not> ?thesis"
  then obtain s' where "parse s0 (a @ v @ b) = Inr s'" by (metis sum.exhaust)
  then have "block_ok (a @ v @ b)" by (rule parse_block)
  with burst_detected [of a u b v] serialize_block [of s] assms show False by simp
qed

text \<open>The semantic digest survives saving and loading: a state read back from its own
  encoding has the digest of the state that was saved.\<close>

theorem digest_survives:
  assumes "state_fits s" and "ps_format_version s0 = ps_format_version s"
    and "parse s0 (serialize s) = Inr s'"
  shows "semantic_digest s' = semantic_digest s"
  using assms(3) digest_kept [OF assms(2)]
  by (simp add: parse_encoded [OF assms(1)] parse_verdict_def split: option.splits)

text \<open>C37. The decoders never leave the bytes they were given: whatever the bytes, and whether the
  decoder succeeds or fails, the reader keeps its bytes, its position never moves backwards and
  never passes the end. This holds of the decoder of every record of the format.\<close>

theorem decoders_stay_in_span:
  assumes "rd_pos r \<le> length (rd_data r)"
    and "r' \<in> {snd (decode_descriptor r), snd (decode_remote_key r), snd (decode_local_key r),
      snd (decode_registration r), snd (decode_backend_info r), snd (decode_accounting r),
      snd (decode_authority s r)}"
  shows "rd_data r' = rd_data r \<and> rd_pos r \<le> rd_pos r' \<and> rd_pos r' \<le> length (rd_data r)"
proof -
  have wf: "rd_wf r" using assms(1) by (simp add: rd_wf_def)
  have "rd_wf r' \<and> rd_data r' = rd_data r \<and> rd_pos r \<le> rd_pos r'"
    using assms(2)
      boundedD [OF persisted_descriptor.dec_bounded wf surjective_pairing]
      boundedD [OF remote_key_codec.dec_bounded wf surjective_pairing]
      boundedD [OF local_key_codec.dec_bounded wf surjective_pairing]
      boundedD [OF registration_codec.dec_bounded wf surjective_pairing]
      boundedD [OF backend_info_codec.dec_bounded wf surjective_pairing]
      boundedD [OF accounting_codec.dec_bounded wf surjective_pairing]
      boundedD [OF authority_codec.dec_bounded wf surjective_pairing]
    by (elim insertE emptyE) (simp_all only:)
  then show ?thesis by (auto simp: rd_wf_def)
qed

section \<open>Witnesses\<close>

text \<open>A state with one buffer and one domain.\<close>

definition small_state :: PersistableState where
  "small_state = default_persistable\<lparr>ps_buffers := [page_buffer], ps_domains := [StrongId 1]\<rparr>"

lemma small_state_fits: "state_fits small_state"
  by (simp add: small_state_def default_persistable_def state_fits_def max_count_def)

lemma small_state_sound: "sound_ids small_state"
  by (simp add: small_state_def default_persistable_def sound_ids_def page_buffer_def gen_valid_def)

theorem saved_state_roundtrip_witness: "parse small_state (serialize small_state) = Inr small_state"
  using saved_state_roundtrip [OF small_state_fits, of small_state] small_state_sound
  by (simp add: small_state_def default_persistable_def default_snapshot_def)

lemma small_state_parsed: "\<exists>s'. parse small_state (serialize small_state) = Inr s'"
  using small_state_sound
  by (simp add: parse_encoded [OF small_state_fits] parse_verdict_def flip: integrity_error_None)

theorem parsed_state_is_sound_witness:
  "drop (length (serialize small_state) - 4) (serialize small_state) =
     put_u32 (crc32 (take (length (serialize small_state) - 4) (serialize small_state)))"
proof -
  from small_state_parsed obtain s' where "parse small_state (serialize small_state) = Inr s'" ..
  from parsed_state_is_sound [OF this] show ?thesis by simp
qed

lemma put_u32_differ: "put_u32 format_magic \<noteq> put_u32 0"
  using put_u32_inj [of format_magic 0] by (auto simp: format_magic_def)

theorem damaged_file_rejected_witness:
  "\<exists>err. parse small_state (put_u32 0 @ drop 4 (serialize small_state)) = Inl err"
proof -
  have "serialize small_state = [] @ put_u32 format_magic @ drop 4 (serialize small_state)"
    by (simp add: serialize_def state_body_def Let_def)
  from damaged_file_rejected [OF this, of "put_u32 0" small_state]
  show ?thesis by (simp add: put_u32_differ)
qed

theorem digest_survives_witness:
  "\<exists>s'. parse small_state (serialize small_state) = Inr s' \<and> semantic_digest s' = semantic_digest small_state"
proof -
  from small_state_parsed obtain s' where p: "parse small_state (serialize small_state) = Inr s'" ..
  from digest_survives [OF small_state_fits refl p] p show ?thesis by blast
qed

theorem decoders_stay_in_span_witness:
  "rd_pos (snd (decode_registration (new_reader [1, 2, 3]))) \<le> 3"
  using decoders_stay_in_span [of "new_reader [1, 2, 3]" "snd (decode_registration (new_reader [1, 2, 3]))"]
  by (simp add: new_reader_def)

end
