(* ===== verification/Recovery.thy ===== *)
theory Recovery
  imports Persistence LeaseAccounting
begin

text \<open>
  Saving the registry to a file and recovering from one: \<open>Impl::save\<close> and \<open>Impl::recover\<close> of
  \<open>src/registry.cpp\<close>. The files are a map from paths to contents. What the operating system
  answers to the four calls of \<open>save\<close> (open, write, \<open>std::remove\<close>, \<open>std::rename\<close>) is an
  argument, so every theorem holds for every outcome; \<open>recover\<close> takes the contents of the file,
  \<open>None\<close> when it cannot be opened.
\<close>

section \<open>What is saved\<close>

text \<open>The registration without its live handles; the key histories are copied as they are.\<close>

definition logical_registration :: "RegistrationRecord \<Rightarrow> RegistrationRecord" where
  "logical_registration r =
     r\<lparr>r_backend_handle := '''', r_memory_region_id := no_id,
       r_local_key := (r_local_key r)\<lparr>lk_opaque_value := 0\<rparr>,
       r_remote_key := (r_remote_key r)\<lparr>rk_opaque_value := 0\<rparr>,
       r_lifecycle := RL_REVALIDATION_REQUIRED, r_freshness := FR_REVALIDATION_REQUIRED\<rparr>"

text \<open>\<open>backend_summaries_unlocked\<close> leaves the description and the two counts at their defaults.\<close>

definition backend_summaries_unlocked :: "Impl \<Rightarrow> BackendInfo list" where
  "backend_summaries_unlocked im =
     map (\<lambda>(i, b). \<lparr>bi_id = i, bi_name = be_name b, bi_description = '''',
                    bi_provenance = be_provenance b, bi_capabilities = be_capabilities b,
                    bi_state = be_state b, bi_generation = be_generation b,
                    bi_prot_domain_count = 0, bi_registration_count = 0\<rparr>)
         (im_backends im)"

definition persistable_state :: "Impl \<Rightarrow> PersistableState" where
  "persistable_state im =
     default_persistable
       \<lparr>ps_buffers := map (\<lambda>(i, e). bu_descriptor e) (im_buffers im),
        ps_registrations := map (\<lambda>(i, r). logical_registration r) (im_registrations im),
        ps_domains := map (\<lambda>(i, e). StrongId (id_value i)) (im_domains im),
        ps_remote_key_history := map (\<lambda>(i, r). r_remote_key r) (im_registrations im),
        ps_local_key_history := map (\<lambda>(i, r). r_local_key r) (im_registrations im),
        ps_revocation_history :=
          filter (\<lambda>t. t \<noteq> '''') (map (\<lambda>(i, r). r_invalidation_reason r) (im_registrations im)),
        ps_accounting_summary := im_acct im,
        ps_backend_capability_snapshot := backend_summaries_unlocked im,
        ps_authority_snapshot := im_authority im,
        ps_policy_generation := as_policy_generation (im_authority im)\<rparr>"

section \<open>Writing the file\<close>

type_synonym files = "string \<Rightarrow> u8 list option"

text \<open>\<open>fo_short_write\<close> is the number of bytes that reached the file when the write fails.\<close>

record FileOutcome =
  fo_opens :: bool
  fo_short_write :: "nat option"
  fo_removes :: bool
  fo_renames :: bool

definition write_file :: "string \<Rightarrow> u8 list \<Rightarrow> FileOutcome \<Rightarrow> files \<Rightarrow> (bool \<times> string) \<times> files" where
  "write_file path blob os fs =
     (let tmp = path @ ''.tmp''
      in if \<not> fo_opens os then ((False, ''IO_ERROR_OPEN''), fs)
      else case fo_short_write os of
        Some n \<Rightarrow> ((False, ''IO_ERROR_WRITE''), fs(tmp \<mapsto> take n blob))
      | None \<Rightarrow>
          (let fs1 = fs(tmp \<mapsto> blob);
               fs2 = (if fo_removes os then fs1(path := None) else fs1)
           in if \<not> fo_renames os then ((False, ''IO_ERROR_WRITE''), fs2)
              else ((True, ''''), fs2(tmp := None, path := fs2 tmp))))"

definition save :: "string \<Rightarrow> FileOutcome \<Rightarrow> Impl \<Rightarrow> files \<Rightarrow> (bool \<times> string) \<times> files" where
  "save path os im fs = write_file path (serialize (persistable_state im)) os fs"

section \<open>Recovering\<close>

record RecoveryReport =
  rp_recovered_buffers :: u64
  rp_recovered_registrations :: u64
  rp_recovered_domains :: u64
  rp_auto_deregistered :: u64
  rp_persistence_ok :: bool
  rp_persistence_error :: string
  rp_semantic_digest :: string

definition default_report :: RecoveryReport where
  "default_report =
     \<lparr>rp_recovered_buffers = 0, rp_recovered_registrations = 0, rp_recovered_domains = 0,
      rp_auto_deregistered = 0, rp_persistence_ok = False, rp_persistence_error = '''',
      rp_semantic_digest = ''''\<rparr>"

text \<open>The bodies of the three loops.\<close>

definition recover_buffer :: "BufferDescriptor \<Rightarrow> Impl \<times> RecoveryReport \<Rightarrow> Impl \<times> RecoveryReport" where
  "recover_buffer b x =
     (case x of (im, rp) \<Rightarrow>
        if map_of (im_buffers im) (bd_id b) \<noteq> None then (im, rp)
        else (im\<lparr>im_buffers := AList.update (bd_id b)
                   \<lparr>bu_descriptor = b, bu_registered = False\<rparr> (im_buffers im),
                 im_acct := (im_acct im)
                   \<lparr>a_logical_buffers := increment 1 (a_logical_buffers (im_acct im)),
                    a_live_buffer_bytes :=
                      increment (bd_byte_length b) (a_live_buffer_bytes (im_acct im))\<rparr>\<rparr>,
              rp\<lparr>rp_recovered_buffers := rp_recovered_buffers rp + 1\<rparr>))"

definition recover_domain :: "ProtectionDomainId \<Rightarrow> Impl \<times> RecoveryReport \<Rightarrow> Impl \<times> RecoveryReport" where
  "recover_domain d x =
     (case x of (im, rp) \<Rightarrow>
        if map_of (im_domains im) d \<noteq> None then (im, rp)
        else (im\<lparr>im_domains := AList.update d
                   \<lparr>de_domain = MD_UNKNOWN, de_state = DS_ACTIVE, de_generation = StrongGeneration 1,
                    de_node = no_id, de_process = no_id\<rparr> (im_domains im),
                 im_acct := (im_acct im)
                   \<lparr>a_protection_domains := increment 1 (a_protection_domains (im_acct im))\<rparr>\<rparr>,
              rp\<lparr>rp_recovered_domains := rp_recovered_domains rp + 1\<rparr>))"

definition recovered_reg :: "RegistrationRecord \<Rightarrow> RegistrationRecord" where
  "recovered_reg r =
     r\<lparr>r_lifecycle := RL_REVALIDATION_REQUIRED, r_freshness := FR_REVALIDATION_REQUIRED,
       r_remote_key := (r_remote_key r)\<lparr>rk_revoked := True, rk_opaque_value := 0\<rparr>,
       r_local_key := (r_local_key r)\<lparr>lk_opaque_value := 0\<rparr>,
       r_backend_handle := '''', r_memory_region_id := no_id\<rparr>"

text \<open>A record that is already held under the identity is replaced.\<close>

definition recover_registration ::
    "RegistrationRecord \<Rightarrow> Impl \<times> RecoveryReport \<Rightarrow> Impl \<times> RecoveryReport" where
  "recover_registration r x =
     (case x of (im, rp) \<Rightarrow>
        (put_reg (r_id r) (recovered_reg r) im,
         rp\<lparr>rp_recovered_registrations := rp_recovered_registrations rp + 1\<rparr>))"

definition recover_state :: "PersistableState \<Rightarrow> Impl \<Rightarrow> RecoveryReport \<Rightarrow> Impl \<times> RecoveryReport" where
  "recover_state s im rp =
     (case fold recover_registration (ps_registrations s)
             (fold recover_domain (ps_domains s) (fold recover_buffer (ps_buffers s) (im, rp))) of
        (im', rp') \<Rightarrow>
          (im'\<lparr>im_authority := ps_authority_snapshot s\<rparr>,
           rp'\<lparr>rp_persistence_ok := True, rp_semantic_digest := semantic_digest s\<rparr>))"

definition recover ::
    "u8 list option \<Rightarrow> RecoveryReport \<Rightarrow> Impl \<Rightarrow> (bool \<times> string \<times> RecoveryReport) \<times> Impl" where
  "recover contents rp im =
     (case contents of None \<Rightarrow> ((False, ''IO_ERROR_OPEN'', rp), im)
      | Some bytes \<Rightarrow>
          (case parse default_persistable bytes of
             Inl err \<Rightarrow> ((False, err, rp), im)
           | Inr s \<Rightarrow> (case recover_state s im rp of (im', rp') \<Rightarrow> ((True, '''', rp'), im'))))"

section \<open>What the loops do\<close>

text \<open>Adding an element under a key that the map does not have yet.\<close>

definition um_insert_new :: "'k \<Rightarrow> 'v \<Rightarrow> ('k, 'v) umap \<Rightarrow> ('k, 'v) umap" where
  "um_insert_new k v m = (if map_of m k \<noteq> None then m else AList.update k v m)"

lemma map_of_insert_all:
  "map_of (fold (\<lambda>x. um_insert_new (f x) (g x)) xs m) = map_of (map (\<lambda>x. (f x, g x)) xs) ++ map_of m"
proof (induction xs arbitrary: m)
  case (Cons x xs)
  have "((map_of (map (\<lambda>x. (f x, g x)) xs))(f x \<mapsto> g x)) ++ map_of m =
      map_of (map (\<lambda>x. (f x, g x)) xs) ++ map_of (um_insert_new (f x) (g x) m)"
    by (auto simp: um_insert_new_def um_simps map_add_def fun_eq_iff split: option.splits)
  with Cons show ?case by (simp add: fun_upd_def)
qed simp

lemma length_update_new: "map_of m k = None \<Longrightarrow> length (AList.update k v m) = Suc (length m)"
proof -
  assume "map_of m k = None"
  then have "length (map fst (AList.update k v m)) = Suc (length m)"
    unfolding update_keys by (simp add: map_of_eq_None_iff)
  then show ?thesis by simp
qed

abbreviation idle_entry :: "BufferDescriptor \<Rightarrow> BufferEntry" where
  "idle_entry b \<equiv> \<lparr>bu_descriptor = b, bu_registered = False\<rparr>"

abbreviation recovered_domain :: DomainEntry where
  "recovered_domain \<equiv>
     \<lparr>de_domain = MD_UNKNOWN, de_state = DS_ACTIVE, de_generation = StrongGeneration 1,
      de_node = no_id, de_process = no_id\<rparr>"

lemma acct_same: "\<exists>a. im = im\<lparr>im_acct := a\<rparr>"
  by (rule exI [of _ "im_acct im"]) simp

text \<open>Each loop extends its table; the report counts by how much.\<close>

lemma recover_buffers:
  "\<exists>a. fold recover_buffer bs (im, rp) =
     (let B = fold (\<lambda>b. um_insert_new (bd_id b) (idle_entry b)) bs (im_buffers im)
      in (im\<lparr>im_buffers := B, im_acct := a\<rparr>,
          rp\<lparr>rp_recovered_buffers :=
            rp_recovered_buffers rp + (of_nat (length B) - of_nat (length (im_buffers im)))\<rparr>))"
proof (induction bs arbitrary: im rp)
  case (Cons b bs)
  obtain im1 rp1 where step: "recover_buffer b (im, rp) = (im1, rp1)" by (rule prod.exhaust)
  then have "\<exists>a. im1 = im\<lparr>im_buffers := um_insert_new (bd_id b) (idle_entry b) (im_buffers im), im_acct := a\<rparr>"
    and "rp1 = rp\<lparr>rp_recovered_buffers := rp_recovered_buffers rp +
      (of_nat (length (im_buffers im1)) - of_nat (length (im_buffers im)))\<rparr>"
    by (auto simp: recover_buffer_def um_insert_new_def length_update_new
        intro: exI [of _ "im_acct im"] split: if_splits)
  with step Cons.IH [of im1 rp1] show ?case by (auto simp: Let_def)
qed (simp add: Let_def acct_same)

lemma recover_domains:
  "\<exists>a. fold recover_domain ds (im, rp) =
     (let D = fold (\<lambda>d. um_insert_new d recovered_domain) ds (im_domains im)
      in (im\<lparr>im_domains := D, im_acct := a\<rparr>,
          rp\<lparr>rp_recovered_domains :=
            rp_recovered_domains rp + (of_nat (length D) - of_nat (length (im_domains im)))\<rparr>))"
proof (induction ds arbitrary: im rp)
  case (Cons d ds)
  obtain im1 rp1 where step: "recover_domain d (im, rp) = (im1, rp1)" by (rule prod.exhaust)
  then have "\<exists>a. im1 = im\<lparr>im_domains := um_insert_new d recovered_domain (im_domains im), im_acct := a\<rparr>"
    and "rp1 = rp\<lparr>rp_recovered_domains := rp_recovered_domains rp +
      (of_nat (length (im_domains im1)) - of_nat (length (im_domains im)))\<rparr>"
    by (auto simp: recover_domain_def um_insert_new_def length_update_new
        intro: exI [of _ "im_acct im"] split: if_splits)
  with step Cons.IH [of im1 rp1] show ?case by (auto simp: Let_def)
qed (simp add: Let_def acct_same)

lemma recover_registrations:
  "fold recover_registration rs (im, rp) =
     (im\<lparr>im_registrations := fold (\<lambda>r. AList.update (r_id r) (recovered_reg r)) rs (im_registrations im)\<rparr>,
      rp\<lparr>rp_recovered_registrations := rp_recovered_registrations rp + of_nat (length rs)\<rparr>)"
  by (induction rs arbitrary: im rp) (simp_all add: recover_registration_def put_reg_def add.assoc)

lemma map_of_update_all:
  "map_of (fold (\<lambda>x. AList.update (f x) (g x)) xs m) = map_of m ++ map_of (rev (map (\<lambda>x. (f x, g x)) xs))"
  by (induction xs arbitrary: m) (simp_all add: um_simps map_add_def fun_eq_iff split: option.split)

text \<open>The state after recovery.\<close>

definition recovered_impl :: "PersistableState \<Rightarrow> Impl \<Rightarrow> Accounting \<Rightarrow> Impl" where
  "recovered_impl s im a =
     im\<lparr>im_buffers := fold (\<lambda>b. um_insert_new (bd_id b) (idle_entry b)) (ps_buffers s) (im_buffers im),
       im_domains := fold (\<lambda>d. um_insert_new d recovered_domain) (ps_domains s) (im_domains im),
       im_acct := a,
       im_registrations :=
         fold (\<lambda>r. AList.update (r_id r) (recovered_reg r)) (ps_registrations s) (im_registrations im),
       im_authority := ps_authority_snapshot s\<rparr>"

lemma recover_state_eq:
  "\<exists>a. recover_state s im rp =
     (recovered_impl s im a,
      rp\<lparr>rp_recovered_buffers := rp_recovered_buffers rp +
           (of_nat (length (im_buffers (recovered_impl s im a))) - of_nat (length (im_buffers im))),
         rp_recovered_domains := rp_recovered_domains rp +
           (of_nat (length (im_domains (recovered_impl s im a))) - of_nat (length (im_domains im))),
         rp_recovered_registrations := rp_recovered_registrations rp + of_nat (length (ps_registrations s)),
         rp_persistence_ok := True, rp_semantic_digest := semantic_digest s\<rparr>)"
proof -
  obtain a where b: "fold recover_buffer (ps_buffers s) (im, rp) =
     (let B = fold (\<lambda>b. um_insert_new (bd_id b) (idle_entry b)) (ps_buffers s) (im_buffers im)
      in (im\<lparr>im_buffers := B, im_acct := a\<rparr>,
          rp\<lparr>rp_recovered_buffers :=
            rp_recovered_buffers rp + (of_nat (length B) - of_nat (length (im_buffers im)))\<rparr>))"
    using recover_buffers by blast
  show ?thesis
    using recover_domains [of "ps_domains s" "fst (fold recover_buffer (ps_buffers s) (im, rp))"
        "snd (fold recover_buffer (ps_buffers s) (im, rp))"]
    by (auto simp: recover_state_def b recover_registrations recovered_impl_def Let_def)
qed

lemma recovered_reg_at:
  "reg_at (recovered_impl s im a) =
     reg_at im ++ map_of (rev (map (\<lambda>r. (r_id r, recovered_reg r)) (ps_registrations s)))"
  by (simp add: reg_at_def recovered_impl_def map_of_update_all)

lemma recover_cases [consumes 1, case_names refused recovered]:
  assumes "recover c rp im = ((ok, err, rp'), im')"
  obtains
    "\<not> ok" and "im' = im" and "rp' = rp"
  | bytes s a where "ok" and "err = ''''" and "c = Some bytes" and "parse default_persistable bytes = Inr s"
      and "im' = recovered_impl s im a" and "rp_semantic_digest rp' = semantic_digest s"
proof (cases c)
  case None
  with assms that(1) show thesis by (simp add: recover_def)
next
  case (Some bytes)
  show thesis
  proof (cases "parse default_persistable bytes")
    case (Inl e)
    with assms Some that(1) show thesis by (simp add: recover_def)
  next
    case (Inr s)
    with recover_state_eq [of s im rp] assms Some that(2) show thesis
      by (auto simp: recover_def)
  qed
qed

lemma recovered_not_fresh:
  assumes "reg_at (recovered_impl s im a) i = Some r" and "r_freshness r = FR_VALID"
  shows "reg_at im i = Some r"
  using assms unfolding recovered_reg_at
  by (auto simp: map_add_Some_iff recovered_reg_def dest!: map_of_SomeD)

lemma recovered_closed:
  assumes "r \<in> set (ps_registrations s)"
  shows "\<exists>r'. reg_at (recovered_impl s im a) (r_id r) = Some r' \<and> r_freshness r' = FR_REVALIDATION_REQUIRED"
proof -
  let ?m = "rev (map (\<lambda>r. (r_id r, recovered_reg r)) (ps_registrations s))"
  from assms have "map_of ?m (r_id r) \<noteq> None"
    by (auto simp: map_of_eq_None_iff image_image)
  then obtain r' where r': "map_of ?m (r_id r) = Some r'" by blast
  then have "r_freshness r' = FR_REVALIDATION_REQUIRED"
    by (auto simp: recovered_reg_def dest!: map_of_SomeD)
  with r' show ?thesis unfolding recovered_reg_at by (auto simp: map_add_Some_iff)
qed

section \<open>What a reachable registry saves\<close>

lemma map_of_rev_wf: "distinct (map fst xs) \<Longrightarrow> map_of (rev xs) = map_of xs"
  by (subst map_of_inject_set) (simp_all add: rev_map [symmetric])

text \<open>A table whose elements carry their own key, read back by that key.\<close>

lemma map_of_rekey:
  "(\<And>i e. (i, e) \<in> set m \<Longrightarrow> f e = i) \<Longrightarrow>
   map_of (map (\<lambda>(i, e). (f e, g e)) m) = map_option g \<circ> map_of m"
proof (induction m)
  case (Cons x m)
  obtain i e where x: "x = (i, e)" by (cases x)
  with Cons.prems have "f e = i" by simp
  moreover have "map_of (map (\<lambda>(i, e). (f e, g e)) m) = map_option g \<circ> map_of m"
    by (rule Cons.IH) (simp add: Cons.prems)
  ultimately show ?case by (simp add: x fun_eq_iff)
qed (simp add: fun_eq_iff)

lemma map_rekey: "(\<And>i e. (i, e) \<in> set m \<Longrightarrow> f e = i) \<Longrightarrow> map (\<lambda>(i, e). f e) m = map fst m"
  by (induction m) auto

lemma named_set: "tables_wf im \<Longrightarrow> named im \<Longrightarrow> (i, r) \<in> set (im_registrations im) \<Longrightarrow>
    r_id r = i \<and> r_registration_generation r = StrongGeneration 1"
  by (auto simp: tables_wf_def um_wf_def named_def reg_at_def)

lemma saved_sound:
  assumes "seq_reach im"
  shows "sound_ids (persistable_state im) \<longleftrightarrow>
     (\<forall>b\<in>set (ps_buffers (persistable_state im)). gen_valid (bd_generation b)) \<and>
     distinct (map bd_id (ps_buffers (persistable_state im)))"
proof -
  from seq_reach_inv [OF assms] have wf: "tables_wf im" and nm: "named im" by auto
  have "map (\<lambda>(i, r). r_id r) (im_registrations im) = map fst (im_registrations im)"
    by (rule map_rekey) (use named_set [OF wf nm] in blast)
  then have "map r_id (ps_registrations (persistable_state im)) = map fst (im_registrations im)"
    by (simp add: persistable_state_def logical_registration_def comp_def split_def)
  moreover have "\<forall>r\<in>set (ps_registrations (persistable_state im)). gen_valid (r_registration_generation r)"
    using named_set [OF wf nm]
    by (auto simp: persistable_state_def logical_registration_def gen_valid_def)
  moreover have "ps_domains (persistable_state im) = map fst (im_domains im)"
    by (simp add: persistable_state_def split_def)
  ultimately show ?thesis
    using wf by (simp add: sound_ids_def tables_wf_def um_wf_def)
qed

lemma parse_saved:
  assumes "state_fits (persistable_state im)"
  shows "parse default_persistable (serialize (persistable_state im)) =
     (case integrity_error (persistable_state im) of
        None \<Rightarrow> Inr (state_kept default_persistable (persistable_state im)) | Some e \<Rightarrow> Inl e)"
  by (simp add: parse_encoded [OF assms] parse_verdict_def)

section \<open>Recovering what a reachable registry saved\<close>

text \<open>A registry whose buffers carry the identity they are filed under.\<close>

definition buffers_named :: "Impl \<Rightarrow> bool" where
  "buffers_named im \<longleftrightarrow>
     (\<forall>(i, e)\<in>set (im_buffers im). bd_id (bu_descriptor e) = i \<and> gen_valid (bd_generation (bu_descriptor e)))"

definition empty_registry :: "Impl \<Rightarrow> bool" where
  "empty_registry im \<longleftrightarrow> im_buffers im = [] \<and> im_domains im = [] \<and> im_registrations im = []"

abbreviation kept :: "Impl \<Rightarrow> PersistableState" where
  "kept im \<equiv> state_kept default_persistable (persistable_state im)"

lemma saved_parses:
  assumes "seq_reach im" and "state_fits (persistable_state im)" and "buffers_named im"
  shows "parse default_persistable (serialize (persistable_state im)) = Inr (kept im)"
proof -
  have keys: "map (\<lambda>(i, e). bd_id (bu_descriptor e)) (im_buffers im) = map fst (im_buffers im)"
    by (rule map_rekey) (use assms(3) in \<open>auto simp: buffers_named_def\<close>)
  have "distinct (map (\<lambda>x. bd_id (bu_descriptor (snd x))) (im_buffers im))"
    using seq_reach_inv [OF assms(1)] unfolding keys [unfolded split_def]
    by (simp add: tables_wf_def um_wf_def)
  then have "sound_ids (persistable_state im)"
    unfolding saved_sound [OF assms(1)] using assms(3)
    by (auto simp: buffers_named_def persistable_state_def comp_def split_def)
  then show ?thesis by (simp add: parse_saved [OF assms(2)] flip: integrity_error_None)
qed

lemma kept_authority:
  "ps_authority_snapshot (kept im) = (im_authority im)\<lparr>as_provenance := as_provenance default_snapshot\<rparr>"
  by (simp add: state_kept_def persistable_state_def default_persistable_def)

lemma recovered_get_buffer:
  assumes "buffers_named im" and "empty_registry im0"
  shows "get_buffer i (recovered_impl (kept im) im0 a) = get_buffer i im"
proof -
  let ?m = "map (\<lambda>(i, e). (bd_id (bu_descriptor e), idle_entry (bu_descriptor e))) (im_buffers im)"
  have "map_of (im_buffers (recovered_impl (kept im) im0 a)) = map_of ?m"
    using assms(2)
    by (simp add: recovered_impl_def map_of_insert_all empty_registry_def state_kept_def
        persistable_state_def comp_def split_def)
  also have "\<dots> = map_option (\<lambda>e. idle_entry (bu_descriptor e)) \<circ> map_of (im_buffers im)"
    by (rule map_of_rekey) (use assms(1) in \<open>auto simp: buffers_named_def\<close>)
  finally show ?thesis by (simp add: get_buffer_def option.map_comp comp_def)
qed

lemma recovered_domain_active:
  assumes "empty_registry im0"
  shows "domain_active d (recovered_impl (kept im) im0 a) \<longleftrightarrow> map_of (im_domains im) d \<noteq> None"
proof -
  have "map_of (im_domains (recovered_impl (kept im) im0 a)) =
      map_of (map (\<lambda>(i, e). (i, recovered_domain)) (im_domains im))"
    using assms
    by (simp add: recovered_impl_def map_of_insert_all empty_registry_def state_kept_def
        persistable_state_def comp_def split_def)
  then show ?thesis by (simp add: domain_active_def map_of_map)
qed

lemma recovered_get_registration:
  assumes "seq_reach im" and "empty_registry im0"
  shows "get_registration i (recovered_impl (kept im) im0 a) =
      map_option (\<lambda>r. recovered_reg (r\<lparr>r_policy_generation := no_gen\<rparr>)) (get_registration i im)"
proof -
  let ?g = "\<lambda>r. recovered_reg (r\<lparr>r_policy_generation := no_gen\<rparr>)"
  let ?m = "map (\<lambda>(i, r). (r_id r, ?g r)) (im_registrations im)"
  from seq_reach_inv [OF assms(1)] have wf: "tables_wf im" and nm: "named im" by auto
  have "recovered_reg (without_policy (logical_registration r)) = ?g r" for r
    by (simp add: recovered_reg_def without_policy_def logical_registration_def)
  then have "map (\<lambda>r. (r_id r, recovered_reg r)) (ps_registrations (kept im)) = ?m"
    by (simp add: state_kept_def persistable_state_def comp_def split_def)
      (simp add: without_policy_def logical_registration_def)
  with assms(2) have "reg_at (recovered_impl (kept im) im0 a) = map_of (rev ?m)"
    by (simp add: recovered_reg_at) (simp add: reg_at_def empty_registry_def)
  also have "map fst ?m = map fst (im_registrations im)"
    using map_rekey [of "im_registrations im" r_id] named_set [OF wf nm] by (auto simp: comp_def split_def)
  then have "distinct (map fst ?m)"
    using wf by (metis tables_wf_def um_wf_def)
  then have "map_of (rev ?m) = map_of ?m" by (rule map_of_rev_wf)
  also have "\<dots> = map_option ?g \<circ> map_of (im_registrations im)"
    by (rule map_of_rekey) (use named_set [OF wf nm] in blast)
  finally show ?thesis by (simp add: get_registration_def reg_at_def)
qed

lemma recover_saved:
  assumes "seq_reach im" and "state_fits (persistable_state im)" and "buffers_named im"
    and "recover (Some (serialize (persistable_state im))) rp im0 = ((ok, err, rp'), im')"
  obtains a where "ok" and "im' = recovered_impl (kept im) im0 a"
    and "rp_semantic_digest rp' = semantic_digest (persistable_state im)"
proof -
  note parsed = saved_parses [OF assms(1-3)]
  have "semantic_digest (kept im) = semantic_digest (persistable_state im)"
    by (rule digest_kept) (simp add: persistable_state_def)
  with assms(4) show thesis
    by (cases rule: recover_cases)
      (use assms(4) parsed that in \<open>auto simp: recover_def split: prod.splits\<close>)
qed

lemma write_file_untorn:
  "case write_file path blob os fs of ((ok, err), fs') \<Rightarrow>
     fs' path =
       (if ok then Some blob
        else if fo_opens os \<and> fo_short_write os = None \<and> fo_removes os then None else fs path) \<and>
     (ok \<longleftrightarrow> fo_opens os \<and> fo_short_write os = None \<and> fo_renames os) \<and>
     fs'(path := x, path @ ''.tmp'' := y) = fs(path := x, path @ ''.tmp'' := y)"
proof -
  obtain tmp where tmp: "tmp = path @ ''.tmp''" by blast
  then have ne: "path \<noteq> tmp" "tmp \<noteq> path" by simp_all
  show ?thesis
    unfolding write_file_def Let_def tmp [symmetric]
    by (cases "fo_opens os"; cases "fo_short_write os"; cases "fo_removes os"; cases "fo_renames os")
      (simp_all add: ne)
qed

section \<open>Properties\<close>

text \<open>C25. Saving never leaves a torn file: whatever the operating system answers, the file at the
  path holds the complete encoding when \<open>save\<close> succeeds; when it fails the file is what it was,
  unless the old file was already removed and the rename then failed, in which case there is no
  file at all. Nothing but the path and its temporary file changes.\<close>

theorem save_is_not_torn:
  "case save path os im fs of ((ok, err), fs') \<Rightarrow>
     fs' path =
       (if ok then Some (serialize (persistable_state im))
        else if fo_opens os \<and> fo_short_write os = None \<and> fo_removes os then None else fs path) \<and>
     (ok \<longleftrightarrow> fo_opens os \<and> fo_short_write os = None \<and> fo_renames os) \<and>
     fs'(path := x, path @ ''.tmp'' := y) = fs(path := x, path @ ''.tmp'' := y)"
  unfolding save_def by (rule write_file_untorn)

text \<open>C20. Recovery opens nothing: a request that is allowed right after \<open>recover\<close>, whatever the file
  held, names a registration that the registry already had before and that the file did not
  touch.\<close>

theorem recovery_opens_nothing:
  assumes "recover c rp im = ((ok, err, rp'), im')"
    and "ad_outcome (fst (validate_remote_access q im')) = AO_ALLOW"
  shows "get_registration (q_source_registration q) im' \<noteq> None \<and>
    get_registration (q_source_registration q) im' = get_registration (q_source_registration q) im"
proof -
  have "\<exists>r. reg_at im' (q_source_registration q) = Some r \<and> r_freshness r = FR_VALID"
  proof (rule ccontr)
    assume "\<not> ?thesis"
    then have "ad_outcome (fst (validate_remote_access q im')) \<noteq> AO_ALLOW"
      by (intro not_fresh_refused) simp
    with assms(2) show False by simp
  qed
  then obtain r where r: "reg_at im' (q_source_registration q) = Some r" "r_freshness r = FR_VALID"
    by blast
  from assms(1) have "reg_at im (q_source_registration q) = Some r"
  proof (cases rule: recover_cases)
    case refused
    with r(1) show ?thesis by simp
  next
    case (recovered bytes s a)
    from r show ?thesis unfolding recovered(5) by (rule recovered_not_fresh)
  qed
  with r show ?thesis by (simp add: get_registration_def reg_at_def)
qed

text \<open>C24. Of a registry whose calls did not overlap and that was not recovered from a file, and whose
  lists and texts are within the bounds of the format (beyond them \<open>save\<close> still writes, and
  \<open>recover\<close> refuses the file): what \<open>save\<close> wrote can be recovered exactly when the buffers carry
  distinct identities of their own and nonzero generations; otherwise \<open>recover\<close> reports the
  integrity error and changes nothing. (Identities that \<open>create_buffer\<close> generates are not stored
  in the descriptor, so two such buffers already make the file unreadable.)\<close>

theorem saved_file_recoverable_iff:
  assumes "seq_reach im" and "state_fits (persistable_state im)"
    and "recover (Some (serialize (persistable_state im))) rp im0 = ((ok, err, rp'), im')"
  shows "(ok \<longleftrightarrow>
      distinct (map (\<lambda>(i, e). bd_id (bu_descriptor e)) (im_buffers im)) \<and>
      (\<forall>(i, e)\<in>set (im_buffers im). gen_valid (bd_generation (bu_descriptor e)))) \<and>
    (ok \<or> (err = ''GENERATION_REGRESSION'' \<or> err = ''DUPLICATE_IDENTITY'') \<and> im' = im0 \<and> rp' = rp)"
proof -
  have "sound_ids (persistable_state im) \<longleftrightarrow>
      distinct (map (\<lambda>(i, e). bd_id (bu_descriptor e)) (im_buffers im)) \<and>
      (\<forall>(i, e)\<in>set (im_buffers im). gen_valid (bd_generation (bu_descriptor e)))"
    unfolding saved_sound [OF assms(1)]
    by (auto simp: persistable_state_def comp_def split_def)
  moreover have "ok \<longleftrightarrow> sound_ids (persistable_state im)"
    "ok \<or> (err = ''GENERATION_REGRESSION'' \<or> err = ''DUPLICATE_IDENTITY'') \<and> im' = im0 \<and> rp' = rp"
    using assms(3) integrity_error_code [of "persistable_state im"]
    by (auto simp: recover_def parse_saved [OF assms(2)] simp flip: integrity_error_None
        split: option.splits prod.splits)
  ultimately show ?thesis by simp
qed

text \<open>C21. Let the calls of a registry not have overlapped and no file have been recovered into it, its
  lists and texts be within the bounds of the format, and every buffer carry its own identity and
  a nonzero generation (which a buffer whose identity \<open>create_buffer\<close> generated does not).
  Saving and recovering into an empty registry then restores every buffer under its identity and
  the authority (but for its provenance, which the reader drops), and every registration as it
  was except that it requires revalidation, its key is revoked, its handles are gone and its
  policy generation is zero. Every protection domain that was ever created comes back active,
  the destroyed ones as well, and the identity counters stay where the empty registry has them.\<close>

theorem recovery_restores:
  assumes "seq_reach im" and "state_fits (persistable_state im)" and "buffers_named im"
    and "empty_registry im0"
    and "recover (Some (serialize (persistable_state im))) rp im0 = ((ok, err, rp'), im')"
  shows "ok \<and> get_buffer i im' = get_buffer i im \<and>
    get_registration j im' =
      map_option (\<lambda>r. recovered_reg (r\<lparr>r_policy_generation := no_gen\<rparr>)) (get_registration j im) \<and>
    domain_active d im' = (map_of (im_domains im) d \<noteq> None) \<and>
    im_authority im' = (im_authority im)\<lparr>as_provenance := as_provenance default_snapshot\<rparr> \<and>
    im_next_registration im' = im_next_registration im0 \<and> im_next_domain im' = im_next_domain im0 \<and>
    rp_semantic_digest rp' = semantic_digest (persistable_state im)"
proof -
  obtain a where "ok" and im': "im' = recovered_impl (kept im) im0 a"
    and "rp_semantic_digest rp' = semantic_digest (persistable_state im)"
    by (rule recover_saved [OF assms(1-3,5)])
  moreover have "im_authority im' = ps_authority_snapshot (kept im)"
    "im_next_registration im' = im_next_registration im0" "im_next_domain im' = im_next_domain im0"
    by (simp_all add: im' recovered_impl_def)
  ultimately show ?thesis
    by (simp add: im' kept_authority recovered_get_buffer [OF assms(3,4)]
        recovered_domain_active [OF assms(4)] recovered_get_registration [OF assms(1,4)])
qed

text \<open>The saved file discloses the key material of live registrations: although the records are
  written with their opaque values cleared, the histories carry every remote and local key as it
  is, so whoever reads the file gets the opaque values of the keys that are in use.\<close>

theorem saved_file_discloses_keys:
  assumes "seq_reach im" and "state_fits (persistable_state im)" and "buffers_named im"
    and "get_registration i im = Some r"
  shows "\<exists>s. parse default_persistable (serialize (persistable_state im)) = Inr s \<and>
    (\<exists>r'\<in>set (ps_registrations s). r_id r' = r_id r \<and> rk_opaque_value (r_remote_key r') = 0) \<and>
    r_remote_key r \<in> set (ps_remote_key_history s) \<and> r_local_key r \<in> set (ps_local_key_history s)"
proof -
  from assms(4) have "(i, r) \<in> set (im_registrations im)"
    by (auto simp: get_registration_def dest: map_of_SomeD)
  then have "without_policy (logical_registration r) \<in> set (ps_registrations (kept im))"
    "r_remote_key r \<in> set (ps_remote_key_history (kept im))"
    "r_local_key r \<in> set (ps_local_key_history (kept im))"
    by (force simp: state_kept_def persistable_state_def)+
  moreover have "rk_opaque_value (r_remote_key (without_policy (logical_registration r))) = 0"
    "r_id (without_policy (logical_registration r)) = r_id r"
    by (simp_all add: without_policy_def logical_registration_def)
  ultimately show ?thesis using saved_parses [OF assms(1-3)] by blast
qed

section \<open>The worked scenario across a restart\<close>

abbreviation demo_saved :: "u8 list" where
  "demo_saved \<equiv> serialize (persistable_state demo1)"

text \<open>A new process: the backend is attached, then the file is read.\<close>

definition demo_fresh :: Impl where
  "demo_fresh = snd (add_backend (Some demo_backend) new_impl)"

definition demo_recovered :: Impl where
  "demo_recovered = snd (recover (Some demo_saved) default_report demo_fresh)"

text \<open>A request that carries the key generation of the registration made before the restart.\<close>

definition old_key_request :: RemoteAccessRequest where
  "old_key_request = demo_request\<lparr>q_expected_remote_key_generation := StrongGeneration 1\<rparr>"

lemma demo_fresh_eq: "demo_fresh = new_impl\<lparr>im_backends := [(demo_bid, demo_backend)]\<rparr>"
proof -
  have "be_id demo_backend = demo_bid" by (simp add: demo_backend_def syn_create_def)
  then show ?thesis by (simp add: demo_fresh_def add_backend_def new_impl_def)
qed

lemma demo_fresh_empty: "empty_registry demo_fresh"
  by (simp add: demo_fresh_eq empty_registry_def new_impl_def)

lemma demo_fits: "state_fits (persistable_state demo1)"
proof -
  have "registration_fits (logical_registration demo_record)" "r_invalidation_reason demo_record = ''''"
    by (simp_all add: registration_fits_def logical_registration_def demo_record_def
        committed_record_def registering_record_def)
  moreover have "backend_info_fits (hd (backend_summaries_unlocked demo1))"
    by (simp add: backend_info_fits_def backend_summaries_unlocked_def demo1_eq demo_backend1_def
        syn_create_def syn_capabilities_def max_count_def)
  ultimately show ?thesis
    by (simp add: state_fits_def persistable_state_def default_persistable_def demo1_eq demo0_eq
        backend_summaries_unlocked_def max_count_def)
qed

lemma demo_named: "buffers_named demo1"
  by (simp add: buffers_named_def demo1_eq demo0_eq gen_valid_def)

lemma demo_recovers:
  obtains a rp' where "recover (Some demo_saved) rp demo_fresh =
      ((True, '''', rp'), recovered_impl (kept demo1) demo_fresh a)"
  using saved_parses [OF demo1_seq demo_fits demo_named] recover_state_eq [of "kept demo1" demo_fresh rp]
  by (auto simp: recover_def)

lemma demo_recovered_eq: "\<exists>a. demo_recovered = recovered_impl (kept demo1) demo_fresh a"
  by (rule demo_recovers [of default_report]) (auto simp: demo_recovered_def)

lemma demo_recovered_fields:
  "im_authority demo_recovered = demo_authority" "im_next_registration demo_recovered = 1"
  "im_backends demo_recovered = [(demo_bid, demo_backend)]" "im_active_reg demo_recovered = []"
proof -
  have auth: "ps_authority_snapshot (kept demo1) = demo_authority"
    by (simp add: kept_authority demo_authority_def)
  obtain a where "demo_recovered = recovered_impl (kept demo1) demo_fresh a"
    using demo_recovered_eq by blast
  note eq = this recovered_impl_def auth demo_fresh_eq new_impl_def
  show "im_authority demo_recovered = demo_authority" "im_next_registration demo_recovered = 1"
    "im_backends demo_recovered = [(demo_bid, demo_backend)]" "im_active_reg demo_recovered = []"
    unfolding eq(1) by (simp_all add: eq(2-))
qed

lemma demo_recovered_ready: "register_ready page_buffer demo_bid demo_pd demo_env demo_recovered demo_backend"
proof -
  obtain a where eq: "demo_recovered = recovered_impl (kept demo1) demo_fresh a"
    using demo_recovered_eq by blast
  have "get_buffer (StrongId 1) demo1 = Some page_buffer" "map_of (im_domains demo1) demo_pd \<noteq> None"
    by (simp_all add: demo1_eq demo0_eq get_buffer_def)
  then have "get_buffer (StrongId 1) demo_recovered = Some page_buffer" "domain_active demo_pd demo_recovered"
    unfolding eq recovered_get_buffer [OF demo_named demo_fresh_empty]
      recovered_domain_active [OF demo_fresh_empty] by simp_all
  then show ?thesis
    by (auto simp: register_ready_def buffer_current_def get_buffer_def demo_recovered_fields
        demo_agrees demo_can_register demo_range_ok)
qed

text \<open>Registering the page under the authority of the scenario, as the first registration of a
  process, gives the record of the scenario.\<close>

lemma demo_registers_page:
  assumes ready: "register_ready page_buffer demo_bid demo_pd demo_env im demo_backend"
    and auth: "im_authority im = demo_authority" and n: "im_next_registration im = 1"
  shows "rr_ok (fst (register_buffer page_buffer demo_bid demo_pd demo_env im))"
    and "rr_registration (fst (register_buffer page_buffer demo_bid demo_pd demo_env im)) = demo_reg"
    and "get_registration demo_reg (snd (register_buffer page_buffer demo_bid demo_pd demo_env im)) =
      Some demo_record"
proof -
  obtain bo bout b' r where reg: "be_register page_buffer
      (ready_context page_buffer demo_pd demo_env im demo_backend) demo_backend = ((bo, Some bout), b')"
    and r: "r = committed_record (ready_record page_buffer demo_bid demo_pd demo_env im demo_backend)
      demo_bid bout (im_authority im)"
    and res: "snd (register_buffer page_buffer demo_bid demo_pd demo_env im) = registered_impl demo_bid b' r im"
    "rr_ok (fst (register_buffer page_buffer demo_bid demo_pd demo_env im))"
    "rr_registration (fst (register_buffer page_buffer demo_bid demo_pd demo_env im)) = r_id r"
    by (rule register_buffer_ready [OF ready])
  from reg have "bout = demo_bout"
    by (simp add: ready_context_def auth flip: demo_context_def) (simp add: demo_be_register)
  then have "r = demo_record"
    by (simp add: r auth demo_record_def ready_record_def n)
  with res show "rr_ok (fst (register_buffer page_buffer demo_bid demo_pd demo_env im))"
    "rr_registration (fst (register_buffer page_buffer demo_bid demo_pd demo_env im)) = demo_reg"
    "get_registration demo_reg (snd (register_buffer page_buffer demo_bid demo_pd demo_env im)) =
      Some demo_record"
    by (simp_all add: get_registration_def registered_impl_def um_simps)
qed

lemma old_key_allowed:
  assumes "register_ready page_buffer demo_bid demo_pd demo_env im demo_backend"
    and "im_authority im = demo_authority" and "im_next_registration im = 1"
  shows "ad_outcome (fst (validate_remote_access old_key_request
    (snd (register_buffer page_buffer demo_bid demo_pd demo_env im)))) = AO_ALLOW"
  using registered_access [OF surjective_pairing demo_registers_page(1) [OF assms], of old_key_request]
    demo_registers_page(2,3) [OF assms] assms(2)
  by (auto simp: old_key_request_def demo_agrees expects_def names_id_def access_superset_def
      access_has_def intrinsic_right_def gen_valid_def no_gen_def)

text \<open>C22. Identities and key generations start again after a restart, so a credential from before
  becomes valid once more: in the worked scenario a request that names registration 1 with key
  generation 1 is allowed before the state is saved and refused after the recovery; as soon as
  the page is registered again, the new registration takes the identity, the generations and the
  record of the old one, and the same request is allowed.\<close>

theorem restart_revives_old_key:
  "ad_outcome (fst (validate_remote_access old_key_request demo1)) = AO_ALLOW \<and>
   ad_outcome (fst (validate_remote_access old_key_request demo_recovered)) \<noteq> AO_ALLOW \<and>
   (case register_buffer page_buffer demo_bid demo_pd demo_env demo_recovered of (rr, im) \<Rightarrow>
      rr_ok rr \<and> rr_registration rr = demo_reg \<and>
      ad_outcome (fst (validate_remote_access old_key_request im)) = AO_ALLOW)"
proof -
  obtain a where eq: "demo_recovered = recovered_impl (kept demo1) demo_fresh a"
    using demo_recovered_eq by blast
  have "get_registration demo_reg demo1 = Some demo_record"
    by (simp add: get_registration_def demo1_eq)
  then have "reg_at demo_recovered demo_reg = Some (recovered_reg (demo_record\<lparr>r_policy_generation := no_gen\<rparr>))"
    using recovered_get_registration [OF demo1_seq demo_fresh_empty, of demo_reg a]
    by (simp add: eq get_registration_def reg_at_def)
  then have "ad_outcome (fst (validate_remote_access old_key_request demo_recovered)) \<noteq> AO_ALLOW"
    by (intro not_fresh_refused) (auto simp: old_key_request_def recovered_reg_def)
  moreover have "ad_outcome (fst (validate_remote_access old_key_request demo1)) = AO_ALLOW"
    unfolding demo1_def by (rule old_key_allowed [OF demo0_ready]) simp_all
  ultimately show ?thesis
    using demo_registers_page [OF demo_recovered_ready demo_recovered_fields(1,2)]
      old_key_allowed [OF demo_recovered_ready demo_recovered_fields(1,2)]
    by (simp add: split_def)
qed

section \<open>Witnesses\<close>

theorem recovery_opens_nothing_witness:
  "get_registration demo_reg demo1 \<noteq> None \<and>
   recover (Some []) default_report demo1 = ((False, ''TRUNCATED'', default_report), demo1)"
proof -
  have r: "recover (Some []) default_report demo1 = ((False, ''TRUNCATED'', default_report), demo1)"
    by (simp add: recover_def parse_def)
  have "ad_outcome (fst (validate_remote_access old_key_request demo1)) = AO_ALLOW"
    unfolding demo1_def by (rule old_key_allowed [OF demo0_ready]) simp_all
  from recovery_opens_nothing [OF r this] r show ?thesis by (simp add: old_key_request_def)
qed

lemma kept_demo_registration:
  "logical_registration demo_record\<lparr>r_policy_generation := no_gen\<rparr> \<in> set (ps_registrations (kept demo1))"
  by (simp add: state_kept_def persistable_state_def demo1_eq without_policy_def)

theorem saved_file_recoverable_iff_witness:
  "fst (fst (recover (Some demo_saved) default_report demo_fresh))"
proof -
  obtain rp' im' where r: "recover (Some demo_saved) default_report demo_fresh = ((True, '''', rp'), im')"
    by (rule demo_recovers)
  from saved_file_recoverable_iff [OF demo1_seq demo_fits r] r show ?thesis by simp
qed

theorem recovery_restores_witness:
  "get_buffer (StrongId 1) demo_recovered = Some page_buffer \<and> domain_active demo_pd demo_recovered"
proof -
  obtain rp' im' where r: "recover (Some demo_saved) default_report demo_fresh = ((True, '''', rp'), im')"
    by (rule demo_recovers)
  from recovery_restores [OF demo1_seq demo_fits demo_named demo_fresh_empty r, of "StrongId 1" demo_reg demo_pd] r
  show ?thesis by (simp add: demo_recovered_def) (simp add: demo1_eq demo0_eq get_buffer_def)
qed

theorem saved_file_discloses_keys_witness:
  "\<exists>s. parse default_persistable demo_saved = Inr s \<and>
     r_remote_key demo_record \<in> set (ps_remote_key_history s)"
  using saved_file_discloses_keys [OF demo1_seq demo_fits demo_named, of demo_reg demo_record]
  by (auto simp: get_registration_def demo1_eq)

end
