(* ===== verification/Transport.thy ===== *)
theory Transport
  imports Protocol
begin

text \<open>
  Frames over a TCP socket: the loops of \<open>tools/worker.cpp\<close> and \<open>tools/coordinator.cpp\<close> that
  send and receive until a whole frame has passed. The theorems are about those of the worker;
  \<open>coord_send_frame_eq\<close> and \<open>coord_recv_frame_eq\<close> carry them over to those of the coordinator. The two system calls are arguments of the
  definitions. \<open>send\<close> and \<open>recv\<close> return what they transferred, nothing when the call of the
  code returns zero or less. What the code relies on is stated once, as the hypotheses
  \<open>delivers\<close> and \<open>emits\<close>: a call transfers some of the bytes, in order, and \<open>recv\<close> gives up
  only when nothing is left to deliver. How the bytes are cut into calls is left open. The
  counts are natural numbers: a frame has at most 16777248 bytes, so the \<open>int\<close>s of the code
  hold them.
\<close>

section \<open>The loops\<close>

type_synonym 's recv_call = "'s \<Rightarrow> nat \<Rightarrow> u8 list \<times> 's"
type_synonym 's send_call = "'s \<Rightarrow> u8 list \<Rightarrow> nat \<times> 's"

text \<open>\<open>got\<close> is what the buffer holds so far.\<close>

function recv_all :: "'s recv_call \<Rightarrow> nat \<Rightarrow> u8 list \<Rightarrow> 's \<Rightarrow> u8 list option \<times> 's" where
  "recv_all recv n got s =
     (if length got < n then
        (case recv s (n - length got) of (bs, s') \<Rightarrow>
           if bs = [] then (None, s') else recv_all recv n (got @ bs) s')
      else (Some got, s))"
  by pat_completeness auto
termination
  by (relation "measure (\<lambda>(recv, n, got, s). n - length got)")
    (auto simp flip: length_greater_0_conv)

declare recv_all.simps [simp del]

text \<open>\<open>p\<close> is what is left to send.\<close>

function send_all :: "'s send_call \<Rightarrow> u8 list \<Rightarrow> 's \<Rightarrow> bool \<times> 's" where
  "send_all send p s =
     (if p \<noteq> [] then
        (case send s p of (r, s') \<Rightarrow>
           if r = 0 then (False, s') else send_all send (drop r p) s')
      else (True, s))"
  by pat_completeness auto
termination
  by (relation "measure (\<lambda>(send, p, s). length p)") auto

declare send_all.simps [simp del]

definition send_frame :: "'s send_call \<Rightarrow> MessageKind \<Rightarrow> u64 \<Rightarrow> u8 list \<Rightarrow> 's \<Rightarrow> bool \<times> 's" where
  "send_frame send kind seq payload s =
     (let f = encode_frame kind seq payload
      in if f = [] then (False, s) else send_all send f s)"

definition recv_frame :: "'s recv_call \<Rightarrow> 's \<Rightarrow> (string + Frame) \<times> 's" where
  "recv_frame recv s =
     (case recv_all recv header_size [] s of
        (None, s1) \<Rightarrow> (Inl ''eof'', s1)
      | (Some hdr, s1) \<Rightarrow>
          (let magic = word_at 4 hdr 0; ver = word_at 4 hdr 4; len = word_at 8 hdr 20 :: u64
           in if magic \<noteq> frame_magic \<or> ver \<noteq> frame_version \<or> unat len > max_payload
              then (Inl ''badheader'', s1)
              else case recv_all recv (unat len) [] s1 of
                (None, s2) \<Rightarrow> (Inl ''eof'', s2)
              | (Some body, s2) \<Rightarrow>
                  (case recv_all recv 4 [] s2 of
                     (None, s3) \<Rightarrow> (Inl ''eof'', s3)
                   | (Some trailer, s3) \<Rightarrow>
                       (case decode_frame (hdr @ body @ trailer) of
                          Inl err \<Rightarrow> (Inl err, s3)
                        | Inr (f, consumed) \<Rightarrow> (Inr f, s3)))))"

section \<open>What the system calls promise\<close>

text \<open>\<open>pending s\<close>: the bytes that \<open>s\<close> will still deliver before the connection ends.\<close>

definition delivers :: "'s recv_call \<Rightarrow> ('s \<Rightarrow> u8 list) \<Rightarrow> bool" where
  "delivers recv pending \<longleftrightarrow>
     (\<forall>s n bs s'. 0 < n \<longrightarrow> recv s n = (bs, s') \<longrightarrow>
        length bs \<le> n \<and> pending s = bs @ pending s' \<and> (bs = [] \<longrightarrow> pending s = []))"

definition emits :: "'s send_call \<Rightarrow> ('s \<Rightarrow> u8 list) \<Rightarrow> bool" where
  "emits send wire \<longleftrightarrow>
     (\<forall>s p r s'. p \<noteq> [] \<longrightarrow> send s p = (r, s') \<longrightarrow> r \<le> length p \<and> wire s' = wire s @ take r p)"

lemma deliversD:
  "delivers recv pending \<Longrightarrow> 0 < n \<Longrightarrow> recv s n = (bs, s') \<Longrightarrow>
     length bs \<le> n \<and> pending s = bs @ pending s' \<and> (bs = [] \<longrightarrow> pending s = [])"
  unfolding delivers_def by blast

lemma emitsD:
  "emits send wire \<Longrightarrow> p \<noteq> [] \<Longrightarrow> send s p = (r, s') \<Longrightarrow> r \<le> length p \<and> wire s' = wire s @ take r p"
  by (simp add: emits_def)

section \<open>The loops transfer whole blocks\<close>

lemma recv_all_block:
  assumes "delivers recv pending" and "length got \<le> n"
  shows "if n - length got \<le> length (pending s)
    then \<exists>s'. recv_all recv n got s = (Some (got @ take (n - length got) (pending s)), s') \<and>
           pending s' = drop (n - length got) (pending s)
    else \<exists>s'. recv_all recv n got s = (None, s')"
  using assms
proof (induction recv n got s rule: recv_all.induct)
  case (1 recv n got s)
  show ?case
  proof (cases "length got < n")
    case False
    with 1(3) show ?thesis by (simp add: recv_all.simps [of recv n got])
  next
    case True
    obtain bs s' where r: "recv s (n - length got) = (bs, s')" by (rule prod.exhaust)
    from deliversD [OF 1(2) _ r] True have bs: "length bs \<le> n - length got" "pending s = bs @ pending s'"
      "bs = [] \<Longrightarrow> pending s = []" by auto
    note step = recv_all.simps [of recv n got s] r True
    show ?thesis
    proof (cases "bs = []")
      case True
      with bs step show ?thesis by simp
    next
      case False
      note IH = 1(1) [OF True r [symmetric] False 1(2)]
      define m where "m = n - length (got @ bs)"
      from bs(1) True have len: "length (got @ bs) \<le> n" and rest: "n - length got = length bs + m"
        by (simp_all add: m_def)
      have "recv_all recv n got s = recv_all recv n (got @ bs) s'" using step False by simp
      with IH [OF len, folded m_def] show ?thesis
        by (simp add: bs(2) rest split: if_splits)
    qed
  qed
qed

text \<open>However the calls cut the stream, the result is the next \<open>n\<close> bytes of it.\<close>

lemma recv_all_cases [consumes 1, case_names full short]:
  assumes "delivers recv pending"
  obtains (full) s' where "n \<le> length (pending s)"
      "recv_all recv n [] s = (Some (take n (pending s)), s')" "pending s' = drop n (pending s)"
    | (short) s' where "length (pending s) < n" "recv_all recv n [] s = (None, s')"
  using recv_all_block [OF assms, of "[]" n s] by (auto simp: not_le split: if_splits)

lemma send_all_block:
  assumes "emits send wire"
  shows "case send_all send p s of (ok, s') \<Rightarrow>
    (if ok then wire s' = wire s @ p else \<exists>k<length p. wire s' = wire s @ take k p)"
  using assms
proof (induction send p s rule: send_all.induct)
  case (1 send p s)
  show ?case
  proof (cases "p = []")
    case True
    then show ?thesis by (simp add: send_all.simps)
  next
    case False
    obtain r s' where r: "send s p = (r, s')" by (rule prod.exhaust)
    from emitsD [OF 1(2) False r] have w: "r \<le> length p" "wire s' = wire s @ take r p" by auto
    note step = send_all.simps [of send p s] r False
    show ?thesis
    proof (cases "r = 0")
      case True
      with w step show ?thesis by (auto intro!: exI [of _ 0])
    next
      case False
      obtain ok s'' where rec: "send_all send (drop r p) s' = (ok, s'')" by (rule prod.exhaust)
      from 1(1) [OF \<open>p \<noteq> []\<close> r [symmetric] False 1(2)] rec
      have "if ok then wire s'' = wire s' @ drop r p else \<exists>k<length p - r. wire s'' = wire s' @ take k (drop r p)"
        by (simp split: if_splits)
      moreover have "take r p @ take k (drop r p) = take (r + k) p" for k by (rule take_add [symmetric])
      ultimately show ?thesis
        using step rec False w less_diff_conv by (auto simp: add.commute)
    qed
  qed
qed

section \<open>What the frame decoder needs of the stream\<close>

text \<open>\<open>stream_frame d\<close>: the answer of \<open>recv_frame\<close> as a function of the bytes to be delivered.\<close>

definition stream_frame :: "u8 list \<Rightarrow> string + Frame \<times> nat" where
  "stream_frame d =
     (let len = word_at 8 d 20 :: u64; n = header_size + unat len + 4
      in if length d < header_size then Inl ''eof''
      else if word_at 4 d 0 \<noteq> frame_magic \<or> word_at 4 d 4 \<noteq> frame_version \<or> unat len > max_payload
      then Inl ''badheader''
      else if length d < n then Inl ''eof''
      else (case decode_frame (take n d) of Inl err \<Rightarrow> Inl err | Inr (f, _) \<Rightarrow> Inr (f, n)))"

lemma word_at_take: "p + n \<le> m \<Longrightarrow> m \<le> length d \<Longrightarrow> word_at n (take m d) p = word_at n d p"
  unfolding word_at_def by (intro fold_cong) auto

lemma recv_frame_stream:
  assumes "delivers recv pending"
  shows "case recv_frame recv s of (x, s') \<Rightarrow>
    (case stream_frame (pending s) of Inl err \<Rightarrow> x = Inl err
     | Inr (f, n) \<Rightarrow> x = Inr f \<and> pending s' = drop n (pending s))"
proof -
  let ?d = "pending s"
  note defs = recv_frame_def stream_frame_def Let_def
  from assms show ?thesis
  proof (cases rule: recv_all_cases [where n = header_size and s = s])
    case (short s')
    then show ?thesis by (simp add: defs)
  next
    case hdr: (full s1)
    let ?len = "word_at 8 ?d 20 :: u64"
    have w: "word_at 4 (take header_size ?d) 0 = (word_at 4 ?d 0 :: u32)"
      "word_at 4 (take header_size ?d) 4 = (word_at 4 ?d 4 :: u32)"
      "word_at 8 (take header_size ?d) 20 = ?len"
      using hdr(1) by (simp_all add: word_at_take header_size_def)
    show ?thesis
    proof (cases "word_at 4 ?d 0 \<noteq> frame_magic \<or> word_at 4 ?d 4 \<noteq> frame_version \<or> unat ?len > max_payload")
      case True
      with hdr show ?thesis by (auto simp: defs w)
    next
      case good: False
      from assms show ?thesis
      proof (cases rule: recv_all_cases [where n = "unat ?len" and s = s1])
        case (short s')
        with hdr good show ?thesis by (auto simp: defs w)
      next
        case body: (full s2)
        from assms show ?thesis
        proof (cases rule: recv_all_cases [where n = 4 and s = s2])
          case (short s')
          with hdr body good show ?thesis by (auto simp: defs w)
        next
          case trailer: (full s3)
          have frame: "take header_size ?d @ take (unat ?len) (pending s1) @ take 4 (pending s2) =
              take (header_size + unat ?len + 4) ?d"
            unfolding body(3) hdr(3)
            by (simp only: take_add drop_drop append_assoc add.commute [of "unat ?len" header_size])
          have "pending s3 = drop (header_size + unat ?len + 4) ?d"
            unfolding trailer(3) body(3) hdr(3) by (simp add: add.commute add.left_commute)
          moreover have "header_size + unat ?len + 4 \<le> length ?d"
            using hdr(1) body(1) trailer(1) by (simp add: body(3) hdr(3))
          ultimately show ?thesis
            using hdr(1,2) body(2) trailer(2) good
            by (auto simp: defs w frame split: sum.split)
        qed
      qed
    qed
  qed
qed

lemma decode_frame_header:
  assumes "decode_frame d = Inr (f, n)"
  shows "header_size \<le> length d" and "n = header_size + unat (word_at 8 d 20 :: u64) + 4" and "n \<le> length d"
    and "word_at 4 d 0 = frame_magic" and "word_at 4 d 4 = frame_version"
    and "unat (word_at 8 d 20 :: u64) \<le> max_payload"
  using assms
  by (auto simp: decode_frame_def read_header_def get32_def get64_def header_size_def Let_def
      split: if_splits option.splits)

lemma decode_frame_take: "decode_frame d = Inr (f, n) \<Longrightarrow> decode_frame (take n d) = Inr (f, n)"
  unfolding decode_frame_iff by auto

lemma decode_frame_extend:
  assumes "decode_frame (take m d) = Inr (f, n)"
  shows "decode_frame d = Inr (f, n)"
proof -
  from assms have f: "sendable f" "n = header_size + length (f_payload f) + 4"
    and n: "n \<le> length (take m d)" and bytes: "take n (take m d) = frame_bytes f"
    unfolding decode_frame_iff by blast+
  from n have "n \<le> length d" "take n (take m d) = take n d" by simp_all
  with f bytes show ?thesis unfolding decode_frame_iff by simp
qed

lemma stream_frame_iff: "stream_frame d = Inr (f, n) \<longleftrightarrow> decode_frame d = Inr (f, n)"
proof
  assume s: "stream_frame d = Inr (f, n)"
  let ?m = "header_size + unat (word_at 8 d 20 :: u64) + 4"
  from s have "header_size \<le> length d" "?m \<le> length d" "n = ?m"
    and "\<exists>k. decode_frame (take ?m d) = Inr (f, k)"
    by (auto simp: stream_frame_def Let_def not_less split: if_splits sum.splits)
  then obtain k where "decode_frame (take ?m d) = Inr (f, k)" by blast
  note dec = decode_frame_extend [OF this]
  from decode_frame_header(2) [OF dec] \<open>n = ?m\<close> have "k = n" by simp
  with dec show "decode_frame d = Inr (f, n)" by simp
next
  assume dec: "decode_frame d = Inr (f, n)"
  note h = decode_frame_header [OF dec]
  from decode_frame_take [OF dec] show "stream_frame d = Inr (f, n)"
    using h(1,3-6) by (simp add: stream_frame_def Let_def flip: h(2)) 
qed

text \<open>A frame of a kind that the decoder refuses passes the checks of the header and fails at its kind.\<close>

lemma stream_frame_refused_kind:
  assumes "encode_frame k s p \<noteq> []" and "k \<in> {MK_UNKNOWN, MK_MAX}"
  shows "stream_frame (encode_frame k s p @ later) = Inl ''INVALID_ENUM''"
proof -
  let ?e = "encode_frame k s p" and ?n = "header_size + length p + 4"
  let ?h = "frame_header k s (of_nat (length p))"
  from assms(1) have fits: "length p \<le> max_payload"
    and e: "?e = ?h @ p @ put_u32 (crc32 (?h @ p))"
    by (auto simp: encode_frame_def Let_def not_less split: if_splits)
  have len: "length ?e = ?n" by (simp add: e frame_header_parts)
  have header: "read_header (?e @ bs) =
      Some (frame_magic, frame_version, message_kind_code k, s, of_nat (length p))" for bs
  proof -
    have "take header_size (?e @ bs) = ?h" by (simp add: e frame_header_parts)
    moreover have "header_size \<le> length (?e @ bs)" using len by simp
    ultimately show ?thesis using header_words unfolding frame_header_def by blast
  qed
  have "decode_frame ?e = Inl ''INVALID_ENUM''"
    using header [of "[]"] len assms(2) by (auto simp: decode_frame_def)
  moreover have "word_at 4 (?e @ later) 0 = frame_magic" "word_at 4 (?e @ later) 4 = frame_version"
    "word_at 8 (?e @ later) 20 = (of_nat (length p) :: u64)"
    using header [of later] by (auto simp: read_header_def get32_def get64_def split: if_splits)
  ultimately show ?thesis
    using fits len by (simp add: stream_frame_def payload_length)
qed

section \<open>A peer cannot keep the receiver busy\<close>

text \<open>The system call with a counter of its calls.\<close>

definition counting :: "'s recv_call \<Rightarrow> ('s \<times> nat) recv_call" where
  "counting recv x n = (case x of (s, k) \<Rightarrow> (case recv s n of (bs, s') \<Rightarrow> (bs, (s', k + 1))))"

lemma recv_all_calls:
  "length got \<le> n \<Longrightarrow> recv_all (counting recv) n got (s, k) = (x, (s', k')) \<Longrightarrow> k' \<le> k + (n - length got)"
proof (induction "n - length got" arbitrary: got s k rule: less_induct)
  case less
  show ?case
  proof (cases "length got < n")
    case False
    with less(3) show ?thesis by (simp add: recv_all.simps)
  next
    case True
    obtain bs s1 where r: "recv s (n - length got) = (bs, s1)" by (rule prod.exhaust)
    show ?thesis
    proof (cases "bs = []")
      case empty: True
      with True less(3) r show ?thesis by (auto simp: recv_all.simps counting_def)
    next
      case False
      then have pos: "0 < length bs" by simp
      have step: "recv_all (counting recv) n (got @ bs) (s1, k + 1) = (x, (s', k'))"
        using less(3) True False r by (simp add: recv_all.simps [of _ n got] counting_def)
      show ?thesis
      proof (cases "length (got @ bs) \<le> n")
        case fits: True
        from pos True have "n - length (got @ bs) < n - length got"
          unfolding length_append by linarith
        from less(1) [OF this fits step] pos fits show ?thesis
          unfolding length_append by linarith
      next
        case over: False
        with step have "k' = k + 1" by (simp add: recv_all.simps)
        with True show ?thesis by simp
      qed
    qed
  qed
qed

lemma recv_all_calls_empty:
  "recv_all (counting recv) n [] (s, k) = (x, (s', k')) \<Longrightarrow> k' \<le> k + n"
  using recv_all_calls [of "[]" n recv s k] by simp

section \<open>Properties\<close>

text \<open>C27. Receiving a frame from a socket is decoding the stream, however the system cuts it into
  calls: \<open>recv_frame\<close> returns a frame and leaves \<open>later\<close> to be delivered if and only if
  \<open>decode_frame\<close> finds that frame at the front of the bytes to be delivered and \<open>later\<close> is what
  follows it. Every other stream is answered with an error.\<close>

theorem recv_frame_refines_decoder:
  assumes "delivers recv pending"
  shows "((\<exists>s'. recv_frame recv s = (Inr f, s') \<and> pending s' = later) \<longleftrightarrow>
      (\<exists>n. decode_frame (pending s) = Inr (f, n) \<and> later = drop n (pending s))) \<and>
    ((\<nexists>f n. decode_frame (pending s) = Inr (f, n)) \<longleftrightarrow> (\<exists>err s'. recv_frame recv s = (Inl err, s')))"
proof -
  obtain x s' where r: "recv_frame recv s = (x, s')" by (rule prod.exhaust)
  show ?thesis
  proof (cases "stream_frame (pending s)")
    case (Inl err)
    with recv_frame_stream [OF assms, of s] r have "x = Inl err" by simp
    with r Inl show ?thesis by (auto simp flip: stream_frame_iff)
  next
    case (Inr y)
    then obtain g n where y: "stream_frame (pending s) = Inr (g, n)" by (cases y) simp
    with recv_frame_stream [OF assms, of s] r have "x = Inr g" "pending s' = drop n (pending s)" by simp_all
    with r y show ?thesis by (auto simp flip: stream_frame_iff)
  qed
qed

text \<open>C28. A frame that was sent is received: when \<open>send_frame\<close> succeeds on any kind but \<open>UNKNOWN\<close>
  and the sentinel \<open>MAX\<close>, whatever it appended to the wire is read by \<open>recv_frame\<close> at the other end
  as the same kind, sequence number and payload, and the bytes behind it stay in place for the
  next frame. \<open>send_frame\<close> does not look at the kind: a frame of one of the two is sent as well, and
  \<open>recv_frame\<close> answers it with \<open>INVALID_ENUM\<close>.\<close>

theorem frame_crosses_socket:
  assumes "emits send wire" and "delivers recv pending"
    and "send_frame send kind seq payload s = (True, s')" and "wire s' @ later = wire s @ pending t"
  shows "if kind \<in> {MK_UNKNOWN, MK_MAX} then fst (recv_frame recv t) = Inl ''INVALID_ENUM''
    else \<exists>t'. recv_frame recv t = (Inr \<lparr>f_kind = kind, f_seq = seq, f_payload = payload\<rparr>, t') \<and>
      pending t' = later"
proof -
  let ?f = "\<lparr>f_kind = kind, f_seq = seq, f_payload = payload\<rparr>" and ?e = "encode_frame kind seq payload"
  from assms(3) have ne: "?e \<noteq> []" and all: "send_all send ?e s = (True, s')"
    by (auto simp: send_frame_def Let_def split: if_splits)
  from send_all_block [OF assms(1), where p = ?e and s = s] all have "wire s' = wire s @ ?e" by simp
  with assms(4) have stream: "pending t = frame_bytes ?f @ later" by (simp add: frame_bytes_def)
  let ?n = "length (frame_bytes ?f)"
  show ?thesis
  proof (cases "kind \<in> {MK_UNKNOWN, MK_MAX}")
    case True
    with ne stream have "stream_frame (pending t) = Inl ''INVALID_ENUM''"
      by (simp add: stream_frame_refused_kind frame_bytes_def)
    with recv_frame_stream [OF assms(2), of t] True show ?thesis
      by (cases "recv_frame recv t") simp
  next
    case False
    with ne have fits: "sendable ?f"
      by (auto simp: sendable_def encode_frame_def not_less split: if_splits)
    have "decode_frame (pending t) = Inr (?f, ?n)"
      unfolding decode_frame_iff stream using fits frame_bytes_length [OF fits] by simp
    then have "stream_frame (pending t) = Inr (?f, ?n)" by (simp add: stream_frame_iff)
    with recv_frame_stream [OF assms(2), of t] stream False show ?thesis
      by (cases "recv_frame recv t") simp
  qed
qed

text \<open>C31. A peer cannot keep the receiver in its loop: whatever the system call returns, even if it
  breaks its contract, \<open>recv_frame\<close> returns after at most 16777248 calls of it.\<close>

theorem recv_frame_returns:
  "snd (snd (recv_frame (counting recv) (s, 0))) \<le> header_size + max_payload + 4"
proof -
  note calls = recv_all_calls_empty
  obtain x1 s1 k1 where hdr: "recv_all (counting recv) header_size [] (s, 0) = (x1, (s1, k1))"
    by (metis surj_pair)
  show ?thesis
  proof (cases x1)
    case None
    with hdr calls [OF hdr] show ?thesis by (simp add: recv_frame_def)
  next
    case (Some h)
    let ?len = "word_at 8 h 20 :: u64"
    show ?thesis
    proof (cases "word_at 4 h 0 \<noteq> frame_magic \<or> word_at 4 h 4 \<noteq> frame_version \<or> unat ?len > max_payload")
      case True
      with hdr Some calls [OF hdr] show ?thesis by (auto simp: recv_frame_def Let_def)
    next
      case False
      obtain x2 s2 k2 where body: "recv_all (counting recv) (unat ?len) [] (s1, k1) = (x2, (s2, k2))"
        by (metis surj_pair)
      obtain x3 s3 k3 where trailer: "recv_all (counting recv) 4 [] (s2, k2) = (x3, (s3, k3))"
        by (metis surj_pair)
      from calls [OF hdr] calls [OF body] calls [OF trailer] False
      have "k2 \<le> header_size + max_payload + 4" "k3 \<le> header_size + max_payload + 4" by linarith+
      with hdr body trailer Some False show ?thesis
        by (auto simp: recv_frame_def Let_def split: option.split sum.split)
    qed
  qed
qed

section \<open>The coordinator's copies\<close>

text \<open>\<open>tools/coordinator.cpp\<close> has the four functions a second time. Here they are with the index into
  a buffer that the code keeps, and they do what the first four do.\<close>

function coord_send_all :: "'s send_call \<Rightarrow> u8 list \<Rightarrow> nat \<Rightarrow> 's \<Rightarrow> bool \<times> 's" where
  "coord_send_all send p sent s =
     (if sent < length p then
        (case send s (drop sent p) of (r, s') \<Rightarrow>
           if r = 0 then (False, s') else coord_send_all send p (sent + r) s')
      else (True, s))"
  by pat_completeness auto
termination by (relation "measure (\<lambda>(send, p, sent, s). length p - sent)") auto

declare coord_send_all.simps [simp del]

definition coord_send_frame :: "'s send_call \<Rightarrow> MessageKind \<Rightarrow> u64 \<Rightarrow> u8 list \<Rightarrow> 's \<Rightarrow> bool \<times> 's" where
  "coord_send_frame send kind seq payload s =
     (let f = encode_frame kind seq payload
      in if f \<noteq> [] then coord_send_all send f 0 s else (False, s))"

function coord_recv_all :: "'s recv_call \<Rightarrow> u8 list \<Rightarrow> nat \<Rightarrow> 's \<Rightarrow> u8 list option \<times> 's" where
  "coord_recv_all recv p got s =
     (if got < length p then
        (case recv s (length p - got) of (bs, s') \<Rightarrow>
           if bs = [] then (None, s')
           else coord_recv_all recv (take got p @ bs @ drop (got + length bs) p) (got + length bs) s')
      else (Some p, s))"
  by pat_completeness auto
termination
  by (relation "measure (\<lambda>(recv, p, got, s). length p - got)")
    (auto simp flip: length_greater_0_conv)

declare coord_recv_all.simps [simp del]

definition coord_recv_frame :: "'s recv_call \<Rightarrow> 's \<Rightarrow> (string + Frame) \<times> 's" where
  "coord_recv_frame recv s =
     (case coord_recv_all recv (replicate header_size 0) 0 s of
        (None, s1) \<Rightarrow> (Inl ''eof'', s1)
      | (Some hdr, s1) \<Rightarrow>
          (let magic = word_at 4 hdr 0; ver = word_at 4 hdr 4; len = word_at 8 hdr 20 :: u64
           in if magic \<noteq> frame_magic \<or> ver \<noteq> frame_version \<or> unat len > max_payload
              then (Inl ''badheader'', s1)
              else case coord_recv_all recv (replicate (unat len) 0) 0 s1 of
                (None, s2) \<Rightarrow> (Inl ''eof'', s2)
              | (Some body, s2) \<Rightarrow>
                  (case coord_recv_all recv (replicate 4 0) 0 s2 of
                     (None, s3) \<Rightarrow> (Inl ''eof'', s3)
                   | (Some trailer, s3) \<Rightarrow>
                       (case decode_frame (hdr @ body @ trailer) of
                          Inl err \<Rightarrow> (Inl err, s3)
                        | Inr (f, consumed) \<Rightarrow> (Inr f, s3)))))"

lemma coord_send_all_eq: "coord_send_all send p sent s = send_all send (drop sent p) s"
proof (induction send p sent s rule: coord_send_all.induct)
  case (1 send p sent s)
  show ?case
  proof (cases "sent < length p")
    case True
    with 1 [OF True] show ?thesis
      by (simp add: coord_send_all.simps [of _ _ sent] send_all.simps [of _ "drop sent p"] add.commute
          split: prod.split)
  next
    case False
    then show ?thesis by (simp add: coord_send_all.simps send_all.simps)
  qed
qed

lemma coord_recv_all_eq:
  "got \<le> length p \<Longrightarrow> coord_recv_all recv p got s = recv_all recv (length p) (take got p) s"
proof (induction recv p got s rule: coord_recv_all.induct)
  case (1 recv p got s)
  note steps = coord_recv_all.simps [of recv p got] recv_all.simps [of recv "length p" "take got p"]
  obtain bs s' where r: "recv s (length p - got) = (bs, s')" by (rule prod.exhaust)
  show ?case
  proof (cases "got < length p \<and> bs \<noteq> []")
    case True
    let ?p = "take got p @ bs @ drop (got + length bs) p"
    have IH: "coord_recv_all recv ?p (got + length bs) s' =
        recv_all recv (length ?p) (take got p @ bs) s'"
      using 1(1) [OF _ r [symmetric]] True by simp
    have "recv_all recv (length ?p) (take got p @ bs) s' = recv_all recv (length p) (take got p @ bs) s'"
    proof (cases "got + length bs \<le> length p")
      case False
      with True show ?thesis by (simp add: recv_all.simps)
    qed simp
    with IH True r 1(2) show ?thesis by (simp add: steps)
  next
    case False
    with 1(2) r show ?thesis by (auto simp: steps)
  qed
qed

lemma coord_send_frame_eq: "coord_send_frame = send_frame"
  by (intro ext) (simp add: coord_send_frame_def send_frame_def coord_send_all_eq Let_def)

lemma coord_recv_frame_eq: "coord_recv_frame = recv_frame"
proof -
  have "coord_recv_all recv (replicate n 0) 0 s = recv_all recv n [] s" for recv :: "'a recv_call" and n s
    by (simp add: coord_recv_all_eq)
  then show ?thesis by (intro ext) (unfold coord_recv_frame_def recv_frame_def, simp only:)
qed

section \<open>Witnesses\<close>

text \<open>A stream that is cut at given sizes, each at least one byte.\<close>

definition chunk_recv :: "(u8 list \<times> nat list) recv_call" where
  "chunk_recv x n =
     (case x of (d, []) \<Rightarrow> (take n d, (drop n d, []))
      | (d, k # ks) \<Rightarrow> (let m = max 1 (min k n) in (take m d, (drop m d, ks))))"

definition chunk_send :: "(u8 list \<times> nat list) send_call" where
  "chunk_send x p =
     (case x of (w, []) \<Rightarrow> (length p, (w @ p, []))
      | (w, k # ks) \<Rightarrow> (let m = max 1 (min k (length p)) in (m, (w @ take m p, ks))))"

lemma chunk_delivers: "delivers chunk_recv fst"
  by (auto simp: delivers_def chunk_recv_def Let_def split: list.splits)

lemma chunk_emits: "emits chunk_send fst"
  by (auto simp: emits_def chunk_send_def Let_def Suc_leI split: list.splits)

abbreviation hello_frame :: Frame where
  "hello_frame \<equiv> \<lparr>f_kind = MK_HELLO, f_seq = 1, f_payload = [5, 6]\<rparr>"

lemma hello_frame_decodes:
  "decode_frame (frame_bytes hello_frame @ [9]) = Inr (hello_frame, length (frame_bytes hello_frame))"
proof -
  have "sendable hello_frame" by (simp add: sendable_def max_payload_def)
  with frame_bytes_length [OF this] show ?thesis unfolding decode_frame_iff by simp
qed

theorem recv_frame_refines_decoder_witness:
  "\<exists>s'. recv_frame chunk_recv (frame_bytes hello_frame @ [9], [3, 1, 7]) = (Inr hello_frame, s') \<and> fst s' = [9]"
  using recv_frame_refines_decoder [OF chunk_delivers, of "(frame_bytes hello_frame @ [9], [3, 1, 7])" hello_frame "[9]"]
    hello_frame_decodes by simp

theorem frame_crosses_socket_witness:
  "\<exists>w t'. send_frame chunk_send MK_HELLO 1 [5, 6] ([], [10, 2]) = (True, w) \<and>
     recv_frame chunk_recv (fst w @ [9], [3, 1, 7]) = (Inr hello_frame, t') \<and> fst t' = [9]"
proof -
  have "fst (send_all chunk_send p (w, ks))" for p w ks
    by (induction chunk_send p "(w, ks)" arbitrary: w ks rule: send_all.induct) 
       (subst send_all.simps, auto simp: chunk_send_def Let_def split: list.splits)
  then obtain w where w: "send_frame chunk_send MK_HELLO 1 [5, 6] ([], [10, 2]) = (True, w)"
    by (simp add: send_frame_def Let_def encode_frame_def max_payload_def) (metis prod.collapse)
  show ?thesis
    using frame_crosses_socket [OF chunk_emits chunk_delivers w, of "[9]" "(fst w @ [9], [3, 1, 7])"] w
    by auto
qed

end
