(* ===== verification/Worker.thy ===== *)
theory Worker
  imports Transport Wire
begin

text \<open>
  The worker process (\<open>tools/worker.cpp\<close>), and what both tools do with the payload decoders:
  they call them and ignore the result, so what counts is what a decoder has assigned to its
  output parameters when it stops. A \<open>filler\<close> is a decoder in that view: it takes the output
  parameters as they are and returns whether it succeeded, and the parameters as it left them.
\<close>

section \<open>Decoders and their output parameters\<close>

type_synonym 'x filler = "'x \<Rightarrow> Reader \<Rightarrow> bool \<times> 'x"

definition fill_done :: "'x filler" where
  "fill_done x r = (True, x)"

definition fill_read :: "'a decoder \<Rightarrow> ('a \<Rightarrow> 'x filler) \<Rightarrow> 'x filler" where
  "fill_read m f x r = (case m r of (None, _) \<Rightarrow> (False, x) | (Some a, r') \<Rightarrow> f a x r')"

definition fill_cast :: "'a option \<Rightarrow> ('a \<Rightarrow> 'x filler) \<Rightarrow> 'x filler" where
  "fill_cast c f x r = (case c of None \<Rightarrow> (False, x) | Some a \<Rightarrow> f a x r)"

definition fill_set :: "('x \<Rightarrow> 'x) \<Rightarrow> 'x filler \<Rightarrow> 'x filler" where
  "fill_set g k x r = k (g x) r"

definition fill_u64 :: "(u64 \<Rightarrow> 'x \<Rightarrow> 'x) \<Rightarrow> 'x filler \<Rightarrow> 'x filler" where
  "fill_u64 g k = fill_read rd_u64 (\<lambda>v. fill_set (g v) k)"

definition read_descriptor_into :: "BufferDescriptor filler" where
  "read_descriptor_into =
     fill_u64 (\<lambda>v d. d\<lparr>bd_id := StrongId v\<rparr>) (
     fill_u64 (\<lambda>v d. d\<lparr>bd_generation := StrongGeneration v\<rparr>) (
     fill_read rd_u8 (\<lambda>u. fill_cast (memory_domain_of_code u) (\<lambda>m. fill_set (\<lambda>d. d\<lparr>bd_domain := m\<rparr>) (
     fill_u64 (\<lambda>v d. d\<lparr>bd_base := (bd_base d)\<lparr>bp_address := v\<rparr>\<rparr>) (
     fill_read rd_u8 (\<lambda>u. fill_cast (pointer_kind_of_code u) (\<lambda>k.
       fill_set (\<lambda>d. d\<lparr>bd_base := (bd_base d)\<lparr>bp_kind := k\<rparr>\<rparr>) (
     fill_u64 (\<lambda>v d. d\<lparr>bd_byte_length := v\<rparr>) (
     fill_u64 (\<lambda>v d. d\<lparr>bd_alignment := v\<rparr>) (
     fill_u64 (\<lambda>v d. d\<lparr>bd_page_size := v\<rparr>) (
     fill_u64 (\<lambda>v d. d\<lparr>bd_owner := StrongId v\<rparr>) (
     fill_u64 (\<lambda>v d. d\<lparr>bd_process := StrongId v\<rparr>) (
     fill_u64 (\<lambda>v d. d\<lparr>bd_worker := StrongId v\<rparr>) (
     fill_u64 (\<lambda>v d. d\<lparr>bd_node := StrongId v\<rparr>) (
     fill_u64 (\<lambda>v d. d\<lparr>bd_device := StrongId v\<rparr>) (
     fill_read rd_u8 (\<lambda>dr. fill_read rd_u8 (\<lambda>am. fill_read rd_u8 (\<lambda>rm.
     fill_read rd_u8 (\<lambda>lt. fill_read rd_u8 (\<lambda>pv. fill_read rd_u8 (\<lambda>fr.
     fill_cast (transfer_direction_of_code dr) (\<lambda>direction.
     fill_cast (registration_mode_of_code rm) (\<lambda>mode.
     fill_cast (lifetime_policy_of_code lt) (\<lambda>lifetime.
     fill_cast (provenance_of_code pv) (\<lambda>provenance.
     fill_cast (freshness_of_code fr) (\<lambda>freshness.
     fill_set (\<lambda>d. d\<lparr>bd_direction := direction, bd_requested_access := am,
       bd_registration_mode := mode, bd_lifetime := lifetime, bd_provenance := provenance,
       bd_freshness := freshness\<rparr>) (
     fill_u64 (\<lambda>v d. d\<lparr>bd_policy_generation := StrongGeneration v\<rparr>)
     fill_done)))))))))))))))))))))))))))))"

definition default_descriptor :: BufferDescriptor where
  "default_descriptor =
     \<lparr>bd_id = no_id, bd_generation = no_gen, bd_domain = MD_UNKNOWN,
      bd_base = \<lparr>bp_address = 0, bp_kind = PK_UNKNOWN\<rparr>, bd_byte_length = 0, bd_alignment = 1,
      bd_page_size = 0, bd_owner = no_id, bd_process = no_id, bd_worker = no_id, bd_node = no_id,
      bd_device = no_id, bd_direction = TD_NONE, bd_requested_access = 0,
      bd_registration_mode = RM_ANY, bd_lifetime = LP_TRANSACTIONAL, bd_provenance = PV_UNKNOWN,
      bd_freshness = FR_UNKNOWN, bd_policy_generation = no_gen\<rparr>"

text \<open>The parameters of the three calls, from the values the tools initialise them with.\<close>

definition decode_register_into :: "u8 list \<Rightarrow> bool \<times> BufferDescriptor \<times> u64 \<times> u64" where
  "decode_register_into p =
     (case rd_u64 (new_reader p) of
        (None, _) \<Rightarrow> (False, default_descriptor, 0, 0)
      | (Some domain, r1) \<Rightarrow>
          (case rd_u64 r1 of
             (None, _) \<Rightarrow> (False, default_descriptor, domain, 0)
           | (Some backend, r2) \<Rightarrow>
               (case read_descriptor_into default_descriptor r2 of
                  (ok, d) \<Rightarrow> (ok, d, domain, backend))))"

definition decode_access_into :: "u8 list \<Rightarrow> bool \<times> AccessPayload" where
  "decode_access_into p =
     fill_u64 (\<lambda>v a. a\<lparr>ap_reg := v\<rparr>) (fill_u64 (\<lambda>v a. a\<lparr>ap_off := v\<rparr>) (
     fill_u64 (\<lambda>v a. a\<lparr>ap_len := v\<rparr>) (fill_u64 (\<lambda>v a. a\<lparr>ap_kind := v\<rparr>) (
     fill_read rd_u8 (\<lambda>u. fill_set (\<lambda>a. a\<lparr>ap_access := u\<rparr>) (
     fill_u64 (\<lambda>v a. a\<lparr>ap_boot := v\<rparr>) (fill_u64 (\<lambda>v a. a\<lparr>ap_expkeygen := v\<rparr>) fill_done)))))))
     \<lparr>ap_reg = 0, ap_off = 0, ap_len = 0, ap_kind = 0, ap_access = 0, ap_boot = 0, ap_expkeygen = 0\<rparr>
     (new_reader p)"

definition decode_hello_ack_into :: "u8 list \<Rightarrow> bool \<times> u64 \<times> u64 \<times> u64" where
  "decode_hello_ack_into p =
     fill_u64 (\<lambda>v (boot, epoch, node). (v, epoch, node)) (
     fill_u64 (\<lambda>v (boot, epoch, node). (boot, v, node)) (
     fill_u64 (\<lambda>v (boot, epoch, node). (boot, epoch, v)) fill_done)) (0, 0, 0) (new_reader p)"

text \<open>\<open>ok\<close> is assigned last, so it stays \<open>false\<close> when the payload is malformed.\<close>

definition register_acknowledged :: "u8 list \<Rightarrow> bool" where
  "register_acknowledged p =
     (case decode_register_ack p of None \<Rightarrow> False | Some (ok, _, _, _) \<Rightarrow> ok)"

text \<open>With exactly \<open>bs\<close> unread, the filler succeeds and turns \<open>x\<close> into \<open>y\<close>.\<close>

definition fills :: "'x filler \<Rightarrow> u8 list \<Rightarrow> 'x \<Rightarrow> 'x \<Rightarrow> bool" where
  "fills m bs x y \<longleftrightarrow> (\<forall>r. rest r = bs \<longrightarrow> m x r = (True, y))"

lemma fills_done: "fills fill_done bs x x"
  by (simp add: fills_def fill_done_def)

lemma fills_read: "reads m bs v \<Longrightarrow> fills (f v) post x y \<Longrightarrow> fills (fill_read m f) (bs @ post) x y"
  by (simp add: fills_def fill_read_def readsD)

lemma fills_cast: "c = Some a \<Longrightarrow> fills (f a) post x y \<Longrightarrow> fills (fill_cast c f) post x y"
  by (simp add: fills_def fill_cast_def)

lemma fills_set: "fills k post (g x) y \<Longrightarrow> fills (fill_set g k) post x y"
  by (simp add: fills_def fill_set_def)

lemma fills_u64: "fills k post (g v x) y \<Longrightarrow> fills (fill_u64 g k) (put_u64 v @ post) x y"
  unfolding fill_u64_def by (intro fills_read [OF reads_u64] fills_set)

lemma fills_u64_last: "g v x = y \<Longrightarrow> fills (fill_u64 g fill_done) (put_u64 v) x y"
  using fills_u64 [OF fills_done, where g = g and v = v and x = x and post = "[]"] by simp

lemmas fills_rules = fills_u64_last fills_u64 fills_read [OF reads_u8] fills_cast fills_set

lemma fills_descriptor: "fills read_descriptor_into (write_descriptor d) x d"
  unfolding read_descriptor_into_def write_descriptor_def
  by ((rule fills_rules of_codes)+, simp)

text \<open>What was encoded is filled in, so a well-formed payload is served as it was sent.\<close>

lemma fill_reads: "reads m bs v \<Longrightarrow> rest r = bs @ post \<Longrightarrow> fill_read m f x r = f v x (advance (length bs) r)"
  by (simp add: fill_read_def readsD)

lemma fillsD: "fills m bs x y \<Longrightarrow> rest r = bs \<Longrightarrow> m x r = (True, y)"
  by (simp add: fills_def)

lemma rest_new_reader [simp]: "rest (new_reader bs) = bs"
  by (simp add: rest_def new_reader_def)

lemma decode_register_into_encoded:
  "decode_register_into (encode_register d domain backend) = (True, d, domain, backend)"
proof -
  let ?p = "encode_register d domain backend"
  have r1: "rd_u64 (new_reader ?p) = (Some domain, advance 8 (new_reader ?p))"
    using readsD [OF reads_u64, of "new_reader ?p" domain] by (simp add: encode_register_def)
  have r2: "rd_u64 (advance 8 (new_reader ?p)) = (Some backend, advance 16 (new_reader ?p))"
    using readsD [OF reads_u64, of "advance 8 (new_reader ?p)" backend] by (simp add: encode_register_def)
  have "read_descriptor_into default_descriptor (advance 16 (new_reader ?p)) = (True, d)"
    by (rule fillsD [OF fills_descriptor]) (simp add: encode_register_def)
  then show ?thesis by (simp add: decode_register_into_def r1 r2)
qed

lemma decode_access_into_encoded: "decode_access_into (encode_access a) = (True, a)"
  unfolding decode_access_into_def
  by (rule fillsD [where bs = "encode_access a"], unfold encode_access_def, (rule fills_rules)+)
    (simp_all add: encode_access_def)

lemma decode_hello_ack_into_encoded:
  "decode_hello_ack_into (encode_hello_ack boot epoch node) = (True, boot, epoch, node)"
  unfolding decode_hello_ack_into_def
  by (rule fillsD [where bs = "encode_hello_ack boot epoch node"], unfold encode_hello_ack_def,
      (rule fills_rules)+) (simp_all add: encode_hello_ack_def)

section \<open>Decimal arguments\<close>

text \<open>\<open>std::strtoull\<close> in base 10: white space, a sign, the digits, saturation.\<close>

definition is_space :: "char \<Rightarrow> bool" where
  "is_space c \<longleftrightarrow> c = CHR '' '' \<or> 9 \<le> (of_char c :: nat) \<and> (of_char c :: nat) \<le> 13"

definition is_digit :: "char \<Rightarrow> bool" where
  "is_digit c \<longleftrightarrow> 48 \<le> (of_char c :: nat) \<and> (of_char c :: nat) \<le> 57"

definition strtoull10 :: "string \<Rightarrow> u64" where
  "strtoull10 s =
     (let s1 = dropWhile is_space s;
          negative = (s1 \<noteq> [] \<and> hd s1 = CHR ''-'');
          s2 = (if s1 \<noteq> [] \<and> (hd s1 = CHR ''-'' \<or> hd s1 = CHR ''+'') then tl s1 else s1);
          n = foldl (\<lambda>n c. 10 * n + (of_char c - 48)) (0 :: nat) (takeWhile is_digit s2)
      in if n \<ge> 2 ^ 64 then - 1 else if negative then - of_nat n else of_nat n)"

lemma digit_char_code: "d < 10 \<Longrightarrow> (of_char (digit_char d) :: nat) = 48 + d"
proof -
  assume "d < 10"
  moreover have "list_all (\<lambda>d. (of_char (digit_char d) :: nat) = 48 + d) [0..<10]" by code_simp
  ultimately show ?thesis by (simp add: list_all_iff)
qed

lemma digits_value:
  "list_all is_digit (digits 10 n) \<and> foldl (\<lambda>n c. 10 * n + (of_char c - 48)) 0 (digits 10 n) = n"
proof (induction n rule: less_induct)
  case (less n)
  have last: "is_digit (digit_char (n mod 10))" "(of_char (digit_char (n mod 10)) :: nat) = 48 + n mod 10"
    using digit_char_code [of "n mod 10"] by (simp_all add: is_digit_def)
  show ?case
  proof (cases "n < 10")
    case True
    with last show ?thesis by (simp add: digits.simps [of 10 n])
  next
    case False
    with less [of "n div 10"] last show ?thesis
      by (simp add: digits.simps [of 10 n])
  qed
qed

text \<open>\<open>strtoull\<close> reads back what \<open>std::to_string\<close> wrote.\<close>

lemma strtoull10_int_to_str: "strtoull10 (int_to_str v) = v"
proof -
  let ?s = "int_to_str v"
  from digits_value [of "unat v"] have digits: "list_all is_digit ?s"
    and val: "foldl (\<lambda>n c. 10 * n + (of_char c - 48)) 0 ?s = unat v"
    by (simp_all add: int_to_str_def)
  have take: "takeWhile is_digit ?s = ?s" using digits by (simp add: list_all_iff)
  have ne: "?s \<noteq> []" by (simp add: int_to_str_def)
  with digits have "is_digit (hd ?s)" by (cases ?s) simp_all
  then have hd: "\<not> is_space (hd ?s)" "hd ?s \<noteq> CHR ''-''" "hd ?s \<noteq> CHR ''+''"
    by (auto simp: is_digit_def is_space_def)
  then have drop: "dropWhile is_space ?s = ?s" by (cases ?s) simp_all
  have "unat v < 18446744073709551616" using unsigned_less [of v] by simp
  then show ?thesis
    using hd ne by (simp add: strtoull10_def Let_def drop take val)
qed

section \<open>The worker\<close>

text \<open>The answers of the system and of the peer, in the order the worker asks for them.\<close>

record WorkerIo =
  wi_socket :: bool
  wi_connects :: bool
  wi_hello_sent :: bool
  wi_hello :: "string + Frame"
  wi_request_sent :: bool
  wi_ack :: "string + Frame"

text \<open>The frames handed to \<open>send_frame\<close>, and the exit code; \<open>None\<close> is the endless sleep of a
  worker that holds its registration.\<close>

record WorkerRun =
  wr_frames :: "Frame list"
  wr_exit :: "int option"

definition worker_descriptor :: BufferDescriptor where
  "worker_descriptor =
     default_descriptor
       \<lparr>bd_id := StrongId 1, bd_generation := StrongGeneration 1,
        bd_domain := MD_SYNTHETIC_REMOTE_CAPABLE,
        bd_base := \<lparr>bp_address = 0x1000, bp_kind = PK_SYNTHETIC\<rparr>,
        bd_byte_length := 4096, bd_alignment := 4096, bd_page_size := 4096, bd_owner := StrongId 1,
        bd_process := StrongId 1, bd_worker := StrongId 1, bd_node := StrongId 1,
        bd_direction := TD_BIDIRECTIONAL,
        bd_requested_access := access_mask AR_REMOTE_READ OR access_mask AR_REMOTE_WRITE,
        bd_registration_mode := RM_REMOTE_ACCESS, bd_lifetime := LP_TRANSACTIONAL,
        bd_provenance := PV_SYNTHETIC, bd_freshness := FR_VALID,
        bd_policy_generation := StrongGeneration 1\<rparr>"

text \<open>\<open>argc > i ? strtoull(argv[i]) : d\<close>\<close>

definition numeric_arg :: "string list \<Rightarrow> nat \<Rightarrow> u64 \<Rightarrow> u64" where
  "numeric_arg argv i d = (if length argv > i then strtoull10 (argv ! i) else d)"

definition worker_access :: "string list \<Rightarrow> u64 \<Rightarrow> AccessPayload" where
  "worker_access argv boot =
     \<lparr>ap_reg = numeric_arg argv 4 1, ap_off = 0, ap_len = 4, ap_kind = numeric_arg argv 7 1,
      ap_access = access_mask AR_REMOTE_WRITE, ap_boot = numeric_arg argv 5 boot,
      ap_expkeygen = numeric_arg argv 6 1\<rparr>"

definition worker_register :: "string \<Rightarrow> Frame list \<Rightarrow> WorkerIo \<Rightarrow> WorkerRun" where
  "worker_register role sent io =
     (let frames = sent @ [\<lparr>f_kind = MK_REGISTER_BUFFER, f_seq = 2,
                            f_payload = encode_register worker_descriptor 1 0\<rparr>];
          exit = (\<lambda>code. \<lparr>wr_frames = frames, wr_exit = code\<rparr>)
      in if \<not> wi_request_sent io then exit (Some 1)
      else case wi_ack io of
        Inl _ \<Rightarrow> exit (Some 4)
      | Inr f \<Rightarrow>
          if f_kind f \<noteq> MK_REGISTER_BUFFER_ACK then exit (Some 4)
          else if role = ''register-hold'' then exit None
          else exit (Some (if register_acknowledged (f_payload f) then 0 else 5)))"

definition worker_request :: "string list \<Rightarrow> u64 \<Rightarrow> Frame list \<Rightarrow> WorkerIo \<Rightarrow> WorkerRun" where
  "worker_request argv boot sent io =
     (let frames = sent @ [\<lparr>f_kind = MK_REQUEST_ACCESS, f_seq = 3,
                            f_payload = encode_access (worker_access argv boot)\<rparr>];
          exit = (\<lambda>code. \<lparr>wr_frames = frames, wr_exit = Some code\<rparr>)
      in if \<not> wi_request_sent io then exit 1
      else case wi_ack io of
        Inl _ \<Rightarrow> exit 6
      | Inr f \<Rightarrow> if f_kind f \<noteq> MK_REQUEST_ACCESS_ACK then exit 6 else exit 0)"

definition worker :: "string list \<Rightarrow> WorkerIo \<Rightarrow> WorkerRun" where
  "worker argv io =
     (let quit = (\<lambda>code. \<lparr>wr_frames = [], wr_exit = Some code\<rparr>)
      in if length argv < 4 then quit 2
      else if \<not> wi_socket io then quit 1
      else if \<not> wi_connects io then quit 1
      else
        (let role = argv ! 3;
             sent = [\<lparr>f_kind = MK_HELLO, f_seq = 1, f_payload = encode_hello role\<rparr>];
             exit = (\<lambda>code. \<lparr>wr_frames = sent, wr_exit = Some code\<rparr>)
         in if \<not> wi_hello_sent io then exit 1
         else case wi_hello io of
           Inl _ \<Rightarrow> exit 3
         | Inr f \<Rightarrow>
             if f_kind f \<noteq> MK_HELLO_ACK then exit 3
             else
               (case decode_hello_ack_into (f_payload f) of
                  (_, boot, epoch, node) \<Rightarrow>
                    if role = ''register'' \<or> role = ''register-hold'' \<or> role = ''register-fresh''
                    then worker_register role sent io
                    else if role = ''access'' then worker_request argv boot sent io
                    else exit 0)))"

lemma worker_descriptor_page: "worker_descriptor = page_buffer"
  by (simp add: worker_descriptor_def default_descriptor_def page_buffer_def)

end
