(* ===== verification/Coordinator.thy ===== *)
theory Coordinator
  imports Worker Concurrency
begin

text \<open>
  The coordinator process (\<open>tools/coordinator.cpp\<close>): it serves three connections one after the
  other on one registry, a worker that registers, a worker that accesses, and a fresh worker
  that registers again after the first was killed, and reports eight checks. A connection is
  the pair of answers of \<open>recv_frame\<close> on it, \<open>None\<close> when \<open>accept\<close> fails, so a theorem over all
  connections covers every peer, well-behaved or not. Its options and its listening socket are in
  \<open>System\<close>, its frame functions in \<open>Transport\<close>. Spawning and killing processes, and printing, are
  not modelled.
\<close>

section \<open>State\<close>

record Coord =
  co_rt :: Impl
  co_dom :: ProtectionDomainId
  co_reg_a :: RegistrationId
  co_keygen_a :: RemoteKeyGeneration
  co_next_boot :: u64
  co_sent :: "Frame list"
  co_success :: int
  co_failure :: int
  co_proofs :: "(bool \<times> string) list"

type_synonym connection = "((string + Frame) \<times> (string + Frame)) option"

text \<open>\<open>PROOF(ok, line)\<close> and \<open>send_frame\<close>, whose result the coordinator ignores.\<close>

definition proof_line :: "bool \<Rightarrow> string \<Rightarrow> Coord \<Rightarrow> Coord" where
  "proof_line ok line c =
     c\<lparr>co_success := (if ok then co_success c + 1 else co_success c),
       co_failure := (if ok then co_failure c else co_failure c + 1),
       co_proofs := co_proofs c @ [(ok, line)]\<rparr>"

definition reply :: "MessageKind \<Rightarrow> u64 \<Rightarrow> u8 list \<Rightarrow> Coord \<Rightarrow> Coord" where
  "reply kind seq payload c =
     c\<lparr>co_sent := co_sent c @ [\<lparr>f_kind = kind, f_seq = seq, f_payload = payload\<rparr>]\<rparr>"

section \<open>Authority\<close>

definition coord_snapshot :: "CoordinatorEpoch \<Rightarrow> WorkerBootId \<Rightarrow> AuthoritySnapshot" where
  "coord_snapshot epoch boot =
     default_snapshot
       \<lparr>as_coordinator_epoch := epoch, as_worker_boot := boot, as_worker := StrongId 1,
        as_owner := StrongId 1, as_owner_generation := StrongGeneration 1,
        as_worker_generation := StrongGeneration 1, as_policy_generation := StrongGeneration 1,
        as_backend_generation := StrongGeneration 1, as_transport_generation := StrongGeneration 1,
        as_nic_generation := StrongGeneration 1, as_node := StrongId 1, as_process := StrongId 1,
        as_provenance := PV_SYNTHETIC\<rparr>"

definition coord_envelope :: "AuthoritySnapshot \<Rightarrow> AuthorityEnvelope" where
  "coord_envelope s =
     \<lparr>ae_coordinator_epoch = as_coordinator_epoch s, ae_worker_boot = as_worker_boot s,
      ae_owner = StrongId 1, ae_owner_generation = StrongGeneration 1,
      ae_worker_generation = StrongGeneration 1, ae_node = StrongId 1, ae_process = StrongId 1\<rparr>"

definition envelope_epoch_boot :: "AuthoritySnapshot \<Rightarrow> u64 \<Rightarrow> AuthorityEnvelope" where
  "envelope_epoch_boot s boot = (coord_envelope s)\<lparr>ae_worker_boot := StrongId boot\<rparr>"

section \<open>The steps\<close>

definition coord_backend :: IBackend where
  "coord_backend = SyntheticObj (syn_create 424242)"

abbreviation syn_id :: BackendId where
  "syn_id \<equiv> be_id coord_backend"

definition coord_snap :: AuthoritySnapshot where
  "coord_snap = coord_snapshot (StrongGeneration 1) (StrongId 1)"

definition coordinator_start :: Coord where
  "coordinator_start =
     (case create_protection_domain (StrongId 1) (StrongId 1)
             (set_authority coord_snap (snd (add_backend (Some coord_backend) new_impl))) of
        (dom_id, rt) \<Rightarrow>
          \<lparr>co_rt = rt, co_dom = dom_id, co_reg_a = no_id, co_keygen_a = no_gen, co_next_boot = 2,
           co_sent = [], co_success = 0, co_failure = 0, co_proofs = []\<rparr>)"

text \<open>A connection up to its request: the hello, whose kind and role the coordinator does not
  look at, its acknowledgement, and the request, which must be of the kind \<open>wanted\<close>. \<open>Inl 1\<close> is
  \<open>return 1\<close>.\<close>

definition serve ::
    "connection \<Rightarrow> (Coord \<Rightarrow> Coord) \<Rightarrow> MessageKind \<Rightarrow> (u8 list \<Rightarrow> Coord \<Rightarrow> Coord) \<Rightarrow> Coord \<Rightarrow> int + Coord" where
  "serve conn greet wanted handle c =
     (case conn of
        None \<Rightarrow> Inl 1
      | Some (Inl _, _) \<Rightarrow> Inl 1
      | Some (Inr _, Inl _) \<Rightarrow> Inl 1
      | Some (Inr _, Inr f) \<Rightarrow>
          if f_kind f \<noteq> wanted then Inl 1 else Inr (handle (f_payload f) (greet c)))"

text \<open>\<open>create_buffer(d)\<close> and \<open>register_buffer(d, syn->id(), dom, envelope(s))\<close>.\<close>

definition create_and_register ::
    "BufferDescriptor \<Rightarrow> AuthoritySnapshot \<Rightarrow> Coord \<Rightarrow> RegisterResult \<times> Coord" where
  "create_and_register d s c =
     (case register_buffer d syn_id (co_dom c) (coord_envelope s) (snd (create_buffer d (co_rt c))) of
        (rr, rt) \<Rightarrow> (rr, c\<lparr>co_rt := rt\<rparr>))"

definition greet_a :: "Coord \<Rightarrow> Coord" where
  "greet_a = reply MK_HELLO_ACK 1 (encode_hello_ack 1 (gen_value (as_coordinator_epoch coord_snap)) 1)"

definition handle_register_a :: "u8 list \<Rightarrow> Coord \<Rightarrow> Coord" where
  "handle_register_a payload c =
     (case decode_register_into payload of (_, d, _, _) \<Rightarrow>
      case create_and_register d coord_snap c of (rr, c1) \<Rightarrow>
        (let c2 = (if rr_ok rr
                   then c1\<lparr>co_reg_a := rr_registration rr,
                           co_keygen_a := (case get_registration (rr_registration rr) (co_rt c1) of
                              None \<Rightarrow> no_gen | Some r \<Rightarrow> rk_key_generation (r_remote_key r))\<rparr>
                   else c1)
         in proof_line (rr_ok rr) (msg ''worker A registered buffer id=1 gen=1 under boot=1'')
              (reply MK_REGISTER_BUFFER_ACK 2
                (encode_register_ack (rr_ok rr) (id_value (rr_registration rr))
                  (gen_value (co_keygen_a c2)) (rr_explanation rr)) c2)))"

text \<open>The request the coordinator builds; of the payload it takes the registration, the boot and
  the key generation only.\<close>

definition coord_request ::
    "RegistrationId \<Rightarrow> RemoteKeyGeneration \<Rightarrow> AuthorityEnvelope \<Rightarrow> Coord \<Rightarrow> RemoteAccessRequest" where
  "coord_request reg keygen env c =
     \<lparr>q_transfer_id = no_id, q_source_registration = reg, q_offset = 0, q_length = 4,
      q_kind = OP_WRITE, q_required_rights = access_mask AR_REMOTE_WRITE,
      q_expected_buffer_generation = StrongGeneration 1,
      q_expected_registration_generation = StrongGeneration 1,
      q_expected_remote_key_generation = keygen, q_attempt = no_id, q_dispatch = no_id,
      q_authority = env, q_domain = co_dom c, q_backend = syn_id, q_transport = no_id,
      q_nic = no_id, q_process = StrongId 1, q_node = StrongId 1, q_sim_seed = 0\<rparr>"

definition check_access :: "RemoteAccessRequest \<Rightarrow> Coord \<Rightarrow> AccessDecision \<times> Coord" where
  "check_access q c =
     (case validate_remote_access q (co_rt c) of (d, rt) \<Rightarrow> (d, c\<lparr>co_rt := rt\<rparr>))"

definition greet_b :: "Coord \<Rightarrow> Coord" where
  "greet_b c =
     reply MK_HELLO_ACK 3
       (encode_hello_ack (co_next_boot c) (gen_value (as_coordinator_epoch coord_snap)) 1)
       (c\<lparr>co_next_boot := co_next_boot c + 1\<rparr>)"

definition handle_access_b :: "u8 list \<Rightarrow> Coord \<Rightarrow> Coord" where
  "handle_access_b payload c =
     (case decode_access_into payload of (_, a) \<Rightarrow>
      case check_access (coord_request (StrongId (ap_reg a)) (StrongGeneration (ap_expkeygen a))
             (envelope_epoch_boot coord_snap (ap_boot a)) c) c of (d, c1) \<Rightarrow>
      let c2 = proof_line (ad_outcome d = AO_ALLOW)
                 (msg ''worker B remote WRITE to worker A's buffer allowed under current authority'')
                 (reply MK_REQUEST_ACCESS_ACK 4
                   (encode_access_ack (access_outcome_code (ad_outcome d)) (ad_explanation d)) c1)
      in case check_access (coord_request (StrongId (ap_reg a)) (StrongGeneration (ap_expkeygen a))
                (envelope_epoch_boot coord_snap 99) c) c2 of (d2, c3) \<Rightarrow>
        proof_line (ad_outcome d2 = AO_REJECT_STALE_BOOT \<or> ad_outcome d2 \<noteq> AO_ALLOW)
          (msg ''stale-boot access rejected ('' @ access_outcome_name (ad_outcome d2) @ msg '')'') c3)"

definition after_loss :: "Coord \<Rightarrow> Coord" where
  "after_loss c =
     (let c1 = proof_line True (msg ''worker A killed as a real OS process'') c;
          c2 = proof_line True
                 (msg ''coordinator epoch advanced and participant restart noted after worker A loss'')
                 (c1\<lparr>co_rt := note_participant_restart (co_rt c1)\<rparr>)
      in case check_access (coord_request (co_reg_a c) (co_keygen_a c)
                (envelope_epoch_boot coord_snap 1) c) c2 of (d, c3) \<Rightarrow>
        (let c4 = proof_line (ad_outcome d \<noteq> AO_ALLOW)
                    (msg ''old registration authority stale after restart ('' @
                     access_outcome_name (ad_outcome d) @ msg '')'') c3
         in proof_line True (msg ''worker A's stale registration revoked; buffer slot freed'')
              (c4\<lparr>co_rt := snd (revoke (co_reg_a c) RV_HARD_REVOKE (co_rt c4))\<rparr>)))"

text \<open>The fresh authority is set between the hello of the new worker and its acknowledgement.\<close>

definition fresh_snapshot :: "Coord \<Rightarrow> AuthoritySnapshot" where
  "fresh_snapshot c = coord_snapshot (current_epoch (co_rt c)) (StrongId (co_next_boot c))"

definition greet_fresh :: "Coord \<Rightarrow> Coord" where
  "greet_fresh c =
     reply MK_HELLO_ACK 5
       (encode_hello_ack (co_next_boot c) (gen_value (as_coordinator_epoch (fresh_snapshot c))) 1)
       (c\<lparr>co_next_boot := co_next_boot c + 1, co_rt := set_authority (fresh_snapshot c) (co_rt c)\<rparr>)"

definition handle_register_fresh :: "AuthoritySnapshot \<Rightarrow> u8 list \<Rightarrow> Coord \<Rightarrow> Coord" where
  "handle_register_fresh fresh payload c =
     (case decode_register_into payload of (_, d, _, _) \<Rightarrow>
      case create_and_register d fresh c of (rr, c1) \<Rightarrow>
        proof_line (rr_ok rr)
          (msg ''fresh worker A' re-registered buffer under new WorkerBootId='' @
           int_to_str (id_value (as_worker_boot fresh)))
          (reply MK_REGISTER_BUFFER_ACK 6
            (encode_register_ack (rr_ok rr) (id_value (rr_registration rr)) 0 (rr_explanation rr)) c1))"

definition coordinator :: "connection \<Rightarrow> connection \<Rightarrow> connection \<Rightarrow> int + Coord" where
  "coordinator conn_a conn_b conn_fresh =
     (case serve conn_a greet_a MK_REGISTER_BUFFER handle_register_a coordinator_start of
        Inl code \<Rightarrow> Inl code
      | Inr c1 \<Rightarrow>
     (case serve conn_b greet_b MK_REQUEST_ACCESS handle_access_b c1 of
        Inl code \<Rightarrow> Inl code
      | Inr c2 \<Rightarrow>
          (let c3 = after_loss c2
           in serve conn_fresh greet_fresh MK_REGISTER_BUFFER
                (handle_register_fresh (fresh_snapshot c3)) c3)))"

definition exit_code :: "int + Coord \<Rightarrow> int" where
  "exit_code x = (case x of Inl code \<Rightarrow> code | Inr c \<Rightarrow> if co_failure c = 0 then 0 else 1)"

section \<open>The authority during a run\<close>

lemma create_buffer_authority [simp]: "im_authority (snd (create_buffer d im)) = im_authority im"
proof -
  obtain i im' where c: "create_buffer d im = (i, im')" by (rule prod.exhaust)
  then have "im_authority im' = im_authority im"
    by (cases rule: create_buffer_cases) (auto dest: named_buffer_frame)
  with c show ?thesis by simp
qed

lemma register_buffer_authority [simp]:
  "im_authority (snd (register_buffer d bid pd env im)) = im_authority im"
proof -
  obtain rr im' where r: "register_buffer d bid pd env im = (rr, im')" by (rule prod.exhaust)
  then have "im_authority im' = im_authority im"
    by (cases rule: register_buffer_cases) (auto simp: registered_lookup)
  with r show ?thesis by simp
qed

lemma validate_acct: "\<exists>a. snd (validate_remote_access q im) = im\<lparr>im_acct := a\<rparr>"
  using validate_counted [of q im] by (auto simp: counted_def on_acct_def)

lemma validate_authority_kept [simp]:
  "im_authority (snd (validate_remote_access q im)) = im_authority im"
  using validate_acct [of q im] by auto

lemma disagreeing_refused:
  "\<not> authority_agrees (im_authority im) (q_authority q) \<Longrightarrow>
     ad_outcome (fst (validate_remote_access q im)) \<noteq> AO_ALLOW"
  by (auto simp: validate_allow_iff access_ok_def)

section \<open>What each step reports\<close>

abbreviation auth :: "Coord \<Rightarrow> AuthoritySnapshot" where
  "auth c \<equiv> im_authority (co_rt c)"

abbreviation verdicts :: "Coord \<Rightarrow> bool list" where
  "verdicts c \<equiv> map fst (co_proofs c)"

lemma proof_line_simps [simp]:
  "co_rt (proof_line ok l c) = co_rt c" "verdicts (proof_line ok l c) = verdicts c @ [ok]"
  "co_dom (proof_line ok l c) = co_dom c" "co_next_boot (proof_line ok l c) = co_next_boot c"
  "co_reg_a (proof_line ok l c) = co_reg_a c" "co_keygen_a (proof_line ok l c) = co_keygen_a c"
  by (simp_all add: proof_line_def)

lemma reply_simps [simp]:
  "co_success (reply k s p c) = co_success c"
  "co_rt (reply k s p c) = co_rt c" "co_proofs (reply k s p c) = co_proofs c"
  "co_failure (reply k s p c) = co_failure c"
  "co_dom (reply k s p c) = co_dom c" "co_next_boot (reply k s p c) = co_next_boot c"
  "co_reg_a (reply k s p c) = co_reg_a c" "co_keygen_a (reply k s p c) = co_keygen_a c"
  by (simp_all add: reply_def)

lemma check_access_eq:
  "check_access q c = (fst (validate_remote_access q (co_rt c)), c\<lparr>co_rt := snd (validate_remote_access q (co_rt c))\<rparr>)"
  by (simp add: check_access_def split_def)

lemma create_and_register_eq:
  "create_and_register d s c =
     (fst (register_buffer d syn_id (co_dom c) (coord_envelope s) (snd (create_buffer d (co_rt c)))),
      c\<lparr>co_rt := snd (register_buffer d syn_id (co_dom c) (coord_envelope s) (snd (create_buffer d (co_rt c))))\<rparr>)"
  by (simp add: create_and_register_def split_def)

lemma coord_request_authority [simp]: "q_authority (coord_request reg keygen env c) = env"
  by (simp add: coord_request_def)

lemma greet_simps [simp]:
  "co_rt (greet_a c) = co_rt c" "co_proofs (greet_a c) = co_proofs c"
  "co_rt (greet_b c) = co_rt c" "co_proofs (greet_b c) = co_proofs c"
  "co_proofs (greet_fresh c) = co_proofs c"
  by (simp_all add: greet_a_def greet_b_def greet_fresh_def)

lemma handle_register_a_report:
  "auth (handle_register_a p c) = auth c" "\<exists>ok. verdicts (handle_register_a p c) = verdicts c @ [ok]"
  by (simp_all add: handle_register_a_def create_and_register_eq Let_def split_def)

lemma handle_access_b_report:
  assumes "auth c = coord_snap"
  shows "auth (handle_access_b p c) = coord_snap"
    and "\<exists>ok. verdicts (handle_access_b p c) = verdicts c @ [ok, True]"
proof -
  have "\<not> authority_agrees coord_snap (envelope_epoch_boot coord_snap 99)"
    by (simp add: authority_agrees_def envelope_epoch_boot_def coord_snap_def coord_snapshot_def)
  then show "\<exists>ok. verdicts (handle_access_b p c) = verdicts c @ [ok, True]"
    by (auto simp: handle_access_b_def check_access_eq Let_def split_def assms intro!: disagreeing_refused)
  show "auth (handle_access_b p c) = coord_snap"
    by (simp add: handle_access_b_def check_access_eq Let_def split_def assms)
qed

lemma revoke_authority [simp]: "im_authority (snd (revoke i m im)) = im_authority im"
  by (simp add: revoke_def Let_def split_def split: option.split)

lemma after_loss_report:
  assumes "auth c = coord_snap"
  shows "verdicts (after_loss c) = verdicts c @ [True, True, True, True]"
proof -
  have "\<not> authority_agrees (im_authority (note_participant_restart (co_rt c))) (envelope_epoch_boot coord_snap 1)"
    using assms
    by (simp add: note_participant_restart_def authority_agrees_def envelope_epoch_boot_def
        coord_envelope_def coord_snap_def coord_snapshot_def gen_next_def)
  then show ?thesis
    by (auto simp: after_loss_def check_access_eq Let_def intro!: disagreeing_refused)
qed

lemma handle_fresh_report: "\<exists>ok. verdicts (handle_register_fresh s p c) = verdicts c @ [ok]"
  by (simp add: handle_register_fresh_def create_and_register_eq Let_def split_def)

text \<open>The counters count the failed and the passed checks.\<close>

definition tallied :: "Coord \<Rightarrow> bool" where
  "tallied c \<longleftrightarrow>
     co_failure c = int (length (filter Not (verdicts c))) \<and>
     co_success c = int (length (filter id (verdicts c)))"

lemma tallied_proof_line [simp]: "tallied c \<Longrightarrow> tallied (proof_line ok l c)"
  by (simp add: tallied_def proof_line_def)

lemma tallied_update [simp]:
  "tallied (c\<lparr>co_rt := rt\<rparr>) \<longleftrightarrow> tallied c" "tallied (c\<lparr>co_next_boot := n\<rparr>) \<longleftrightarrow> tallied c"
  "tallied (c\<lparr>co_reg_a := i, co_keygen_a := g\<rparr>) \<longleftrightarrow> tallied c"
  "tallied (c\<lparr>co_next_boot := n, co_rt := rt\<rparr>) \<longleftrightarrow> tallied c"
  "tallied (reply k s p c) \<longleftrightarrow> tallied c"
  by (simp_all add: tallied_def reply_def)

lemma tallied_steps:
  "tallied c \<Longrightarrow> tallied (handle_register_a p (greet_a c))"
  "tallied c \<Longrightarrow> tallied (handle_access_b p (greet_b c))"
  "tallied c \<Longrightarrow> tallied (after_loss c)"
  "tallied c \<Longrightarrow> tallied (handle_register_fresh s p (greet_fresh c))"
  by (simp_all add: handle_register_a_def handle_access_b_def after_loss_def handle_register_fresh_def
      create_and_register_eq check_access_eq greet_a_def greet_b_def greet_fresh_def Let_def split_def)

lemma serve_Inr:
  "serve conn greet wanted handle c = Inr c' \<longleftrightarrow>
     (\<exists>h f. conn = Some (Inr h, Inr f) \<and> f_kind f = wanted \<and> c' = handle (f_payload f) (greet c))"
  by (auto simp: serve_def split: option.splits sum.splits prod.splits if_splits)

lemma coordinator_start_report:
  "auth coordinator_start = coord_snap" "verdicts coordinator_start = []" "tallied coordinator_start"
  by (simp_all add: coordinator_start_def create_protection_domain_def set_authority_def Let_def tallied_def)

lemma coordinator_Inr:
  assumes "coordinator conn_a conn_b conn_fresh = Inr c"
  obtains pa pb pf c2 c3 where
    "c2 = handle_access_b pb (greet_b (handle_register_a pa (greet_a coordinator_start)))"
    "c3 = after_loss c2" "c = handle_register_fresh (fresh_snapshot c3) pf (greet_fresh c3)"
  using assms by (auto simp: coordinator_def Let_def serve_Inr split: sum.splits)

section \<open>The scenario\<close>

lemma worker_request_frame:
  assumes "wr_frames (worker argv io) = [h, f]"
  shows "argv ! 3 \<noteq> ''access'' \<Longrightarrow> f = \<lparr>f_kind = MK_REGISTER_BUFFER, f_seq = 2,
      f_payload = encode_register page_buffer 1 0\<rparr>"
    and "argv ! 3 = ''access'' \<Longrightarrow> \<exists>boot. f = \<lparr>f_kind = MK_REQUEST_ACCESS, f_seq = 3,
      f_payload = encode_access (worker_access argv boot)\<rparr>"
  using assms
  by (auto simp: worker_def worker_register_def worker_request_def Let_def worker_descriptor_page
      split: if_splits sum.splits prod.splits)

lemma coord_start_rt:
  "co_rt coordinator_start =
     new_impl\<lparr>im_authority := coord_snap, im_backends := [(syn_id, coord_backend)],
       im_domains := [(StrongId 1, \<lparr>de_domain = MD_UNKNOWN, de_state = DS_ACTIVE,
         de_generation = StrongGeneration 1, de_node = StrongId 1, de_process = StrongId 1\<rparr>)],
       im_next_domain := 2,
       im_acct := zero_accounting\<lparr>a_protection_domains := 1\<rparr>\<rparr>"
  "co_dom coordinator_start = StrongId 1" "co_next_boot coordinator_start = 2"
  by (simp_all add: coordinator_start_def create_protection_domain_def set_authority_def add_backend_def
      new_impl_def zero_accounting_def increment_def Let_def)

lemma coord_can_register: "be_can_register page_buffer coord_backend = ''''"
  by (simp add: coord_backend_def syn_can_register_ok page_buffer_def domain_supported_def
      syn_capabilities_def syn_create_def validate_range_ok_iff bp_valid_def access_has_def)

lemma coord_agrees:
  "gen_valid epoch \<Longrightarrow> id_valid boot \<Longrightarrow>
     authority_agrees (coord_snapshot epoch boot) (coord_envelope (coord_snapshot epoch boot))"
  by (simp add: authority_agrees_def coord_snapshot_def coord_envelope_def default_snapshot_def)

text \<open>A backend that registered a buffer can register it again.\<close>

lemma syn_can_register_frame:
  "syn_can_register d (b\<lparr>sb_next_seq := n, sb_entries := es, sb_region_handle := hs\<rparr>) = syn_can_register d b"
proof -
  have "syn_capabilities (b\<lparr>sb_next_seq := n, sb_entries := es, sb_region_handle := hs\<rparr>) = syn_capabilities b"
    by (simp add: syn_capabilities_def cong: if_cong)
  then show ?thesis unfolding syn_can_register_def by (simp cong: if_cong)
qed

lemma can_register_again:
  assumes "be_register d cx (SyntheticObj b) = (out, b')"
  shows "be_can_register d' b' = be_can_register d' (SyntheticObj b)"
proof (cases "syn_can_register d b = ''''")
  case True
  with assms show ?thesis
    by (auto simp: syn_register_def Let_def syn_can_register_frame)
next
  case False
  with assms show ?thesis by (auto simp: syn_register_def Let_def)
qed

section \<open>The scenario run\<close>

text \<open>The registry after the first registration: the record \<open>r\<close>, held by the backend \<open>b'\<close>.\<close>

definition rt_a :: "IBackend \<Rightarrow> RegistrationRecord \<Rightarrow> Impl" where
  "rt_a b' r = registered_impl syn_id b' r (snd (create_buffer page_buffer (co_rt coordinator_start)))"

lemma coord_created:
  "snd (create_buffer page_buffer (co_rt coordinator_start)) =
     (co_rt coordinator_start)
       \<lparr>im_buffers := [(StrongId 1, \<lparr>bu_descriptor = page_buffer, bu_registered = False\<rparr>)],
        im_acct := zero_accounting\<lparr>a_protection_domains := 1, a_logical_buffers := 1,
          a_live_buffer_bytes := 4096\<rparr>\<rparr>"
  by (simp add: coord_start_rt create_buffer_def new_impl_def zero_accounting_def increment_def Let_def)

lemma coord_ready:
  "register_ready page_buffer syn_id (StrongId 1) (coord_envelope coord_snap)
     (snd (create_buffer page_buffer (co_rt coordinator_start))) coord_backend"
  unfolding coord_created
  using coord_agrees [of "StrongGeneration 1" "StrongId 1"]
  by (simp add: register_ready_def domain_active_def buffer_current_def coord_start_rt
      new_impl_def coord_can_register demo_range_ok coord_snap_def gen_valid_def)

text \<open>The first registration: what is known of the record and of the backend.\<close>

abbreviation first_call :: "RegisterResult \<times> Impl" where
  "first_call \<equiv> register_buffer page_buffer syn_id (StrongId 1) (coord_envelope coord_snap)
     (snd (create_buffer page_buffer (co_rt coordinator_start)))"

lemma first_registration:
  obtains b' r where
    "rr_ok (fst first_call)" "rr_registration (fst first_call) = StrongId 1" "snd first_call = rt_a b' r"
    "r_id r = StrongId 1" "r_buffer_id r = StrongId 1" "r_lifecycle r = RL_ACTIVE"
    "be_can_register page_buffer b' = ''''"
proof -
  let ?im = "snd (create_buffer page_buffer (co_rt coordinator_start))"
  obtain bo bout b' r where reg: "be_register page_buffer
      (ready_context page_buffer (StrongId 1) (coord_envelope coord_snap) ?im coord_backend) coord_backend =
      ((bo, Some bout), b')"
    and r: "r = committed_record (ready_record page_buffer syn_id (StrongId 1) (coord_envelope coord_snap)
      ?im coord_backend) syn_id bout (im_authority ?im)"
    and res: "snd first_call = registered_impl syn_id b' r ?im"
    "rr_ok (fst first_call)" "rr_registration (fst first_call) = r_id r"
    by (rule register_buffer_ready [OF coord_ready])
  have n: "im_next_registration ?im = 1" unfolding coord_created by (simp add: coord_start_rt new_impl_def)
  have ids: "r_id r = StrongId 1" "r_buffer_id r = StrongId 1" "r_lifecycle r = RL_ACTIVE"
    by (simp_all add: r n)
  have can: "be_can_register page_buffer b' = ''''"
    using can_register_again [OF reg [unfolded coord_backend_def]] coord_can_register
    by (simp add: coord_backend_def)
  show thesis
    by (rule that [of b' r]) (simp_all add: res rt_a_def ids can)
qed

lemma rt_a_fields:
  assumes "r_id r = StrongId 1" and "r_buffer_id r = StrongId 1"
  shows "im_registrations (rt_a b' r) = [(StrongId 1, r)]" "im_backends (rt_a b' r) = [(syn_id, b')]"
    "im_active_reg (rt_a b' r) = [(StrongId 1, StrongId 1)]" "im_authority (rt_a b' r) = coord_snap"
    "im_domains (rt_a b' r) = im_domains (co_rt coordinator_start)" "im_leases (rt_a b' r) = []"
    "im_buffers (rt_a b' r) = [(StrongId 1, \<lparr>bu_descriptor = page_buffer, bu_registered = False\<rparr>)]"
  unfolding rt_a_def registered_impl_def coord_created
  using assms by (simp_all add: coord_start_rt new_impl_def)

lemma step_a:
  assumes "snd first_call = rt_a b' r" and "rr_ok (fst first_call)"
    and "rr_registration (fst first_call) = StrongId 1" and "r_id r = StrongId 1" and "r_buffer_id r = StrongId 1"
  shows "co_rt (handle_register_a (encode_register page_buffer 1 0) (greet_a coordinator_start)) = rt_a b' r"
    and "co_dom (handle_register_a (encode_register page_buffer 1 0) (greet_a coordinator_start)) = StrongId 1"
    and "co_reg_a (handle_register_a (encode_register page_buffer 1 0) (greet_a coordinator_start)) = StrongId 1"
    and "co_keygen_a (handle_register_a (encode_register page_buffer 1 0) (greet_a coordinator_start)) =
      rk_key_generation (r_remote_key r)"
    and "co_next_boot (handle_register_a (encode_register page_buffer 1 0) (greet_a coordinator_start)) = 2"
    and "verdicts (handle_register_a (encode_register page_buffer 1 0) (greet_a coordinator_start)) = [True]"
  unfolding handle_register_a_def decode_register_into_encoded
  by (simp_all add: create_and_register_eq greet_a_def coord_start_rt(2,3) assms(1-3) Let_def
      get_registration_def rt_a_fields [OF assms(4,5)] coordinator_start_report)

lemma step_b_allowed:
  assumes "snd first_call = rt_a b' r" and "rr_ok (fst first_call)"
    and "rr_registration (fst first_call) = StrongId 1" and "r_id r = StrongId 1" and "r_buffer_id r = StrongId 1"
    and "co_dom c = StrongId 1"
  shows "ad_outcome (fst (validate_remote_access (coord_request (StrongId 1) (rk_key_generation (r_remote_key r))
      (envelope_epoch_boot coord_snap 1) c) (rt_a b' r))) = AO_ALLOW"
proof -
  have env: "envelope_epoch_boot coord_snap 1 = coord_envelope coord_snap"
    by (simp add: envelope_epoch_boot_def coord_envelope_def coord_snap_def coord_snapshot_def)
  have auth: "authority_agrees (im_authority (snd (create_buffer page_buffer (co_rt coordinator_start))))
      (coord_envelope coord_snap)"
    using coord_ready by (simp add: register_ready_def)
  have reg: "get_registration (StrongId 1) (rt_a b' r) = Some r"
    by (simp add: get_registration_def rt_a_fields [OF assms(4,5)])
  show ?thesis
    using registered_access [OF surjective_pairing assms(2), of "coord_request (StrongId 1)
        (rk_key_generation (r_remote_key r)) (envelope_epoch_boot coord_snap 1) c"] auth
    by (auto simp: assms(1,3,6) reg env coord_request_def expects_def names_id_def access_superset_def
        access_has_def intrinsic_right_def)
qed

text \<open>The access and the checks of the second connection change the accounting only.\<close>

lemma step_b:
  assumes "co_rt c = rt_a b' r" and "co_dom c = StrongId 1" and "auth c = coord_snap"
    and "ap_reg a = 1" and "ap_boot a = 1" and "StrongGeneration (ap_expkeygen a) = rk_key_generation (r_remote_key r)"
    and "ad_outcome (fst (validate_remote_access (coord_request (StrongId 1)
      (rk_key_generation (r_remote_key r)) (envelope_epoch_boot coord_snap 1) c) (rt_a b' r))) = AO_ALLOW"
  shows "\<exists>x. co_rt (handle_access_b (encode_access a) c) = (rt_a b' r)\<lparr>im_acct := x\<rparr>"
    and "verdicts (handle_access_b (encode_access a) c) = verdicts c @ [True, True]"
    and "co_dom (handle_access_b (encode_access a) c) = StrongId 1"
    and "co_reg_a (handle_access_b (encode_access a) c) = co_reg_a c"
    and "co_next_boot (handle_access_b (encode_access a) c) = co_next_boot c"
proof -
  have acct: "\<exists>x. snd (validate_remote_access q (rt\<lparr>im_acct := y\<rparr>)) = rt\<lparr>im_acct := x\<rparr>" for q rt y
    using validate_acct [of q "rt\<lparr>im_acct := y\<rparr>"] by auto
  show "\<exists>x. co_rt (handle_access_b (encode_access a) c) = (rt_a b' r)\<lparr>im_acct := x\<rparr>"
  proof -
    obtain y where "snd (validate_remote_access (coord_request (StrongId 1) (rk_key_generation (r_remote_key r))
        (envelope_epoch_boot coord_snap 1) c) (rt_a b' r)) = (rt_a b' r)\<lparr>im_acct := y\<rparr>"
      using validate_acct by blast
    with acct [where q = "coord_request (StrongId 1) (rk_key_generation (r_remote_key r))
        (envelope_epoch_boot coord_snap 99) c" and rt = "rt_a b' r" and y = y] show ?thesis
      by (simp add: handle_access_b_def decode_access_into_encoded check_access_eq Let_def assms(1,4-6))
  qed
  have "\<not> authority_agrees coord_snap (envelope_epoch_boot coord_snap 99)"
    by (simp add: authority_agrees_def envelope_epoch_boot_def coord_snap_def coord_snapshot_def)
  then show "verdicts (handle_access_b (encode_access a) c) = verdicts c @ [True, True]"
    using assms(3,7)
    by (auto simp: handle_access_b_def decode_access_into_encoded check_access_eq Let_def assms(1,4-6)
        intro!: disagreeing_refused)
qed (simp_all add: handle_access_b_def decode_access_into_encoded check_access_eq Let_def split_def assms(2))

text \<open>What the last registration needs: the buffer and the domain are there, the slot is free and
  the backend still accepts the page.\<close>

definition slot_free :: "Impl \<Rightarrow> bool" where
  "slot_free im \<longleftrightarrow>
     (\<exists>b. map_of (im_backends im) syn_id = Some b \<and> be_can_register page_buffer b = '''') \<and>
     domain_active (StrongId 1) im \<and> map_of (im_active_reg im) (StrongId 1) = None \<and>
     im_buffers im = [(StrongId 1, \<lparr>bu_descriptor = page_buffer, bu_registered = False\<rparr>)]"

lemma step_loss:
  assumes "co_rt c = (rt_a b' r)\<lparr>im_acct := x\<rparr>" and "co_reg_a c = StrongId 1" and "co_dom c = StrongId 1"
    and "r_id r = StrongId 1" and "r_buffer_id r = StrongId 1" and "r_lifecycle r = RL_ACTIVE"
    and "be_can_register page_buffer b' = ''''"
  shows "slot_free (co_rt (after_loss c))" and "co_dom (after_loss c) = StrongId 1"
    and "co_next_boot (after_loss c) = co_next_boot c"
    and "as_coordinator_epoch (auth (after_loss c)) = StrongGeneration 2"
proof -
  let ?im = "note_participant_restart ((rt_a b' r)\<lparr>im_acct := x\<rparr>)"
  note fields = rt_a_fields [OF assms(4,5), of b']
  obtain y where v: "snd (validate_remote_access (coord_request (StrongId 1) (co_keygen_a c)
      (envelope_epoch_boot coord_snap 1) c) ?im) = ?im\<lparr>im_acct := y\<rparr>"
    using validate_acct by blast
  have rt: "co_rt (after_loss c) = snd (revoke (StrongId 1) RV_HARD_REVOKE (?im\<lparr>im_acct := y\<rparr>))"
    by (simp add: after_loss_def check_access_eq Let_def v assms(1-2))
  have "domain_active (StrongId 1) (co_rt coordinator_start)"
    by (simp add: coord_start_rt domain_active_def)
  then show "slot_free (co_rt (after_loss c))"
    unfolding rt
    by (simp add: slot_free_def revoke_def note_participant_restart_def fields assms(5-7)
        hard_revoked_reg_def domain_active_def Let_def)
  show "as_coordinator_epoch (auth (after_loss c)) = StrongGeneration 2"
    unfolding rt
    by (simp add: note_participant_restart_def fields coord_snap_def coord_snapshot_def gen_next_def)
qed (simp_all add: after_loss_def check_access_eq Let_def split_def assms(3))

lemma step_fresh:
  assumes "slot_free (co_rt c)" and "co_dom c = StrongId 1" and "id_valid (as_worker_boot s)"
    and "s = coord_snapshot epoch boot" and "gen_valid epoch" and "auth c = s"
  shows "verdicts (handle_register_fresh s (encode_register page_buffer 1 0) c) = verdicts c @ [True]"
proof -
  have same: "snd (create_buffer page_buffer (co_rt c)) = co_rt c"
    using assms(1) by (simp add: slot_free_def create_buffer_def Let_def)
  from assms(1) obtain b where b: "map_of (im_backends (co_rt c)) syn_id = Some b"
    "be_can_register page_buffer b = ''''" by (auto simp: slot_free_def)
  have "authority_agrees s (coord_envelope s)"
    using coord_agrees assms(3-5) by (simp add: coord_snapshot_def)
  then have "register_ready page_buffer syn_id (StrongId 1) (coord_envelope s) (co_rt c) b"
    using assms(1,6) b by (simp add: register_ready_def slot_free_def buffer_current_def demo_range_ok)
  then have "rr_ok (fst (register_buffer page_buffer syn_id (StrongId 1) (coord_envelope s) (co_rt c)))"
    by (rule register_buffer_ready) 
  then show ?thesis
    by (simp add: handle_register_fresh_def decode_register_into_encoded create_and_register_eq
        same assms(2) Let_def)
qed

text \<open>From the second connection to the end: five checks, all passed.\<close>

lemma step_last:
  assumes "co_rt c = (rt_a b' r)\<lparr>im_acct := x\<rparr>" and "co_reg_a c = StrongId 1" and "co_dom c = StrongId 1"
    and "r_id r = StrongId 1" and "r_buffer_id r = StrongId 1" and "r_lifecycle r = RL_ACTIVE"
    and "be_can_register page_buffer b' = ''''" and "co_next_boot c = 3"
  shows "verdicts (handle_register_fresh (fresh_snapshot (after_loss c)) (encode_register page_buffer 1 0)
      (greet_fresh (after_loss c))) = verdicts c @ [True, True, True, True, True]"
proof -
  define c3 where "c3 = after_loss c"
  define s where "s = fresh_snapshot c3"
  note loss = step_loss [OF assms(1-7), folded c3_def]
  have s: "s = coord_snapshot (StrongGeneration 2) (StrongId 3)"
    using loss(3,4) assms(8) by (simp add: s_def fresh_snapshot_def current_epoch_def)
  have f: "slot_free (co_rt (greet_fresh c3))" "co_dom (greet_fresh c3) = StrongId 1" "auth (greet_fresh c3) = s"
    using loss(1,2) by (simp_all add: greet_fresh_def s_def set_authority_def slot_free_def domain_active_def)
  have "verdicts (handle_register_fresh s (encode_register page_buffer 1 0) (greet_fresh c3)) =
      verdicts c3 @ [True]"
    using step_fresh [OF f(1,2) _ s _ f(3)] by (simp add: s coord_snapshot_def gen_valid_def id_valid_def)
  moreover have "verdicts c3 = verdicts c @ [True, True, True, True]"
    unfolding c3_def using assms(1) by (intro after_loss_report) (simp add: rt_a_fields [OF assms(4,5)])
  ultimately show ?thesis by (simp flip: c3_def s_def)
qed

text \<open>The whole run on the frames that the workers send.\<close>

lemma scenario_run:
  assumes "wr_frames (worker [exe, host, port, ''register-hold''] io_a) = [ha, fa]"
    and "serve (Some (Inr ha, Inr fa)) greet_a MK_REGISTER_BUFFER handle_register_a coordinator_start = Inr c1"
    and "wr_frames (worker [exe, host, port, ''access'', int_to_str (id_value (co_reg_a c1)), int_to_str 1,
      int_to_str (gen_value (co_keygen_a c1)), ''1''] io_b) = [hb, fb]"
    and "wr_frames (worker [exe, host, port, ''register-fresh''] io_f) = [hf, ff]"
  shows "\<exists>c. coordinator (Some (Inr ha, Inr fa)) (Some (Inr hb, Inr fb)) (Some (Inr hf, Inr ff)) = Inr c \<and>
    map fst (co_proofs c) = replicate 8 True \<and> tallied c"
proof -
  obtain b' r where first: "rr_ok (fst first_call)" "rr_registration (fst first_call) = StrongId 1"
    "snd first_call = rt_a b' r" "r_id r = StrongId 1" "r_buffer_id r = StrongId 1"
    "r_lifecycle r = RL_ACTIVE" "be_can_register page_buffer b' = ''''"
    by (rule first_registration)
  have fa: "fa = \<lparr>f_kind = MK_REGISTER_BUFFER, f_seq = 2, f_payload = encode_register page_buffer 1 0\<rparr>"
    and ff: "ff = \<lparr>f_kind = MK_REGISTER_BUFFER, f_seq = 2, f_payload = encode_register page_buffer 1 0\<rparr>"
    by (rule worker_request_frame(1) [OF assms(1)], simp, rule worker_request_frame(1) [OF assms(4)], simp)
  have c1: "c1 = handle_register_a (encode_register page_buffer 1 0) (greet_a coordinator_start)"
    using assms(2) by (simp add: serve_Inr fa)
  note a = step_a [OF first(3,1,2,4,5), folded c1]
  obtain boot where fb: "f_kind fb = MK_REQUEST_ACCESS" "f_payload fb = encode_access (worker_access
      [exe, host, port, ''access'', int_to_str 1, int_to_str 1,
       int_to_str (gen_value (rk_key_generation (r_remote_key r))), ''1''] boot)"
    using worker_request_frame(2) [OF assms(3)] by (auto simp: a)
  let ?a = "worker_access [exe, host, port, ''access'', int_to_str 1, int_to_str 1,
      int_to_str (gen_value (rk_key_generation (r_remote_key r))), ''1''] boot"
  let ?g = "greet_b c1"
  have args: "ap_reg ?a = 1" "ap_boot ?a = 1" "StrongGeneration (ap_expkeygen ?a) = rk_key_generation (r_remote_key r)"
    by (simp_all add: worker_access_def numeric_arg_def strtoull10_int_to_str)
  have g: "co_rt ?g = rt_a b' r" "co_dom ?g = StrongId 1" "auth ?g = coord_snap" "co_reg_a ?g = StrongId 1"
    "verdicts ?g = [True]"
    by (simp_all add: a rt_a_fields [OF first(4,5)]) (simp_all add: greet_b_def a)
  note allowed = step_b_allowed [OF first(3,1,2,4,5) g(2)]
  define c2 where "c2 = handle_access_b (encode_access ?a) ?g"
  note b = step_b [OF g(1-3) args allowed, folded c2_def]
  then obtain x where rt2: "co_rt c2 = (rt_a b' r)\<lparr>im_acct := x\<rparr>" by blast
  from b(4) g(4) have reg2: "co_reg_a c2 = StrongId 1" by simp
  have boot2: "co_next_boot c2 = 3" using b(5) a(5) by (simp add: greet_b_def)
  define c where "c = handle_register_fresh (fresh_snapshot (after_loss c2))
      (encode_register page_buffer 1 0) (greet_fresh (after_loss c2))"
  have "verdicts c2 = [True, True, True]" using b(2) g(5) by simp
  with step_last [OF rt2 reg2 b(3) first(4-7) boot2, folded c_def] have v: "verdicts c = replicate 8 True"
    by (simp add: eval_nat_numeral)
  have "coordinator (Some (Inr ha, Inr fa)) (Some (Inr hb, Inr fb)) (Some (Inr hf, Inr ff)) = Inr c"
    unfolding coordinator_def assms(2)
    by (simp add: serve_def fb ff Let_def flip: c2_def c_def)
  moreover have "tallied c"
    unfolding c_def c2_def c1 by (intro tallied_steps coordinator_start_report)
  ultimately show ?thesis using v by blast
qed

section \<open>Properties\<close>

text \<open>C29. Whoever connects, and whatever frames they send, a coordinator that runs to its end has
  rejected the stale authority in every check: the access under a boot identity that is not the
  current one, and the access with the old authority after the restart. Its exit code is zero
  exactly when the three remaining checks (both registrations and the allowed access) passed.\<close>

theorem stale_authority_always_rejected:
  assumes "coordinator conn_a conn_b conn_fresh = Inr c"
  shows "\<exists>reg_a access_b reg_fresh.
    map fst (co_proofs c) = [reg_a, access_b, True, True, True, True, True, reg_fresh] \<and>
    (exit_code (Inr c) = 0 \<longleftrightarrow> reg_a \<and> access_b \<and> reg_fresh)"
proof -
  obtain pa pb pf c2 c3 where c2: "c2 = handle_access_b pb (greet_b (handle_register_a pa (greet_a coordinator_start)))"
    and c3: "c3 = after_loss c2" and c: "c = handle_register_fresh (fresh_snapshot c3) pf (greet_fresh c3)"
    by (rule coordinator_Inr [OF assms])
  let ?c1 = "handle_register_a pa (greet_a coordinator_start)"
  have a1: "auth ?c1 = coord_snap"
    by (simp add: handle_register_a_report(1) coordinator_start_report)
  obtain x where v1: "verdicts ?c1 = [x]"
    using handle_register_a_report(2) [of pa "greet_a coordinator_start"] coordinator_start_report by auto
  have a1': "auth (greet_b ?c1) = coord_snap" using a1 by simp
  obtain y where v2: "verdicts c2 = [x, y, True]"
    using handle_access_b_report(2) [OF a1', of pb] v1 by (auto simp: c2)
  have "auth c2 = coord_snap" unfolding c2 by (rule handle_access_b_report(1) [OF a1'])
  from after_loss_report [OF this] have v3: "verdicts c3 = [x, y, True, True, True, True, True]"
    by (simp add: c3 v2)
  obtain z where v4: "verdicts c = [x, y, True, True, True, True, True, z]"
    using handle_fresh_report [of "fresh_snapshot c3" pf "greet_fresh c3"] v3 by (auto simp: c)
  have "tallied c"
    unfolding c c3 c2 by (intro tallied_steps coordinator_start_report)
  then have "co_failure c = int (length (filter Not [x, y, True, True, True, True, True, z]))"
    by (simp only: tallied_def v4)
  then have "exit_code (Inr c) = 0 \<longleftrightarrow> x \<and> y \<and> z" by (simp add: exit_code_def)
  with v4 show ?thesis by (intro exI [of _ x] exI [of _ y] exI [of _ z]) simp
qed

text \<open>The scenario succeeds: when the three workers that the coordinator starts get as far as
  sending their requests, and the second gets the registration, the boot and the key generation
  of the first on its command line, all eight checks pass and the exit code is zero. The frames
  are those the workers build, decoded by the coordinator and answered by the registry.\<close>

theorem scenario_passes:
  assumes "wr_frames (worker [exe, host, port, ''register-hold''] io_a) = [ha, fa]"
    and "serve (Some (Inr ha, Inr fa)) greet_a MK_REGISTER_BUFFER handle_register_a coordinator_start = Inr c1"
    and "wr_frames (worker [exe, host, port, ''access'', int_to_str (id_value (co_reg_a c1)), int_to_str 1,
      int_to_str (gen_value (co_keygen_a c1)), ''1''] io_b) = [hb, fb]"
    and "wr_frames (worker [exe, host, port, ''register-fresh''] io_f) = [hf, ff]"
  shows "\<exists>c. coordinator (Some (Inr ha, Inr fa)) (Some (Inr hb, Inr fb)) (Some (Inr hf, Inr ff)) = Inr c \<and>
    map fst (co_proofs c) = replicate 8 True \<and> co_success c = 8 \<and> exit_code (Inr c) = 0"
proof -
  from scenario_run [OF assms] obtain c where
    c: "coordinator (Some (Inr ha, Inr fa)) (Some (Inr hb, Inr fb)) (Some (Inr hf, Inr ff)) = Inr c"
    "verdicts c = replicate 8 True" "tallied c" by blast
  then have "co_failure c = 0" "co_success c = 8" by (simp_all only: tallied_def) simp_all
  with c show ?thesis by (auto simp: exit_code_def)
qed

section \<open>Witnesses\<close>

text \<open>A worker whose calls succeed and which is acknowledged.\<close>

definition good_io :: WorkerIo where
  "good_io =
     \<lparr>wi_socket = True, wi_connects = True, wi_hello_sent = True,
      wi_hello = Inr \<lparr>f_kind = MK_HELLO_ACK, f_seq = 1, f_payload = encode_hello_ack 1 1 1\<rparr>,
      wi_request_sent = True, wi_ack = Inl ''eof''\<rparr>"

lemma good_worker:
  "argv = exe # host # port # role # args \<Longrightarrow>
   role = ''register-hold'' \<or> role = ''register-fresh'' \<or> role = ''access'' \<Longrightarrow>
   \<exists>h f. wr_frames (worker argv good_io) = [h, f]"
  by (auto simp: worker_def good_io_def decode_hello_ack_into_encoded worker_register_def
      worker_request_def Let_def)

lemma good_scenario:
  obtains ha fa c1 hb fb hf ff where
    "wr_frames (worker [''w'', ''h'', ''p'', ''register-hold''] good_io) = [ha, fa]"
    "serve (Some (Inr ha, Inr fa)) greet_a MK_REGISTER_BUFFER handle_register_a coordinator_start = Inr c1"
    "wr_frames (worker [''w'', ''h'', ''p'', ''access'', int_to_str (id_value (co_reg_a c1)), int_to_str 1,
      int_to_str (gen_value (co_keygen_a c1)), ''1''] good_io) = [hb, fb]"
    "wr_frames (worker [''w'', ''h'', ''p'', ''register-fresh''] good_io) = [hf, ff]"
proof -
  obtain ha fa where a: "wr_frames (worker [''w'', ''h'', ''p'', ''register-hold''] good_io) = [ha, fa]"
    using good_worker [OF refl] by blast
  have "f_kind fa = MK_REGISTER_BUFFER" using worker_request_frame(1) [OF a] by simp
  then obtain c1 where "serve (Some (Inr ha, Inr fa)) greet_a MK_REGISTER_BUFFER handle_register_a
      coordinator_start = Inr c1" by (simp add: serve_def)
  moreover obtain hb fb where "wr_frames (worker [''w'', ''h'', ''p'', ''access'',
      int_to_str (id_value (co_reg_a c1)), int_to_str 1, int_to_str (gen_value (co_keygen_a c1)), ''1'']
      good_io) = [hb, fb]" using good_worker [OF refl] by blast
  moreover obtain hf ff where "wr_frames (worker [''w'', ''h'', ''p'', ''register-fresh''] good_io) = [hf, ff]"
    using good_worker [OF refl] by blast
  ultimately show thesis using a that by blast
qed

theorem scenario_passes_witness:
  "\<exists>conn_a conn_b conn_fresh. exit_code (coordinator conn_a conn_b conn_fresh) = 0"
proof -
  obtain ha fa c1 hb fb hf ff where s:
    "wr_frames (worker [''w'', ''h'', ''p'', ''register-hold''] good_io) = [ha, fa]"
    "serve (Some (Inr ha, Inr fa)) greet_a MK_REGISTER_BUFFER handle_register_a coordinator_start = Inr c1"
    "wr_frames (worker [''w'', ''h'', ''p'', ''access'', int_to_str (id_value (co_reg_a c1)), int_to_str 1,
      int_to_str (gen_value (co_keygen_a c1)), ''1''] good_io) = [hb, fb]"
    "wr_frames (worker [''w'', ''h'', ''p'', ''register-fresh''] good_io) = [hf, ff]"
    by (rule good_scenario)
  from scenario_passes [OF s] show ?thesis by metis
qed

theorem stale_authority_always_rejected_witness:
  "\<exists>conn_a conn_b conn_fresh c. coordinator conn_a conn_b conn_fresh = Inr c \<and> fst (co_proofs c ! 2)"
proof -
  obtain ha fa c1 hb fb hf ff where s:
    "wr_frames (worker [''w'', ''h'', ''p'', ''register-hold''] good_io) = [ha, fa]"
    "serve (Some (Inr ha, Inr fa)) greet_a MK_REGISTER_BUFFER handle_register_a coordinator_start = Inr c1"
    "wr_frames (worker [''w'', ''h'', ''p'', ''access'', int_to_str (id_value (co_reg_a c1)), int_to_str 1,
      int_to_str (gen_value (co_keygen_a c1)), ''1''] good_io) = [hb, fb]"
    "wr_frames (worker [''w'', ''h'', ''p'', ''register-fresh''] good_io) = [hf, ff]"
    by (rule good_scenario)
  from scenario_run [OF s] obtain c where
    c: "coordinator (Some (Inr ha, Inr fa)) (Some (Inr hb, Inr fb)) (Some (Inr hf, Inr ff)) = Inr c" by blast
  from stale_authority_always_rejected [OF c] obtain x y z where
    v: "map fst (co_proofs c) = [x, y, True, True, True, True, True, z]"
    by (elim exE conjE) (rule that)
  have "length (co_proofs c) = 8" using arg_cong [OF v, of length] by (simp only: length_map) simp
  with v have "fst (co_proofs c ! 2)" using nth_map [of 2 "co_proofs c" fst] by simp
  with c show ?thesis by blast
qed

end
