(* ===== verification/Cli.thy ===== *)
theory Cli
  imports Coordinator Recovery
begin

text \<open>
  The command line tool (\<open>tools/rdma_buffer_cli.cpp\<close>): each invocation builds a registry with the
  synthetic and the reference backend, runs one command on it and prints lines. A run is the
  printed lines, the exit code and the files left behind; what the operating system answers to the
  calls of \<open>save\<close> is an argument. The proofs show for each command what it answers.
\<close>

section \<open>The commands\<close>

record CliRun =
  cr_out :: "string list"
  cr_code :: int
  cr_files :: files

definition cli_snap :: AuthoritySnapshot where
  "cli_snap =
     default_snapshot
       \<lparr>as_coordinator_epoch := StrongGeneration 1, as_worker_boot := StrongId 1,
        as_worker := StrongId 1, as_owner := StrongId 1, as_owner_generation := StrongGeneration 1,
        as_worker_generation := StrongGeneration 1, as_policy_generation := StrongGeneration 1,
        as_backend_generation := StrongGeneration 1, as_transport_generation := StrongGeneration 1,
        as_nic_generation := StrongGeneration 1, as_node := StrongId 1, as_process := StrongId 1,
        as_provenance := PV_SYNTHETIC\<rparr>"

definition cli_env :: "AuthoritySnapshot \<Rightarrow> AuthorityEnvelope" where
  "cli_env s =
     \<lparr>ae_coordinator_epoch = as_coordinator_epoch s, ae_worker_boot = as_worker_boot s,
      ae_owner = StrongId 1, ae_owner_generation = StrongGeneration 1,
      ae_worker_generation = StrongGeneration 1, ae_node = StrongId 1, ae_process = StrongId 1\<rparr>"

definition make_desc :: "u64 \<Rightarrow> u64 \<Rightarrow> MemoryDomain \<Rightarrow> u64 \<Rightarrow> AccessMask \<Rightarrow> BufferDescriptor" where
  "make_desc i gen domain len rights =
     default_descriptor
       \<lparr>bd_id := StrongId i, bd_generation := StrongGeneration gen, bd_domain := domain,
        bd_base := \<lparr>bp_address = 0x1000,
          bp_kind = (if domain = MD_SYNTHETIC_REMOTE_CAPABLE then PK_SYNTHETIC else PK_VIRTUAL)\<rparr>,
        bd_byte_length := len, bd_alignment := 4096, bd_page_size := 4096,
        bd_owner := StrongId 1, bd_process := StrongId 1, bd_worker := StrongId 1,
        bd_node := StrongId 1, bd_direction := TD_BIDIRECTIONAL, bd_requested_access := rights,
        bd_registration_mode := RM_REMOTE_ACCESS, bd_lifetime := LP_TRANSACTIONAL,
        bd_provenance := PV_SYNTHETIC, bd_freshness := FR_VALID,
        bd_policy_generation := StrongGeneration 1\<rparr>"

text \<open>\<open>make_desc(id)\<close> with the default arguments.\<close>

definition desc_of_id :: "u64 \<Rightarrow> BufferDescriptor" where
  "desc_of_id i =
     make_desc i 1 MD_SYNTHETIC_REMOTE_CAPABLE 4096
       (access_mask AR_REMOTE_READ OR access_mask AR_REMOTE_WRITE)"

definition usage_lines :: "string list" where
  "usage_lines =
     [msg ''rdma-buffer <cmd>'',
      msg ''  discover | buffer-create | buffer-show | register | deregister'',
      msg ''  lease-acquire | lease-release | access-check | revoke | rotate-key'',
      msg ''  explain | simulate | save | recover | benchmark'']"

definition cli_syn :: IBackend where
  "cli_syn = SyntheticObj (syn_create 7)"

definition cli_ref :: IBackend where
  "cli_ref = ReferenceObj (ref_create (StrongId 0x524546))"

abbreviation cli_bid :: BackendId where
  "cli_bid \<equiv> be_id cli_syn"

definition cli_start :: "ProtectionDomainId \<times> Impl" where
  "cli_start =
     create_protection_domain (StrongId 1) (StrongId 1)
       (set_authority cli_snap
         (snd (add_backend (Some cli_ref) (snd (add_backend (Some cli_syn) new_impl)))))"

text \<open>\<open>rt.create_buffer(make_desc())\<close> and \<open>rt.register_buffer(make_desc(), syn->id(), dom, e)\<close>.\<close>

definition cli_register :: "RegisterResult \<times> Impl" where
  "cli_register =
     register_buffer (desc_of_id 1) cli_bid (fst cli_start) (cli_env cli_snap)
       (snd (create_buffer (desc_of_id 1) (snd cli_start)))"

text \<open>The object \<open>syn\<close> points to is the one the registry holds.\<close>

definition syn_object :: "Impl \<Rightarrow> IBackend" where
  "syn_object rt = (case map_of (im_backends rt) cli_bid of None \<Rightarrow> cli_syn | Some b \<Rightarrow> b)"

definition bit_text :: "bool \<Rightarrow> string" where
  "bit_text b = (if b then ''1'' else ''0'')"

definition discover_line :: "BackendInfo \<Rightarrow> string" where
  "discover_line bi =
     msg ''backend='' @ bi_name bi @ msg '' provenance='' @ provenance_name (bi_provenance bi) @
     msg '' domain=HOST_PINNED dom_supported='' @
     bit_text (domain_supported (bi_capabilities bi) MD_HOST_PINNED) @
     msg '' remote_read='' @ capability_state_name (bc_remote_read (bi_capabilities bi)) @
     msg '' remote_write='' @ capability_state_name (bc_remote_write (bi_capabilities bi)) @
     msg '' remote_atomic='' @ capability_state_name (bc_remote_atomic (bi_capabilities bi))"

definition cli_discover :: "string list \<times> int" where
  "cli_discover = (map discover_line (backend_summaries (snd cli_start)), 0)"

definition cli_buffer_create :: "string list \<Rightarrow> string list \<times> int" where
  "cli_buffer_create argv =
     (case create_buffer (desc_of_id (numeric_arg argv 2 1)) (snd cli_start) of (bid, rt) \<Rightarrow>
        ([msg ''buffer id='' @ int_to_str (id_value bid) @
          msg '' generation=1 memory_domain=SYNTHETIC_REMOTE_CAPABLE created='' @
          bit_text (id_valid bid) @ msg '' provenance=SYNTHETIC''],
         if id_valid bid then 0 else 1))"

definition cli_register_command :: "string list \<times> int" where
  "cli_register_command =
     (let r = fst cli_register
      in ([msg ''registration_capability='' @ (if rr_ok r then ''REGISTERED'' else ''REJECTED'') @
           msg '' backend=SYNTHETIC result='' @ (if rr_ok r then ''ok'' else ''rejected'') @
           msg '' msg='' @ rr_explanation r],
          if rr_ok r then 0 else 1))"

definition cli_request :: "RegistrationId \<Rightarrow> RemoteAccessRequest" where
  "cli_request reg =
     \<lparr>q_transfer_id = no_id, q_source_registration = reg, q_offset = 0, q_length = 4,
      q_kind = OP_WRITE, q_required_rights = access_mask AR_REMOTE_WRITE,
      q_expected_buffer_generation = StrongGeneration 1,
      q_expected_registration_generation = StrongGeneration 1,
      q_expected_remote_key_generation = StrongGeneration 1, q_attempt = no_id, q_dispatch = no_id,
      q_authority = cli_env cli_snap, q_domain = fst cli_start, q_backend = cli_bid,
      q_transport = no_id, q_nic = no_id, q_process = StrongId 1, q_node = StrongId 1,
      q_sim_seed = 0\<rparr>"

definition cli_access_check :: "string list \<times> int" where
  "cli_access_check =
     (case cli_register of (r, rt) \<Rightarrow>
        if \<not> rr_ok r then ([msg ''access-check: registration failed''], 1)
        else
          (let d = fst (validate_remote_access (cli_request (rr_registration r)) rt)
           in ([msg ''remote_write='' @ ad_code d @
                msg '' backend=SYNTHETIC freshness=VALID explanation='' @ ad_explanation d],
               if ad_outcome d = AO_ALLOW then 0 else 1)))"

definition cli_revoke :: "string list \<times> int" where
  "cli_revoke =
     (case cli_register of (r, rt) \<Rightarrow>
        if \<not> rr_ok r then ([msg ''revoke: registration failed''], 1)
        else
          (let rz = fst (revoke (rr_registration r) RV_HARD_REVOKE rt)
           in ([msg ''revoked='' @ bit_text (rv_ok rz) @
                msg '' keys_invalidated='' @ bit_text (rv_keys_invalidated rz) @
                msg '' backend=SYNTHETIC lifecycle='' @ lifecycle_name (rv_lifecycle rz)],
               if rv_ok rz then 0 else 1)))"

text \<open>\<open>None\<close> where \<open>simulate_remote\<close> does not return.\<close>

definition cli_simulate :: "(string list \<times> int) option" where
  "cli_simulate =
     (case cli_register of (r, rt) \<Rightarrow>
        if \<not> rr_ok r then Some ([msg ''simulate: registration failed''], 1)
        else
          (case syn_object rt of
             ReferenceObj b \<Rightarrow> None
           | SyntheticObj b \<Rightarrow>
               map_option (\<lambda>(oc, ex, delta).
                 ([msg ''simulate_remote_write='' @ access_outcome_name oc @
                   msg '' provenance=SYNTHETIC delta='' @ int_to_str delta],
                  if oc = AO_ALLOW then 0 else 1))
                 (syn_simulate_remote OP_WRITE 0 64 1 b)))"

definition cli_save :: "string list \<Rightarrow> FileOutcome \<Rightarrow> files \<Rightarrow> (string list \<times> int) \<times> files" where
  "cli_save argv os fs =
     (let path = (if length argv > 2 then argv ! 2 else ''rdma-buffer-state.bin'')
      in case save path os (snd cli_register) fs of ((ok, err), fs') \<Rightarrow>
           (([msg ''save='' @ (if ok then ''ok'' else ''failed'') @ msg '' path='' @ path @
              msg '' err='' @ err],
             if ok then 0 else 1), fs'))"

definition cli_explain :: "string list \<times> int" where
  "cli_explain =
     ([msg ''explain_registration: registration requires identity, generation, incarnation, backend capability, and provenance to be current.'',
       msg ''explain_backend_capability: '' @
         explain_backend_capability (be_capabilities (syn_object (snd cli_start)))
           MD_SYNTHETIC_REMOTE_CAPABLE (access_mask AR_REMOTE_WRITE)],
      0)"

definition cli_run :: "files \<Rightarrow> string list \<times> int \<Rightarrow> CliRun" where
  "cli_run fs x = \<lparr>cr_out = fst x, cr_code = snd x, cr_files = fs\<rparr>"

definition cli :: "string list \<Rightarrow> FileOutcome \<Rightarrow> files \<Rightarrow> CliRun option" where
  "cli argv os fs =
     (if length argv < 2 then Some (cli_run fs (usage_lines, 1))
      else
        (let cmd = argv ! 1
         in if cmd = ''discover'' then Some (cli_run fs cli_discover)
            else if cmd = ''buffer-create'' then Some (cli_run fs (cli_buffer_create argv))
            else if cmd = ''register'' then Some (cli_run fs cli_register_command)
            else if cmd = ''access-check'' then Some (cli_run fs cli_access_check)
            else if cmd = ''revoke'' then Some (cli_run fs cli_revoke)
            else if cmd = ''simulate'' then map_option (cli_run fs) cli_simulate
            else if cmd = ''save'' then (case cli_save argv os fs of (x, fs') \<Rightarrow> Some (cli_run fs' x))
            else if cmd = ''explain'' then Some (cli_run fs cli_explain)
            else Some (cli_run fs (usage_lines, 1))))"

section \<open>The registry of an invocation\<close>

lemma cli_snap_coord: "cli_snap = coord_snap" "cli_env s = coord_envelope s"
  by (simp_all add: cli_snap_def cli_env_def coord_snap_def coord_snapshot_def coord_envelope_def)

lemma desc_page: "desc_of_id i = page_buffer\<lparr>bd_id := StrongId i\<rparr>"
  by (simp add: desc_of_id_def make_desc_def page_buffer_def default_descriptor_def)

lemma cli_start_eq:
  "fst cli_start = StrongId 1"
  "snd cli_start =
     new_impl\<lparr>im_authority := coord_snap, im_backends := [(cli_bid, cli_syn), (be_id cli_ref, cli_ref)],
       im_domains := [(StrongId 1, \<lparr>de_domain = MD_UNKNOWN, de_state = DS_ACTIVE,
         de_generation = StrongGeneration 1, de_node = StrongId 1, de_process = StrongId 1\<rparr>)],
       im_next_domain := 2,
       im_acct := zero_accounting\<lparr>a_protection_domains := 1\<rparr>\<rparr>"
  by (simp_all add: cli_start_def cli_snap_coord create_protection_domain_def set_authority_def
      add_backend_def new_impl_def zero_accounting_def increment_def Let_def cli_syn_def cli_ref_def
      syn_create_def ref_create_def)

lemma cli_created:
  "create_buffer (desc_of_id 1) (snd cli_start) =
     (StrongId 1, (snd cli_start)
       \<lparr>im_buffers := [(StrongId 1, \<lparr>bu_descriptor = page_buffer, bu_registered = False\<rparr>)],
        im_acct := zero_accounting\<lparr>a_protection_domains := 1, a_logical_buffers := 1,
          a_live_buffer_bytes := 4096\<rparr>\<rparr>)"
proof -
  have "desc_of_id 1 = page_buffer" unfolding desc_page by (simp add: page_buffer_def)
  then show ?thesis
    by (simp add: cli_start_eq create_buffer_def new_impl_def zero_accounting_def increment_def Let_def)
qed

lemma cli_can_register: "be_can_register page_buffer cli_syn = ''''"
  by (simp add: cli_syn_def syn_can_register_ok page_buffer_def domain_supported_def
      syn_capabilities_def syn_create_def validate_range_ok_iff bp_valid_def access_has_def)

lemma cli_ready:
  "register_ready (desc_of_id 1) cli_bid (fst cli_start) (cli_env cli_snap)
     (snd (create_buffer (desc_of_id 1) (snd cli_start))) cli_syn"
proof -
  have d: "desc_of_id 1 = page_buffer" unfolding desc_page by (simp add: page_buffer_def)
  show ?thesis
    unfolding cli_created snd_conv
    using coord_agrees [of "StrongGeneration 1" "StrongId 1"]
    by (simp add: register_ready_def domain_active_def buffer_current_def cli_start_eq cli_snap_coord d
        new_impl_def cli_can_register demo_range_ok coord_snap_def gen_valid_def)
qed

text \<open>What the synthetic backend makes of the registration.\<close>

definition cli_entry :: "RegistrationContext \<Rightarrow> SynEntry" where
  "cli_entry cx =
     \<lparr>se_ctx = cx, se_reg = syn_make_registration (syn_create 7) (syn_region 7 1) page_buffer cx,
      se_key_generation = StrongGeneration 1, se_revoked = False, se_revalidate_required = False\<rparr>"

definition cli_backend_after :: "RegistrationContext \<Rightarrow> SyntheticBackend" where
  "cli_backend_after cx =
     (syn_create 7)\<lparr>sb_next_seq := 2,
       sb_entries := [(syn_make_handle (syn_region 7 1), cli_entry cx)],
       sb_region_handle := [(syn_region 7 1, syn_make_handle (syn_region 7 1))]\<rparr>"

lemma cli_syn_registers:
  "\<exists>bo. be_register page_buffer cx cli_syn = ((bo, Some (se_reg (cli_entry cx))), SyntheticObj (cli_backend_after cx))"
proof -
  have seq: "sb_seed (syn_create 7) = 7" "sb_next_seq (syn_create 7) = 1"
    "sb_entries (syn_create 7) = []" "sb_region_handle (syn_create 7) = []"
    by (simp_all add: syn_create_def)
  have "br_handle (syn_make_registration (syn_create 7) (syn_region 7 1) page_buffer cx) =
      syn_make_handle (syn_region 7 1)"
    by (simp add: syn_make_registration_def)
  then show ?thesis
    using cli_can_register
    by (simp add: syn_register_def cli_syn_def Let_def seq cli_entry_def cli_backend_after_def)
qed

lemma cli_registration:
  obtains r cx where
    "rr_ok (fst cli_register)" "rr_registration (fst cli_register) = StrongId 1"
    "snd cli_register = registered_impl cli_bid (SyntheticObj (cli_backend_after cx)) r
       (snd (create_buffer (desc_of_id 1) (snd cli_start)))"
    "r_id r = StrongId 1" "r_lifecycle r = RL_ACTIVE"
    "rk_key_generation (r_remote_key r) = StrongGeneration 1"
proof -
  let ?im = "snd (create_buffer (desc_of_id 1) (snd cli_start))"
  have d: "desc_of_id 1 = page_buffer" unfolding desc_page by (simp add: page_buffer_def)
  let ?cx = "ready_context page_buffer (fst cli_start) (cli_env cli_snap) ?im cli_syn"
  obtain bo bout b' r where reg: "be_register (desc_of_id 1)
      (ready_context (desc_of_id 1) (fst cli_start) (cli_env cli_snap) ?im cli_syn) cli_syn =
      ((bo, Some bout), b')"
    and r: "r = committed_record (ready_record (desc_of_id 1) cli_bid (fst cli_start) (cli_env cli_snap)
      ?im cli_syn) cli_bid bout (im_authority ?im)"
    and res: "snd cli_register = registered_impl cli_bid b' r ?im"
    "rr_ok (fst cli_register)" "rr_registration (fst cli_register) = r_id r"
    unfolding cli_register_def by (rule register_buffer_ready [OF cli_ready])
  have n: "im_next_registration ?im = 1" unfolding cli_created by (simp add: cli_start_eq new_impl_def)
  have b: "b' = SyntheticObj (cli_backend_after ?cx)" "bout = se_reg (cli_entry ?cx)"
    using reg cli_syn_registers [of ?cx] unfolding d by auto
  have key: "rk_key_generation (r_remote_key r) = StrongGeneration 1"
    by (simp add: r b(2) committed_record_def cli_entry_def syn_make_registration_def)
  have ids: "r_id r = StrongId 1" "r_lifecycle r = RL_ACTIVE"
    by (simp_all add: r n)
  show thesis
    by (rule that [of ?cx r]) (simp_all add: res b ids key)
qed

section \<open>What each command answers\<close>

lemma cli_access_check_eq:
  "cli_access_check = ([''remote_write=ALLOW backend=SYNTHETIC freshness=VALID explanation=remote WRITE allowed''], 0)"
proof -
  obtain r cx where reg: "rr_ok (fst cli_register)" "rr_registration (fst cli_register) = StrongId 1"
    "snd cli_register = registered_impl cli_bid (SyntheticObj (cli_backend_after cx)) r
       (snd (create_buffer (desc_of_id 1) (snd cli_start)))"
    "r_id r = StrongId 1" "r_lifecycle r = RL_ACTIVE"
    "rk_key_generation (r_remote_key r) = StrongGeneration 1"
    by (rule cli_registration)
  have pair: "register_buffer (desc_of_id 1) cli_bid (fst cli_start) (cli_env cli_snap)
      (snd (create_buffer (desc_of_id 1) (snd cli_start))) = (fst cli_register, snd cli_register)"
    by (simp add: cli_register_def)
  have "authority_agrees (im_authority (snd (create_buffer (desc_of_id 1) (snd cli_start))))
      (q_authority (cli_request (StrongId 1)))"
    using cli_ready by (simp add: register_ready_def cli_request_def)
  moreover have "get_registration (StrongId 1) (snd cli_register) = Some r"
    by (simp add: get_registration_def reg(3,4) registered_impl_def um_simps)
  ultimately have "ad_outcome (fst (validate_remote_access (cli_request (StrongId 1)) (snd cli_register))) = AO_ALLOW"
    using registered_access [OF pair reg(1), of "cli_request (StrongId 1)"] reg(2,6)
    by (auto simp: cli_request_def expects_def names_id_def access_superset_def access_has_def
        intrinsic_right_def desc_page page_buffer_def)
  with allowed_explanation [of "cli_request (StrongId 1)" "snd cli_register"]
  have "fst (validate_remote_access (cli_request (StrongId 1)) (snd cli_register)) =
      make_decision AO_ALLOW ''remote WRITE allowed''"
    by (simp add: says_def cli_request_def msg_def)
  with reg(1,2) show ?thesis
    by (simp add: cli_access_check_def split_def Let_def make_decision_def msg_def)
qed

lemma cli_revoke_eq:
  "cli_revoke = ([''revoked=1 keys_invalidated=1 backend=SYNTHETIC lifecycle=REVOKED''], 0)"
proof -
  obtain r cx where reg: "rr_ok (fst cli_register)" "rr_registration (fst cli_register) = StrongId 1"
    "snd cli_register = registered_impl cli_bid (SyntheticObj (cli_backend_after cx)) r
       (snd (create_buffer (desc_of_id 1) (snd cli_start)))"
    "r_id r = StrongId 1" "r_lifecycle r = RL_ACTIVE"
    by (rule cli_registration)
  have "map_of (im_registrations (snd cli_register)) (StrongId 1) = Some r"
    by (simp add: reg(3,4) registered_impl_def um_simps)
  then have "rv_ok (fst (revoke (StrongId 1) RV_HARD_REVOKE (snd cli_register)))"
    "rv_keys_invalidated (fst (revoke (StrongId 1) RV_HARD_REVOKE (snd cli_register)))"
    "rv_lifecycle (fst (revoke (StrongId 1) RV_HARD_REVOKE (snd cli_register))) = RL_REVOKED"
    by (simp_all add: revoke_def reg(5) Let_def split_def hard_revoked_reg_def)
  with reg(1,2) show ?thesis
    by (simp add: cli_revoke_def split_def Let_def bit_text_def msg_def)
qed

lemma cli_best_handle:
  "syn_best_handle 1 (sb_entries (cli_backend_after cx)) '''' = syn_make_handle (syn_region 7 1)"
  by (simp add: cli_backend_after_def cli_entry_def)

lemma cli_simulate_code: "\<exists>out. cli_simulate = Some (out, 0)"
proof -
  obtain r cx where reg: "rr_ok (fst cli_register)"
    "snd cli_register = registered_impl cli_bid (SyntheticObj (cli_backend_after cx)) r
       (snd (create_buffer (desc_of_id 1) (snd cli_start)))"
    by (rule cli_registration)
  have obj: "syn_object (snd cli_register) = SyntheticObj (cli_backend_after cx)"
    by (simp add: syn_object_def reg(2) registered_impl_def um_simps)
  have handle: "syn_make_handle (syn_region 7 1) \<noteq> ''''" by (simp add: syn_make_handle_def)
  have entry: "map_of (sb_entries (cli_backend_after cx)) (syn_make_handle (syn_region 7 1)) = Some (cli_entry cx)"
    and writes: "sb_remote_write_supported (cli_backend_after cx)"
    by (simp_all add: cli_backend_after_def) (simp add: syn_create_def)
  have fields: "br_handle (se_reg (cli_entry cx)) = syn_make_handle (syn_region 7 1)"
    "\<not> se_revoked (cli_entry cx)" "\<not> se_revalidate_required (cli_entry cx)"
    "bk_remote_key_generation (br_keys (se_reg (cli_entry cx))) = StrongGeneration 1"
    "se_key_generation (cli_entry cx) = StrongGeneration 1"
    "br_registered_length (se_reg (cli_entry cx)) = 4096"
    "access_has (br_granted_access (se_reg (cli_entry cx))) AR_REMOTE_WRITE"
    by (simp_all add: cli_entry_def syn_make_registration_def page_buffer_def access_has_def)
  have "syn_query \<lparr>rh_memory_region_id = br_memory_region_id (se_reg (cli_entry cx)),
      rh_handle = br_handle (se_reg (cli_entry cx))\<rparr> (br_keys (se_reg (cli_entry cx))) OP_WRITE 0 64
      (cli_backend_after cx) = (AO_ALLOW, msg ''Synthetic backend permits this remote operation.'')"
    by (simp add: syn_query_def entry fields writes)
  then have "\<exists>ex delta. syn_simulate_remote OP_WRITE 0 64 1 (cli_backend_after cx) = Some (AO_ALLOW, ex, delta)"
    by (simp add: syn_simulate_remote_def cli_best_handle handle entry Let_def)
  with reg(1) obj show ?thesis
    by (auto simp: cli_simulate_def split_def)
qed

lemma cli_buffer_create_code: "snd (cli_buffer_create argv) = 0"
  by (simp add: cli_buffer_create_def create_buffer_def cli_start_eq desc_page page_buffer_def
      new_impl_def Let_def split_def)

lemma cli_register_code: "snd cli_register_command = 0"
  by (rule cli_registration) (simp add: cli_register_command_def Let_def)

text \<open>\<open>save\<close> succeeds when every call does, whatever \<open>std::remove\<close> answers.\<close>

definition fo_saves :: "FileOutcome \<Rightarrow> bool" where
  "fo_saves os \<longleftrightarrow> fo_opens os \<and> fo_short_write os = None \<and> fo_renames os"

lemma cli_save_code: "snd (fst (cli_save argv os fs)) = (if fo_saves os then 0 else 1)"
  by (simp add: cli_save_def save_def write_file_def fo_saves_def Let_def split_def split: option.split)

lemma cli_save_files:
  "snd (cli_save argv os fs) =
     snd (save (if length argv > 2 then argv ! 2 else ''rdma-buffer-state.bin'') os (snd cli_register) fs)"
  by (simp add: cli_save_def Let_def split_def)

text \<open>C32. What the tool returns: of the fifteen commands its usage text lists, the eight that are
  implemented exit with zero (\<open>save\<close> when the file could be written); every other first argument,
  the seven listed ones included, and a missing one print the four lines of the usage text, written
  out here, and exit with one. Every invocation returns, and no command but \<open>save\<close> touches a file.
  Of what the implemented commands print, the verdict lines of \<open>access-check\<close> and \<open>revoke\<close> are
  stated.\<close>

theorem cli_exit_code:
  "\<exists>run. cli argv os fs = Some run \<and>
     cr_code run =
       (if length argv < 2 then 1
        else if argv ! 1 \<in> {''discover'', ''buffer-create'', ''register'', ''access-check'',
               ''revoke'', ''simulate'', ''explain''} then 0
        else if argv ! 1 = ''save'' \<and> fo_saves os then 0 else 1) \<and>
     (length argv < 2 \<or>
      argv ! 1 \<notin> {''discover'', ''buffer-create'', ''register'', ''access-check'', ''revoke'', ''simulate'',
        ''explain'', ''save''} \<longrightarrow>
      cr_out run =
        [''rdma-buffer <cmd>'',
         ''  discover | buffer-create | buffer-show | register | deregister'',
         ''  lease-acquire | lease-release | access-check | revoke | rotate-key'',
         ''  explain | simulate | save | recover | benchmark'']) \<and>
     (length argv \<ge> 2 \<and> argv ! 1 = ''access-check'' \<longrightarrow>
      cr_out run = [''remote_write=ALLOW backend=SYNTHETIC freshness=VALID explanation=remote WRITE allowed'']) \<and>
     (length argv \<ge> 2 \<and> argv ! 1 = ''revoke'' \<longrightarrow>
      cr_out run = [''revoked=1 keys_invalidated=1 backend=SYNTHETIC lifecycle=REVOKED'']) \<and>
     cr_files run =
       (if length argv \<ge> 2 \<and> argv ! 1 = ''save''
        then snd (save (if length argv > 2 then argv ! 2 else ''rdma-buffer-state.bin'') os
                   (snd cli_register) fs)
        else fs)"
proof -
  obtain out where sim: "cli_simulate = Some (out, 0)" using cli_simulate_code by blast
  show ?thesis
    by (simp add: cli_def Let_def split_def cli_run_def sim cli_discover_def cli_explain_def
        cli_buffer_create_code cli_register_code cli_access_check_eq cli_revoke_eq cli_save_code
        cli_save_files usage_lines_def msg_def)
qed

theorem cli_exit_code_witness:
  "\<exists>os run. cli [''rdma-buffer'', ''access-check''] os Map.empty = Some run \<and> cr_code run = 0 \<and>
     cr_out run = [''remote_write=ALLOW backend=SYNTHETIC freshness=VALID explanation=remote WRITE allowed''] \<and>
     cr_files run = Map.empty"
proof -
  let ?os = "\<lparr>fo_opens = True, fo_short_write = None, fo_removes = True, fo_renames = True\<rparr>"
  from cli_exit_code [of "[''rdma-buffer'', ''access-check'']" ?os Map.empty]
  obtain run where "cli [''rdma-buffer'', ''access-check''] ?os Map.empty = Some run" "cr_code run = 0"
    "cr_out run = [''remote_write=ALLOW backend=SYNTHETIC freshness=VALID explanation=remote WRITE allowed'']"
    "cr_files run = Map.empty"
    by (auto simp: numeral_2_eq_2)
  then show ?thesis by blast
qed

end
