(* ===== verification/Lifetime.thy ===== *)
theory Lifetime
  imports Recovery Races
begin

text \<open>
  A registry over several lifetimes: the interleaved critical sections of \<open>Concurrency\<close>, with
  \<open>recover\<close> from any file, at any moment. What holds of the shape of the tables whatever the
  threads do and whatever the file contains; that a registration read from a file stays closed,
  and the one exception, a call in flight that holds its identity.
\<close>

section \<open>Lifetimes\<close>

inductive life_step :: "Impl \<times> Pending list \<Rightarrow> Impl \<times> Pending list \<Rightarrow> bool" where
  running: "sys_step s s' \<Longrightarrow> life_step s s'"
| recovering: "recover contents rp im = (x, im') \<Longrightarrow> life_step (im, ps) (im', ps)"

abbreviation life_run :: "Impl \<times> Pending list \<Rightarrow> Impl \<times> Pending list \<Rightarrow> bool" where
  "life_run \<equiv> life_step\<^sup>*\<^sup>*"

lemma life_run_sys: "sys_run s s' \<Longrightarrow> life_run s s'"
  by (induction rule: rtranclp_induct) (auto intro: rtranclp.rtrancl_into_rtrancl life_step.running)

text \<open>A buffer created without an identity keeps a descriptor without one.\<close>

definition filed :: "Impl \<Rightarrow> bool" where
  "filed im \<longleftrightarrow>
     (\<forall>i r. reg_at im i = Some r \<longrightarrow> r_id r = i) \<and>
     (\<forall>i l. map_of (im_leases im) i = Some l \<longrightarrow> l_id l = i) \<and>
     (\<forall>i e. map_of (im_buffers im) i = Some e \<longrightarrow>
        bd_id (bu_descriptor e) = i \<or> \<not> id_valid (bd_id (bu_descriptor e)))"

lemma filedD:
  assumes "filed im"
  shows "\<forall>i r. get_registration i im = Some r \<longrightarrow> r_id r = i"
    and "\<forall>i l. map_of (im_leases im) i = Some l \<longrightarrow> l_id l = i"
    and "\<forall>i d. get_buffer i im = Some d \<longrightarrow> bd_id d = i \<or> \<not> id_valid (bd_id d)"
proof -
  from assms show "\<forall>i r. get_registration i im = Some r \<longrightarrow> r_id r = i"
    and "\<forall>i l. map_of (im_leases im) i = Some l \<longrightarrow> l_id l = i"
    by (simp_all add: filed_def reg_at_def get_registration_def)
  show "\<forall>i d. get_buffer i im = Some d \<longrightarrow> bd_id d = i \<or> \<not> id_valid (bd_id d)"
  proof (intro allI impI)
    fix i d
    assume "get_buffer i im = Some d"
    then obtain e where "map_of (im_buffers im) i = Some e" "d = bu_descriptor e"
      by (auto simp: get_buffer_def)
    with assms show "bd_id d = i \<or> \<not> id_valid (bd_id d)" unfolding filed_def by metis
  qed
qed

definition well_filed :: "Impl \<Rightarrow> bool" where
  "well_filed im \<longleftrightarrow> tables_wf im \<and> filed im"

lemma filed_frame:
  assumes "filed im" and "evolves {} im im'" and "im_leases im' = im_leases im"
    and "im_buffers im' = im_buffers im"
  shows "filed im'"
proof -
  have "r_id r' = i" if at: "reg_at im' i = Some r'" for i r'
  proof -
    from evolvesD [OF assms(2) _ at] obtain r where r: "reg_at im i = Some r" "r' = r \<or> reg_step r r'"
      by auto
    with assms(1) reg_step_same [of r r'] show ?thesis
      by (auto simp: filed_def same_registration_def)
  qed
  with assms show ?thesis by (simp add: filed_def)
qed

lemma map_of_um_for_Some:
  assumes "um_for p f g m acc = (m', a)" and "map_of m' i = Some x"
  obtains y where "map_of m i = Some y" "x = y \<or> x = f y"
proof -
  from assms(1) have "m' = fst (um_for p f g m acc)" by simp
  with assms(2) show thesis
    using that by (auto simp: um_simps split: option.splits if_splits)
qed

text \<open>The three tables \<open>filed\<close> speaks of change in four operations.\<close>

lemma filed_create_buffer:
  assumes "filed im" and "create_buffer d im = (i, im')"
  shows "filed im'"
proof -
  have ev: "evolves {} im im'" using exec_evolves [of im "OpCreateBuffer d"] by (simp add: assms(2))
  have named: "bd_id d = i \<or> \<not> id_valid (bd_id d)" if "named_buffer d im = (i, im0)" for im0
    using that by (auto simp: named_buffer_def split: if_splits)
  have entered: "filed im'" if "im_leases im' = im_leases im"
    and "im_buffers im' = AList.update i e (im_buffers im)" and "bu_descriptor e = d"
    and "bd_id d = i \<or> \<not> id_valid (bd_id d)" for e
  proof -
    have "filed (im'\<lparr>im_buffers := im_buffers im\<rparr>)"
      by (rule filed_frame [OF assms(1)]) (use ev that(1) in \<open>simp_all add: evolves_def reg_at_def\<close>)
    with that show ?thesis by (auto simp: filed_def reg_at_def um_simps)
  qed
  from assms(2) show ?thesis
  proof (cases rule: create_buffer_cases)
    case (refused j im0)
    with named_buffer_frame [OF refused(1)] show ?thesis by (intro filed_frame [OF assms(1) ev]) auto
  next
    case (created im0 a)
    with named_buffer_frame [OF created(1)] named [OF created(1)] show ?thesis by (intro entered) auto
  next
    case (reallocated im0 e regs a b)
    with named_buffer_frame [OF reallocated(1)] named [OF reallocated(1)] show ?thesis
      by (intro entered [of "e\<lparr>bu_descriptor := d, bu_registered := False\<rparr>"]) auto
  qed
qed

lemma filed_acquire:
  assumes "filed im" and "acquire_lease i env m im = (la, im')"
  shows "filed im'"
  using assms(2) by (cases rule: acquire_lease_cases)
    (use assms(1) in \<open>auto simp: filed_def reg_at_def um_simps new_lease_def\<close>)

text \<open>Where only the states of leases change.\<close>

lemma filed_leases:
  assumes "filed im" and "evolves {} im im'" and "im_buffers im' = im_buffers im"
    and "\<And>i l. map_of (im_leases im') i = Some l \<Longrightarrow> l_id l = i"
  shows "filed im'"
proof -
  have "filed (im'\<lparr>im_leases := im_leases im\<rparr>)"
    by (rule filed_frame [OF assms(1)]) (use assms(2,3) in \<open>simp_all add: evolves_def reg_at_def\<close>)
  with assms(4) show ?thesis by (auto simp: filed_def reg_at_def)
qed

lemma filed_release:
  assumes "filed im" and "release_lease l im = (b, im')"
  shows "filed im'"
proof -
  have ev: "evolves {} im im'" using exec_evolves [of im "OpReleaseLease l"] by (simp add: assms(2))
  from assms(2) show ?thesis
  proof (cases rule: release_lease_cases)
    case refused
    with assms(1) show ?thesis by simp
  next
    case (released ls regs)
    with assms(1) have "l_id k = j" if "map_of (im_leases im') j = Some k" for j k
      using that by (auto simp: filed_def um_simps split: if_splits)
    then show ?thesis by (intro filed_leases [OF assms(1) ev]) (simp_all add: released(5))
  qed
qed

lemma filed_revoke:
  assumes "filed im" and "revoke i mode im = (rv, im')"
  shows "filed im'"
proof -
  have ev: "evolves {} im im'" using exec_evolves [of im "OpRevoke i mode"] by (simp add: assms(2))
  from assms(2) show ?thesis
  proof (cases rule: revoke_cases)
    case refused
    with assms(1) show ?thesis by simp
  next
    case (hard r ls a)
    have "l_id l = j" if "map_of ls j = Some l" for j l
      by (rule map_of_um_for_Some [OF hard(5) that]) (use assms(1) in \<open>auto simp: filed_def\<close>)
    then show ?thesis by (intro filed_leases [OF assms(1) ev]) (simp_all add: hard(6))
  next
    case (soft r)
    then show ?thesis by (intro filed_frame [OF assms(1) ev]) auto
  qed
qed

lemma filed_exec:
  assumes "filed im"
  shows "filed (exec op im)"
proof (cases op)
  case (OpCreateBuffer d)
  with filed_create_buffer [OF assms surjective_pairing] show ?thesis by simp
next
  case (OpAcquireLease i env m)
  with filed_acquire [OF assms surjective_pairing] show ?thesis by simp
next
  case (OpReleaseLease l)
  with filed_release [OF assms surjective_pairing] show ?thesis by simp
next
  case (OpRevoke i mode)
  with filed_revoke [OF assms surjective_pairing] show ?thesis by simp
qed (rule filed_frame [OF assms exec_evolves exec_leases(1) exec_buffers]; simp)+

lemma well_filed_exec: "well_filed im \<Longrightarrow> well_filed (exec op im)"
  by (simp add: well_filed_def tables_wf_exec filed_exec)

text \<open>A critical section that only replaces records, in the same tables.\<close>

lemma well_filed_frame:
  assumes "well_filed im" and "evolves {} im im'" and "um_wf (im_registrations im')"
    and "im_active_reg im' = im_active_reg im" and "im_leases im' = im_leases im"
    and "im_domains im' = im_domains im" and "im_buffers im' = im_buffers im"
  shows "well_filed im'"
  using assms filed_frame [of im im'] by (simp add: well_filed_def tables_wf_def)

lemma well_filed_registrations: "well_filed im \<Longrightarrow> um_wf (im_registrations im)"
  by (simp add: well_filed_def tables_wf_def)

lemma well_filed_prepare:
  assumes "well_filed im" and "register_prepare d bid pd env im = (x, im')"
  shows "well_filed im'"
  using assms(2)
proof (cases rule: register_prepare_cases)
  case refused
  with assms(1) show ?thesis by simp
next
  case (ready b)
  with assms(1) show ?thesis by (simp add: well_filed_def tables_wf_def filed_def reg_at_def)
qed

lemma well_filed_backends: "well_filed (im\<lparr>im_backends := bs\<rparr>) \<longleftrightarrow> well_filed im"
  by (simp add: well_filed_def tables_wf_def filed_def reg_at_def)

lemma well_filed_commit:
  assumes "well_filed im" and "register_commit r bid bout im = (rr, im')"
  shows "well_filed im'"
proof -
  have im': "im_registrations im' = AList.update (r_id r) (committed_record r bid bout (im_authority im))
      (im_registrations im)" "im_leases im' = im_leases im" "im_buffers im' = im_buffers im"
    "im_domains im' = im_domains im" "um_wf (im_active_reg im')"
    using assms by (auto simp: register_commit_def Let_def well_filed_def tables_wf_def um_simps)
  from assms(1) show ?thesis
    by (simp add: well_filed_def tables_wf_def filed_def reg_at_def im' um_simps)
qed

lemma well_filed_put:
  assumes "well_filed im" and "reg_at im i = Some r" and "reg_step r r'"
  shows "well_filed (put_reg i r' im)"
  by (rule well_filed_frame [OF assms(1) evolves_update [OF _ _ assms(2,3)]])
    (simp_all add: put_reg_def um_wf_update well_filed_registrations [OF assms(1)])

lemma well_filed_deregister_backend:
  assumes "well_filed im" and "deregister_backend i h bid im = (x, im')"
  shows "well_filed im'"
  using assms(2)
proof (cases rule: deregister_backend_cases)
  case (failed b bo b' ex im0)
  have im0: "well_filed im0" by (simp add: failed(6) well_filed_backends assms(1))
  show ?thesis
  proof (cases "reg_at im i")
    case None
    with im0 show ?thesis by (simp add: failed(7))
  next
    case (Some r)
    have "reg_at im0 i = Some r" using Some by (simp add: failed(6) reg_at_def)
    from well_filed_put [OF im0 this reg_step.deregister_failed] Some show ?thesis
      by (simp add: failed(7))
  qed
qed (simp_all add: assms(1) well_filed_backends)

lemma well_filed_deregister_finish:
  assumes "well_filed im" and "deregister_finish i im = (x, im')"
  shows "well_filed im'"
proof -
  obtain ok ex where x: "x = (ok, ex)" by (rule prod.exhaust)
  from assms(2) [unfolded x] show ?thesis
  proof (cases rule: deregister_finish_cases)
    case vanished
    with assms(1) show ?thesis by simp
  next
    case (erased r a)
    have wf: "um_wf (im_leases im)" using assms(1) by (simp add: well_filed_def tables_wf_def)
    show ?thesis
      using assms(1) wf
      by (auto simp: erased(4) well_filed_def tables_wf_def filed_def reg_at_def um_simps
          split: option.splits if_splits)
  qed
qed

lemma well_filed_sys_step:
  assumes "sys_step s s'" and "well_filed (fst s)"
  shows "well_filed (fst s')"
  using assms
proof (cases rule: sys_step.cases)
  case (deregister_begin i im h bid im' ps)
  from deregister_begin(3) show ?thesis
  proof (cases rule: deregister_prepare_cases)
    case (begun r)
    from well_filed_put [OF _ begun(2) reg_step.deregistering [OF begun(4,3)]] assms(2)
    show ?thesis by (simp add: deregister_begin(1,2) begun(5))
  qed simp
next
  case (deregister_refused i im ex im' ps)
  from deregister_refused(3) show ?thesis
    by (cases rule: deregister_prepare_cases) (use assms(2) deregister_refused(1,2) in simp_all)
next
  case (register_backend_ok d bid cx im bout im' ps r qs)
  with register_backend_frame [OF register_backend_ok(3)] assms(2) show ?thesis
    by (auto simp: well_filed_backends)
next
  case (register_backend_failed d bid cx im rr im' ps r qs)
  with register_backend_frame [OF register_backend_failed(3)] assms(2) show ?thesis
    by (auto simp: well_filed_backends)
qed (use assms(2) in \<open>auto intro: well_filed_exec well_filed_prepare well_filed_commit
    well_filed_deregister_backend well_filed_deregister_finish\<close>)

section \<open>Recovery\<close>

lemma um_wf_fold: "(\<And>x m. um_wf m \<Longrightarrow> um_wf (f x m)) \<Longrightarrow> um_wf m \<Longrightarrow> um_wf (fold f xs m)"
  by (induction xs arbitrary: m) simp_all

lemma well_filed_recovered:
  assumes "well_filed im"
  shows "well_filed (recovered_impl s im a)"
proof -
  have insert: "um_wf m \<Longrightarrow> um_wf (um_insert_new k v m)" for k :: "'k" and v :: "'v" and m
    by (simp add: um_insert_new_def um_wf_update)
  have wf: "tables_wf (recovered_impl s im a)"
    using assms
    by (auto simp: well_filed_def tables_wf_def recovered_impl_def um_insert_new_def um_wf_update
        intro!: um_wf_fold)
  have regs: "r_id r = i" if "reg_at (recovered_impl s im a) i = Some r" for i r
    using that assms unfolding recovered_reg_at
    by (auto simp: map_add_Some_iff recovered_reg_def well_filed_def filed_def dest!: map_of_SomeD)
  have bufs: "bd_id (bu_descriptor e) = i \<or> \<not> id_valid (bd_id (bu_descriptor e))"
    if "map_of (im_buffers (recovered_impl s im a)) i = Some e" for i e
  proof -
    let ?m = "map (\<lambda>b. (bd_id b, idle_entry b)) (ps_buffers s)"
    from that have "map_of (im_buffers im) i = Some e \<or> map_of ?m i = Some e"
      by (auto simp: recovered_impl_def map_of_insert_all map_add_Some_iff)
    moreover have "bd_id (bu_descriptor e) = i" if "map_of ?m i = Some e"
      using map_of_SomeD [OF that] by auto
    ultimately show ?thesis using assms unfolding well_filed_def filed_def by metis
  qed
  have "im_leases (recovered_impl s im a) = im_leases im" by (simp add: recovered_impl_def)
  with wf regs bufs assms show ?thesis by (simp add: well_filed_def filed_def)
qed

lemma well_filed_recover:
  assumes "well_filed im" and "recover c rp im = (x, im')"
  shows "well_filed im'"
proof -
  obtain ok err rp' where x: "x = (ok, err, rp')" by (metis surj_pair)
  from assms(2) [unfolded x] show ?thesis
    by (cases rule: recover_cases) (use assms(1) well_filed_recovered in auto)
qed

lemma well_filed_run:
  assumes "life_run s s'" and "well_filed (fst s)"
  shows "well_filed (fst s')"
  using assms
proof (induction rule: rtranclp_induct)
  case (step s1 s2)
  from step(2) show ?case
    by (cases rule: life_step.cases)
      (use step(3,4) in \<open>auto intro: well_filed_sys_step well_filed_recover\<close>)
qed

lemma well_filed_new: "well_filed new_impl"
  by (simp add: well_filed_def tables_wf_def filed_def new_impl_def reg_at_def um_simps)

text \<open>C26. The tables keep their type: in every lifetime of a registry, with any number of threads
  in it and recovery from any file at any moment, no identity occurs twice in a table, every
  registration and every lease is filed under the identity it carries, and every buffer under
  the identity of its descriptor, unless the descriptor has none.\<close>

theorem tables_stay_filed:
  assumes "life_run (new_impl, []) (im, ps)"
  shows "distinct (map fst (im_registrations im)) \<and> distinct (map fst (im_leases im)) \<and>
    distinct (map fst (im_buffers im)) \<and> distinct (map fst (im_domains im)) \<and>
    distinct (map fst (im_active_reg im)) \<and>
    (\<forall>i r. get_registration i im = Some r \<longrightarrow> r_id r = i) \<and>
    (\<forall>i l. map_of (im_leases im) i = Some l \<longrightarrow> l_id l = i) \<and>
    (\<forall>i d. get_buffer i im = Some d \<longrightarrow> bd_id d = i \<or> \<not> id_valid (bd_id d))"
proof -
  from well_filed_run [OF assms] well_filed_new have "well_filed im" by simp
  then have wf: "tables_wf im" and filed: "filed im" by (simp_all add: well_filed_def)
  from wf show ?thesis
    by (intro conjI filedD [OF filed]) (simp_all add: tables_wf_def um_wf_def)
qed

theorem tables_stay_filed_witness:
  "life_run (new_impl, []) (demo1, []) \<and>
   map_option r_id (get_registration demo_reg demo1) = Some demo_reg"
proof -
  have life: "life_run (new_impl, []) (demo1, [])" by (rule life_run_sys [OF demo1_reachable])
  moreover obtain r where "get_registration demo_reg demo1 = Some r"
    by (simp add: demo1_eq get_registration_def)
  ultimately show ?thesis using tables_stay_filed [OF life] by simp
qed

section \<open>A registration read from a file\<close>

lemma retired_recover:
  assumes "recover c rp im = (x, im')" and "retired i (im, ps)"
  shows "retired i (im', ps)"
proof -
  obtain ok err rp' where x: "x = (ok, err, rp')" by (metis surj_pair)
  from assms(1) [unfolded x] show ?thesis
  proof (cases rule: recover_cases)
    case refused
    with assms(2) show ?thesis by simp
  next
    case (recovered bytes s a)
    have "im_next_registration im' = im_next_registration im"
      by (simp add: recovered(5) recovered_impl_def)
    moreover have "r_freshness r \<noteq> FR_VALID" if "reg_at im' i = Some r" for r
    proof
      assume "r_freshness r = FR_VALID"
      with that have "reg_at im i = Some r" unfolding recovered(5) by (rule recovered_not_fresh)
      with assms(2) \<open>r_freshness r = FR_VALID\<close> show False by (simp add: retired_def)
    qed
    ultimately show ?thesis using assms(2) by (simp add: retired_def)
  qed
qed

lemma retired_life_run:
  assumes "life_run s s'" and "retired i s"
  shows "retired i s'"
  using assms
proof (induction rule: rtranclp_induct)
  case (step s1 s2)
  from step(2) show ?case
  proof (cases rule: life_step.cases)
    case running
    with step(3,4) show ?thesis by (blast intro: retired_step)
  next
    case (recovering contents rp im x im' ps)
    with step(3,4) show ?thesis by (simp add: retired_recover [OF recovering(3)])
  qed
qed

lemma retired_refused:
  "retired (q_source_registration q) (im, ps) \<Longrightarrow> ad_outcome (fst (validate_remote_access q im)) \<noteq> AO_ALLOW"
  by (intro not_fresh_refused) (auto simp: retired_def)

text \<open>C23. A registration that was read from a file stays closed: if its identity is one the registry
  has handed out before, and no \<open>register_buffer\<close> call in flight at the recovery holds it, then no
  request that names it is ever allowed again, whatever the threads do after the recovery, the
  calls in flight included, and whatever is recovered later.\<close>

theorem recovered_registration_stays_closed:
  assumes "recover (Some bytes) rp im = ((True, err, rp'), im')"
    and "parse default_persistable bytes = Inr s" and "r \<in> set (ps_registrations s)"
    and "id_value (r_id r) < im_next_registration im" and "r_id r \<notin> set (pending_ids ps)"
    and "life_run (im', ps) (im'', ps'')" and "q_source_registration q = r_id r"
  shows "ad_outcome (fst (validate_remote_access q im'')) \<noteq> AO_ALLOW"
proof -
  from assms(1) obtain a where im': "im' = recovered_impl s im a"
    by (cases rule: recover_cases) (use assms(2) in auto)
  have "retired (r_id r) (im', ps)"
    using recovered_closed [OF assms(3), of im a] assms(4,5)
    by (auto simp: im' retired_def recovered_impl_def)
  then have "retired (r_id r) (im'', ps'')" by (rule retired_life_run [OF assms(6)])
  then show ?thesis by (intro retired_refused) (simp add: assms(7))
qed

theorem recovered_registration_stays_closed_witness:
  "\<exists>im'. recover (Some demo_saved) default_report demo1 = im' \<and> fst (fst im') \<and>
     ad_outcome (fst (validate_remote_access demo_request (advance_epoch (snd im')))) \<noteq> AO_ALLOW"
proof -
  note parsed = saved_parses [OF demo1_seq demo_fits demo_named]
  obtain rp' im' where r: "recover (Some demo_saved) default_report demo1 = ((True, '''', rp'), im')"
    using parsed recover_state_eq [of "kept demo1" demo1 default_report] by (auto simp: recover_def)
  have "sys_run (im', []) (exec OpAdvanceEpoch im', [])" by (rule run_atomic) simp
  then have "life_run (im', []) (exec OpAdvanceEpoch im', [])" by (rule life_run_sys)
  from recovered_registration_stays_closed [OF r parsed kept_demo_registration _ _ this, of demo_request]
  have "ad_outcome (fst (validate_remote_access demo_request (advance_epoch im'))) \<noteq> AO_ALLOW"
    by (simp add: demo1_eq logical_registration_def)
  with r show ?thesis by simp
qed

text \<open>C40. The call in flight is a real exception. The identity a \<open>register_buffer\<close> call took before
  the recovery may be one the file holds: the recovery closes the registration, and the last
  critical section of the call overwrites the recovered record with an active one, without
  looking whether there is a record. In the worked scenario a request that names the recovered
  registration is refused right after \<open>recover\<close>, and allowed once the call that was in flight has
  returned, although nobody revalidated anything.\<close>

theorem recovery_reopens_in_flight:
  "\<exists>s r rp' im' im''. life_run (new_impl, []) (demo_begun, [demo_pending]) \<and>
     recover (Some demo_saved) default_report demo_begun = ((True, '''', rp'), im') \<and>
     parse default_persistable demo_saved = Inr s \<and> r \<in> set (ps_registrations s) \<and>
     id_value (r_id r) < im_next_registration demo_begun \<and>
     q_source_registration demo_request = r_id r \<and>
     ad_outcome (fst (validate_remote_access demo_request im')) \<noteq> AO_ALLOW \<and>
     life_run (im', [demo_pending]) (im'', []) \<and>
     ad_outcome (fst (validate_remote_access demo_request im'')) = AO_ALLOW"
proof -
  note parsed = saved_parses [OF demo1_seq demo_fits demo_named]
  obtain rp' a where rec: "recover (Some demo_saved) default_report demo_begun =
      ((True, '''', rp'), recovered_impl (kept demo1) demo_begun a)"
    using parsed recover_state_eq [of "kept demo1" demo_begun default_report] by (auto simp: recover_def)
  let ?im = "recovered_impl (kept demo1) demo_begun a"
  let ?r = "logical_registration demo_record\<lparr>r_policy_generation := no_gen\<rparr>"
  have "r_id ?r = demo_reg" by (simp add: logical_registration_def)
  then have closed: "ad_outcome (fst (validate_remote_access demo_request ?im)) \<noteq> AO_ALLOW"
    using recovered_closed [OF kept_demo_registration, of demo_begun a]
    by (intro not_fresh_refused) auto
  have "im_authority ?im = demo_authority"
    by (simp add: recovered_impl_def kept_authority demo_authority_def)
  then have auth: "authority_agrees (im_authority ?im) demo_env" by (simp add: demo_agrees)
  have backend: "map_of (im_backends ?im) demo_bid = Some demo_backend"
    by (simp add: recovered_impl_def demo_begun_def demo0_eq)
  obtain im'' where "sys_run (?im, [demo_pending]) (im'', [])"
    and "ad_outcome (fst (validate_remote_access demo_request im'')) = AO_ALLOW"
    by (rule demo_pending_opens [OF backend demo_can_register refl auth])
  with rec parsed kept_demo_registration closed show ?thesis
    by (intro exI [of _ "kept demo1"] exI [of _ ?r] exI [of _ rp'] exI [of _ ?im] exI [of _ im''])
      (simp add: life_run_sys demo_begun_reachable logical_registration_def)
qed

end
