(* ===== verification/HostMemory.thy ===== *)
theory HostMemory
  imports Reference
begin

text \<open>
  Preparing host memory (\<open>src/windows_os.cpp\<close>, both builds) and the pinning probe of the reference
  backend in the Windows build. What the operating system answers is the record \<open>HostOs\<close>; an
  address is a word, zero the null pointer. A result of type \<open>option\<close> is \<open>None\<close> where the code
  does not return. The probe returns the calls it made, in order.
\<close>

section \<open>The operating system\<close>

record HostOs =
  ho_page_size :: u64
  ho_alloc :: "u64 \<Rightarrow> u64"
  ho_frees :: bool
  ho_locks :: bool
  ho_error :: u64

datatype OsCall =
  CallAlloc u64 u64 | CallTouch u64 "u64 list" | CallLock u64 u64 | CallUnlock u64 u64 | CallFree u64

section \<open>The Windows build\<close>

definition win_page_size :: "HostOs \<Rightarrow> u64" where
  "win_page_size os = ho_page_size os"

definition win_commit_pages :: "HostOs \<Rightarrow> u64 \<Rightarrow> u64 \<times> string" where
  "win_commit_pages os len =
     (if len = 0 then (0, msg ''commit_pages: zero length'')
      else if ho_alloc os len = 0
      then (0, msg ''commit_pages VirtualAlloc failed, error='' @ int_to_str (ho_error os))
      else (ho_alloc os len, ''''))"

definition win_release_pages :: "HostOs \<Rightarrow> u64 \<Rightarrow> string \<Rightarrow> bool \<times> string" where
  "win_release_pages os p err =
     (if p = 0 then (True, err)
      else if \<not> ho_frees os
      then (False, msg ''release_pages VirtualFree failed, error='' @ int_to_str (ho_error os))
      else (True, err))"

definition win_virtual_lock :: "HostOs \<Rightarrow> u64 \<Rightarrow> u64 \<Rightarrow> bool \<times> string" where
  "win_virtual_lock os p len =
     (if p = 0 \<or> len = 0 then (False, msg ''virtual_lock: null pointer or zero length'')
      else if ho_locks os then (True, '''')
      else (False, msg ''VirtualLock failed, error='' @ int_to_str (ho_error os)))"

definition win_virtual_unlock :: "u64 \<Rightarrow> string \<Rightarrow> bool \<times> string" where
  "win_virtual_unlock p err = (if p = 0 then (True, err) else (True, ''''))"

text \<open>The loop over the pages; the offsets written and their number.\<close>

partial_function (option) touch_loop ::
    "u64 \<Rightarrow> u64 \<Rightarrow> u64 \<Rightarrow> u64 \<Rightarrow> u64 list \<Rightarrow> (u64 \<times> u64 list) option" where
  "touch_loop stride len off touched offs =
     (if off < len then touch_loop stride len (off + stride) (touched + 1) (offs @ [off])
      else Some (touched, offs))"

definition win_touch_range :: "HostOs \<Rightarrow> u64 \<Rightarrow> u64 \<Rightarrow> (u64 \<times> u64 list) option" where
  "win_touch_range os p len =
     (if p = 0 then Some (0, [])
      else touch_loop (if win_page_size os \<noteq> 0 then win_page_size os else 4096) len 0 0 [])"

section \<open>The other builds\<close>

definition port_commit_pages :: "HostOs \<Rightarrow> u64 \<Rightarrow> u64 \<times> string" where
  "port_commit_pages os len =
     (if ho_alloc os len = 0 then (0, msg ''commit_pages: allocation failed'')
      else (ho_alloc os len, ''''))"

definition port_release_pages :: "u64 \<Rightarrow> string \<Rightarrow> bool \<times> string" where
  "port_release_pages p err = (True, err)"

definition port_virtual_lock :: "u64 \<Rightarrow> u64 \<Rightarrow> bool \<times> string" where
  "port_virtual_lock p len = (False, msg ''virtual_lock: not supported on this platform'')"

definition port_virtual_unlock :: "u64 \<Rightarrow> u64 \<Rightarrow> bool \<times> string" where
  "port_virtual_unlock p len = (True, '''')"

definition port_touch_range :: "u64 \<Rightarrow> u64 \<Rightarrow> (u64 \<times> u64 list) option" where
  "port_touch_range p len = (if p = 0 then Some (0, []) else touch_loop 4096 len 0 0 [])"

section \<open>The probe of the Windows build\<close>

definition win_probe_host_pinning :: "HostOs \<Rightarrow> u64 \<Rightarrow> (PinProbeResult \<times> OsCall list) option" where
  "win_probe_host_pinning os len =
     (let r = \<lparr>pp_ok = False, pp_bytes = len, pp_detail = '''', pp_allocation_committed = False,
               pp_locked = False, pp_provenance = PV_UNKNOWN\<rparr>
      in if len = 0 then Some (r\<lparr>pp_detail := msg ''zero length probe''\<rparr>, [])
      else (case win_commit_pages os len of (p, alloc_err) \<Rightarrow>
        if p = 0 then
          Some (r\<lparr>pp_detail := msg ''allocation failed: '' @ alloc_err, pp_provenance := PV_REAL\<rparr>,
                [CallAlloc len p])
        else (case win_touch_range os p len of None \<Rightarrow> None
        | Some (touched, offs) \<Rightarrow>
          (case win_virtual_lock os p len of (locked, lock_err) \<Rightarrow>
             Some (r\<lparr>pp_allocation_committed := True, pp_ok := locked, pp_locked := locked,
                     pp_detail := (if locked
                       then msg ''VirtualAlloc committed + touched + VirtualLock succeeded''
                       else msg ''VirtualAlloc committed + touched; VirtualLock failed: '' @ lock_err),
                     pp_provenance := PV_REAL\<rparr>,
                   [CallAlloc len p, CallTouch p offs, CallLock p len, CallUnlock p len, CallFree p])))))"

section \<open>The loop over the pages\<close>

text \<open>The pages of a range of \<open>len\<close> bytes.\<close>

definition page_count :: "u64 \<Rightarrow> u64 \<Rightarrow> nat" where
  "page_count stride len = (unat len + unat stride - 1) div unat stride"

definition page_offsets :: "u64 \<Rightarrow> u64 \<Rightarrow> u64 list" where
  "page_offsets stride len = map (\<lambda>k. of_nat k * stride) [0..<page_count stride len]"

lemma below_page_count:
  assumes "0 < s"
  shows "k < (n + s - 1) div s \<longleftrightarrow> k * s < (n :: nat)"
proof -
  have "k < (n + s - 1) div s \<longleftrightarrow> Suc k * s \<le> n + s - 1"
    using assms by (metis Suc_le_eq less_eq_div_iff_mult_less_eq)
  also have "\<dots> \<longleftrightarrow> k * s < n" using assms by (simp add: algebra_simps) linarith
  finally show ?thesis .
qed

lemma unat_offset:
  assumes "k * unat (s :: u64) < 2 ^ 64"
  shows "unat (of_nat k * s) = k * unat s"
proof -
  have "of_nat k * s = (of_nat (k * unat s) :: u64)" by simp
  then have "unat (of_nat k * s) = take_bit 64 (k * unat s)"
    by (simp only: unsigned_of_nat) simp
  then show ?thesis using assms by (simp add: take_bit_nat_eq_self)
qed

text \<open>The loop from page \<open>k\<close> on, when no offset wraps around.\<close>

lemma touch_loop_from:
  assumes "0 < unat stride" and "unat len + unat stride \<le> 2 ^ 64" and "k \<le> page_count stride len"
  shows "touch_loop stride len (of_nat k * stride) (of_nat k) (map (\<lambda>j. of_nat j * stride) [0..<k]) =
    Some (of_nat (page_count stride len), page_offsets stride len)"
  using assms(3)
proof (induction "page_count stride len - k" arbitrary: k)
  case 0
  then have k: "k = page_count stride len" by simp
  have ge: "\<not> k * unat stride < unat len"
    using below_page_count [OF assms(1), of k "unat len"] by (simp add: k page_count_def)
  have "k * unat stride < 2 ^ 64"
  proof -
    have "k * unat stride \<le> unat len + unat stride - 1"
      by (simp add: k page_count_def)
    with assms(1,2) show ?thesis by linarith
  qed
  then have "\<not> of_nat k * stride < len" using ge by (simp add: word_less_nat_alt unat_offset)
  then show ?case by (subst touch_loop.simps) (simp add: k page_offsets_def)
next
  case (Suc d)
  then have lt: "k < page_count stride len" by simp
  then have less: "k * unat stride < unat len"
    using below_page_count [OF assms(1), of k "unat len"] by (simp add: page_count_def)
  moreover have "unat len < 2 ^ 64" using unsigned_less [of len] by simp
  ultimately have "k * unat stride < 2 ^ 64" by linarith
  then have "of_nat k * stride < len" using less by (simp add: word_less_nat_alt unat_offset)
  moreover have "of_nat k * stride + stride = of_nat (Suc k) * stride" by (simp add: algebra_simps)
  moreover have "(of_nat k :: u64) + 1 = of_nat (Suc k)" by simp
  moreover have "map (\<lambda>j. of_nat j * stride) [0..<k] @ [of_nat k * stride] =
      map (\<lambda>j. of_nat j * stride) [0..<Suc k]" by simp
  moreover have "d = page_count stride len - Suc k" "Suc k \<le> page_count stride len" using Suc(2) lt by simp_all
  ultimately show ?case using Suc(1) [of "Suc k"]
    by (subst touch_loop.simps) (simp only: if_True)
qed

lemma touch_loop_returns:
  assumes "0 < unat stride" and "unat len + unat stride \<le> 2 ^ 64"
  shows "touch_loop stride len 0 0 [] = Some (of_nat (page_count stride len), page_offsets stride len)"
  using touch_loop_from [OF assms, of 0] by simp

text \<open>A range that ends in the last page of the address space is never left: the offset wraps.\<close>

lemma touch_loop_diverges:
  assumes "2 ^ 64 < unat len + unat stride" and "unat stride dvd 2 ^ 64"
  shows "touch_loop stride len 0 0 [] = None"
proof (rule ccontr)
  assume "touch_loop stride len 0 0 [] \<noteq> None"
  then obtain r where ret: "touch_loop stride len 0 0 [] = Some r" by blast
  have "unat stride dvd unat (0 :: u64) \<longrightarrow> stride = stride \<longrightarrow> len = len \<longrightarrow> False"
  proof (rule touch_loop.raw_induct [where P = "\<lambda>s l off t offs r.
      unat stride dvd unat off \<longrightarrow> s = stride \<longrightarrow> l = len \<longrightarrow> False", OF _ ret])
    fix f s l off t offs r
    assume IH: "\<And>s l off t offs r. f s l off t offs = Some r \<Longrightarrow>
        unat stride dvd unat off \<longrightarrow> s = stride \<longrightarrow> l = len \<longrightarrow> False"
      and eq: "(if off < l then f s l (off + s) (t + 1) (offs @ [off]) else Some (t, offs)) = Some r"
    show "unat stride dvd unat off \<longrightarrow> s = stride \<longrightarrow> l = len \<longrightarrow> False"
    proof (intro impI)
      assume dvd: "unat stride dvd unat off" and s: "s = stride" and l: "l = len"
      have "unat stride dvd 2 ^ 64 - unat off" using assms(2) dvd by (rule dvd_diff_nat)
      moreover have "0 < 2 ^ 64 - unat off" using unsigned_less [of off] by simp
      ultimately have "unat stride \<le> 2 ^ 64 - unat off" by (rule dvd_imp_le)
      moreover have "unat off < 2 ^ 64" using unsigned_less [of off] by simp
      ultimately have "unat off < unat len" using assms(1) by linarith
      then have "off < len" by (simp add: word_less_nat_alt)
      with eq s l have "f stride len (off + stride) (t + 1) (offs @ [off]) = Some r" by simp
      moreover have "unat stride dvd unat (off + stride)"
        using dvd assms(2) by (simp add: unat_word_ariths dvd_mod)
      ultimately show False using IH by blast
    qed
  qed
  then show False by simp
qed

section \<open>What the probe touches and returns\<close>

definition page_stride :: "HostOs \<Rightarrow> u64" where
  "page_stride os = (if win_page_size os \<noteq> 0 then win_page_size os else 4096)"

lemma page_stride_pos: "0 < unat (page_stride os)"
  by (simp add: page_stride_def unat_gt_0)

lemma win_touch_range_eq:
  assumes "p \<noteq> 0" and "unat (page_stride os) dvd 2 ^ 64"
  shows "win_touch_range os p len =
    (if unat len + unat (page_stride os) \<le> 2 ^ 64
     then Some (of_nat (page_count (page_stride os) len), page_offsets (page_stride os) len) else None)"
  using touch_loop_returns [OF page_stride_pos, of len os] touch_loop_diverges [OF _ assms(2), of len] assms(1)
  by (simp add: win_touch_range_def page_stride_def [symmetric])

text \<open>The pages touched are the pages of the range: each byte lies in one of them, and each begins
  in the range.\<close>

lemma page_offsets_cover:
  assumes "0 < unat stride" and "i < unat len"
  shows "\<exists>off \<in> set (page_offsets stride len). unat off \<le> i \<and> i < unat off + unat stride"
proof -
  let ?k = "i div unat stride"
  have le: "?k * unat stride \<le> i" by simp
  then have "?k * unat stride < unat len" using assms(2) by linarith
  then have k: "?k < page_count stride len"
    using below_page_count [OF assms(1), of ?k "unat len"] by (simp add: page_count_def)
  have "unat len < 2 ^ 64" using unsigned_less [of len] by simp
  with le assms(2) have "unat (of_nat ?k * stride) = ?k * unat stride" by (intro unat_offset) linarith
  moreover have "i < ?k * unat stride + unat stride"
    using assms(1) by (simp add: dividend_less_div_times add.commute)
  ultimately show ?thesis
    using le k by (auto simp: page_offsets_def intro!: bexI [of _ ?k])
qed

lemma page_offsets_inside:
  assumes "0 < unat stride" and "off \<in> set (page_offsets stride len)"
  shows "off < len"
proof -
  obtain k where k: "k < page_count stride len" "off = of_nat k * stride"
    using assms(2) by (auto simp: page_offsets_def)
  have "k * unat stride < unat len"
    using k(1) below_page_count [OF assms(1), of k "unat len"] by (simp add: page_count_def)
  moreover have "unat len < 2 ^ 64" using unsigned_less [of len] by simp
  ultimately show ?thesis by (simp add: k(2) word_less_nat_alt unat_offset)
qed

lemma port_touch_range_eq:
  "p \<noteq> 0 \<Longrightarrow> port_touch_range p len =
     (if unat len + 4096 \<le> 2 ^ 64 then Some (of_nat (page_count 4096 len), page_offsets 4096 len) else None)"
  using touch_loop_returns [of 4096 len] touch_loop_diverges [of len 4096]
  by (simp add: port_touch_range_def)

text \<open>The probe claims a pinned range only when the system locked it, and frees what it allocated:
  when an allocation succeeded, the last call releases it and the one before unlocks it.\<close>

lemma win_probe_claims:
  assumes "win_probe_host_pinning os len = Some (r, calls)"
  shows "pp_ok r \<longleftrightarrow> pp_locked r"
    and "pp_locked r \<Longrightarrow> ho_locks os \<and> pp_allocation_committed r"
    and "pp_allocation_committed r \<longleftrightarrow> len \<noteq> 0 \<and> ho_alloc os len \<noteq> 0"
    and "pp_allocation_committed r \<Longrightarrow>
      \<exists>cs. calls = CallAlloc len (ho_alloc os len) # cs @
        [CallUnlock (ho_alloc os len) len, CallFree (ho_alloc os len)]"
  using assms
  by (auto simp: win_probe_host_pinning_def win_commit_pages_def win_virtual_lock_def Let_def
      split: if_splits option.splits prod.splits)

text \<open>C35. When the pinning probe returns and what it touches, for a page size that divides the
  address space \<open>2 ^ 64\<close>. It fails to return exactly when the length is not zero, the allocation
  succeeds, and the length and one page together exceed \<open>2 ^ 64\<close> (then the offset wraps to zero
  and the loop over the pages starts again). When it returns, it made no call for a length of zero
  and only the call that failed where the allocation fails; otherwise it wrote in every page of the
  range, and at no offset outside it.\<close>

theorem probe_touches_every_page:
  assumes "unat (page_stride os) dvd 2 ^ 64"
  shows "(win_probe_host_pinning os len = None \<longleftrightarrow>
      len \<noteq> 0 \<and> ho_alloc os len \<noteq> 0 \<and> 2 ^ 64 < unat len + unat (page_stride os)) \<and>
    (\<forall>r calls. win_probe_host_pinning os len = Some (r, calls) \<longrightarrow>
      (if len = 0 then calls = []
       else if ho_alloc os len = 0 then calls = [CallAlloc len 0]
       else \<exists>offs. CallTouch (ho_alloc os len) offs \<in> set calls \<and> (\<forall>off \<in> set offs. off < len) \<and>
        (\<forall>i < unat len. \<exists>off \<in> set offs. unat off \<le> i \<and> i < unat off + unat (page_stride os))))"
proof (cases "len = 0 \<or> ho_alloc os len = 0")
  case True
  then show ?thesis by (auto simp: win_probe_host_pinning_def win_commit_pages_def Let_def)
next
  case False
  then have commit: "win_commit_pages os len = (ho_alloc os len, '''')" and "len \<noteq> 0" "ho_alloc os len \<noteq> 0"
    by (simp_all add: win_commit_pages_def)
  then show ?thesis
  proof (cases "unat len + unat (page_stride os) \<le> 2 ^ 64")
    case True
    with assms \<open>len \<noteq> 0\<close> \<open>ho_alloc os len \<noteq> 0\<close> commit show ?thesis
      by (auto simp: win_probe_host_pinning_def win_touch_range_eq Let_def split_def
          intro!: exI [of _ "page_offsets (page_stride os) len"]
          intro: page_offsets_inside page_offsets_cover page_stride_pos)
  next
    case False
    with assms \<open>len \<noteq> 0\<close> \<open>ho_alloc os len \<noteq> 0\<close> commit show ?thesis
      by (auto simp: win_probe_host_pinning_def win_touch_range_eq Let_def split_def)
  qed
qed

definition plain_os :: HostOs where
  "plain_os =
     \<lparr>ho_page_size = 4096, ho_alloc = (\<lambda>len. 0x10000), ho_frees = True, ho_locks = True, ho_error = 0\<rparr>"

theorem probe_touches_every_page_witness:
  "win_probe_host_pinning plain_os 10000 \<noteq> None \<and> win_probe_host_pinning plain_os (- 1) = None"
proof -
  have os: "page_stride plain_os = 4096" "ho_alloc plain_os len \<noteq> 0" for len
    by (simp_all add: page_stride_def win_page_size_def plain_os_def)
  have "unat (- 1 :: u64) = 2 ^ 64 - 1"
    by (simp add: unsigned_minus_1_eq_mask mask_eq_exp_minus_1)
  then show ?thesis
    using probe_touches_every_page [of plain_os 10000] probe_touches_every_page [of plain_os "- 1"] os
    by simp
qed

end
