(* ===== verification/Ledger.thy ===== *)
theory Ledger
  imports Concurrency
begin

text \<open>
  What the registry promises about identities, as an abstract specification: a ledger that gives
  each registration identity a phase. An identity is issued once, granted at most once, its key
  only moves on, and what is closed stays closed. Every interleaving of the registry's critical
  sections but those of \<open>recover\<close> is a run of the ledger, and every access the registry allows is
  one the ledger allows. \<open>recover\<close> breaks the ledger: identities start again after it
  (\<open>restart_revives_old_key\<close> of \<open>Recovery\<close>).
\<close>

section \<open>The ledger\<close>

text \<open>What a registration was granted, fixed for its whole life.\<close>

record Grant =
  g_buffer :: BufferId
  g_generation :: BufferGeneration
  g_rights :: AccessMask
  g_length :: u64
  g_domain :: ProtectionDomainId
  g_backend :: BackendId

datatype Phase = Unissued | Reserved | Open Grant RemoteKeyGeneration | Closed

type_synonym ledger = "RegistrationId \<Rightarrow> Phase"

inductive phase_step :: "Phase \<Rightarrow> Phase \<Rightarrow> bool" where
  stay: "phase_step p p"
| issue: "phase_step Unissued Reserved"
| abandon: "phase_step Reserved Closed"
| grant: "phase_step Reserved (Open g k)"
| rekey: "phase_step (Open g k) (Open g (gen_next k))"
| close: "phase_step (Open g k) Closed"

inductive_cases phase_step_from_Closed: "phase_step Closed p"
inductive_simps phase_step_to_Reserved: "phase_step p Reserved"

definition ledger_step :: "ledger \<Rightarrow> ledger \<Rightarrow> bool" where
  "ledger_step l l' \<longleftrightarrow> (\<forall>i. phase_step (l i) (l' i))"

abbreviation ledger_run :: "ledger \<Rightarrow> ledger \<Rightarrow> bool" where
  "ledger_run \<equiv> ledger_step\<^sup>*\<^sup>*"

text \<open>The invalid identity is never issued.\<close>

definition new_ledger :: ledger where
  "new_ledger i = (if id_valid i then Unissued else Closed)"

text \<open>A request is covered by the grant it names, with the key the ledger has for it.\<close>

definition grant_covers :: "Grant \<Rightarrow> RemoteKeyGeneration \<Rightarrow> RemoteAccessRequest \<Rightarrow> bool" where
  "grant_covers g k q \<longleftrightarrow>
     expects (q_expected_buffer_generation q) (g_generation g) \<and>
     expects (q_expected_remote_key_generation q) k \<and>
     names_id (q_domain q) (g_domain g) \<and> names_id (q_backend q) (g_backend g) \<and>
     access_superset (g_rights g) (q_required_rights q) \<and>
     access_has (g_rights g) (intrinsic_right (q_kind q)) \<and>
     unat (q_offset q) + unat (q_length q) \<le> unat (g_length g)"

definition ledger_allows :: "ledger \<Rightarrow> RemoteAccessRequest \<Rightarrow> bool" where
  "ledger_allows l q \<longleftrightarrow>
     (\<exists>g k. l (q_source_registration q) = Open g k \<and> grant_covers g k q)"

lemma ledger_closed: "ledger_run l l' \<Longrightarrow> l i = Closed \<Longrightarrow> l' i = Closed"
proof (induction rule: rtranclp_induct)
  case (step l1 l2)
  then have "phase_step Closed (l2 i)" by (metis ledger_step_def)
  then show ?case by (auto elim: phase_step_from_Closed)
qed

section \<open>The ledger of a state\<close>

definition grant_of :: "RegistrationRecord \<Rightarrow> Grant" where
  "grant_of r =
     \<lparr>g_buffer = r_buffer_id r, g_generation = r_buffer_generation r,
      g_rights = r_granted_access r, g_length = bd_byte_length (r_descriptor r),
      g_domain = r_domain_id r, g_backend = r_backend r\<rparr>"

definition phase_of :: "RegistrationRecord \<Rightarrow> Phase" where
  "phase_of r =
     (if r_freshness r = FR_VALID then Open (grant_of r) (rk_key_generation (r_remote_key r)) else Closed)"

definition ledger_of :: "Impl \<times> Pending list \<Rightarrow> ledger" where
  "ledger_of s i =
     (case reg_at (fst s) i of
        Some r \<Rightarrow> phase_of r
      | None \<Rightarrow>
          if i \<in> set (pending_ids (snd s)) then Reserved
          else if id_value i < im_next_registration (fst s) then Closed
          else Unissued)"

lemma ledger_of_new: "ledger_of (new_impl, []) = new_ledger"
proof
  fix i :: RegistrationId
  have "id_value i < 1 \<longleftrightarrow> \<not> id_valid i" by (simp add: id_valid_def)
  then show "ledger_of (new_impl, []) i = new_ledger i"
    by (simp add: ledger_of_def new_ledger_def new_impl_def reg_at_def)
qed

lemma phase_of_step:
  assumes "r' = r \<or> reg_step r r'"
  shows "phase_step (phase_of r) (phase_of r')"
proof (cases "r' = r")
  case False
  with assms have st: "reg_step r r'" by simp
  have same: "grant_of r' = grant_of r"
    using reg_step_same [OF st] by (simp add: grant_of_def same_registration_def)
  have key: "rk_key_generation (r_remote_key r') = rk_key_generation (r_remote_key r) \<or>
      rk_key_generation (r_remote_key r') = gen_next (rk_key_generation (r_remote_key r))"
    using reg_step_key [OF st]
    by (cases "rk_key_generation (r_remote_key r)"; cases "rk_key_generation (r_remote_key r')")
      (simp add: key_gen_def gen_next_def)
  from reg_step_freshness [OF st] same key show ?thesis
    by (auto simp: phase_of_def intro: phase_step.intros)
qed (simp add: phase_step.stay)

text \<open>The counter of identities moves only when an identity is handed out.\<close>

lemma sys_step_next:
  assumes "sys_step (im, ps) (im', ps')"
  shows "im_next_registration im' = im_next_registration im \<or>
    im_next_registration im' = im_next_registration im + 1 \<and>
    pending_ids ps' = StrongId (im_next_registration im) # pending_ids ps"
  using assms by (cases rule: sys_step_shape) (simp_all add: keeps_def)

section \<open>The simulation\<close>

text \<open>Where an identity can stand before a step: held by a record, reserved by a call in progress,
  gone, or not issued yet. One lemma for each.\<close>

lemma pending_fresh:
  assumes "sys_step (im, ps) (im', ps')" and "i \<in> set (pending_ids ps')"
  shows "i \<in> set (pending_ids ps) \<or> i = StrongId (im_next_registration im)"
  using sys_step_evolves(2) [OF assms(1)] assms(2) by auto

lemma issued_stays:
  "sys_step (im, ps) (im', ps') \<Longrightarrow> id_value i < im_next_registration im \<Longrightarrow> id_value i < im_next_registration im'"
  using sys_step_evolves(1) by (fastforce simp: evolves_def)

lemma held_simulated:
  assumes step: "sys_step (im, ps) (im', ps')" and inv: "sys_inv (im, ps)" and held: "reg_at im i = Some r"
  shows "phase_step (ledger_of (im, ps) i) (ledger_of (im', ps') i)"
proof -
  from sys_inv_held [OF inv, of i r] held have i: "id_value i < im_next_registration im"
    "i \<notin> set (pending_ids ps)" by simp_all
  then have "i \<notin> set (pending_ids ps')" using pending_fresh [OF step] by (cases i) auto
  moreover have "phase_step (phase_of r) (phase_of r')" if "reg_at im' i = Some r'" for r'
    using evolvesD [OF sys_step_evolves(1) [OF step] i(2) that] held by (auto intro: phase_of_step)
  moreover have "phase_step (phase_of r) Closed"
    by (simp add: phase_of_def phase_step.stay phase_step.close)
  ultimately show ?thesis
    using held issued_stays [OF step i(1)] by (auto simp: ledger_of_def split: option.split)
qed

lemma unheld_stays:
  assumes "sys_step (im, ps) (im', ps')" and "reg_at im i = None" and "i \<notin> set (pending_ids ps)"
  shows "reg_at im' i = None"
  using evolvesD [OF sys_step_evolves(1) [OF assms(1)] assms(3)] assms(2) by (cases "reg_at im' i") auto

lemma unissued_simulated:
  assumes step: "sys_step (im, ps) (im', ps')" and inv': "sys_inv (im', ps')"
    and new: "reg_at im i = None" "i \<notin> set (pending_ids ps)" "\<not> id_value i < im_next_registration im"
  shows "phase_step (ledger_of (im, ps) i) (ledger_of (im', ps') i)"
proof -
  note none = unheld_stays [OF step new(1,2)]
  from sys_step_next [OF step] show ?thesis
  proof
    assume "im_next_registration im' = im_next_registration im"
    moreover from this have "i \<notin> set (pending_ids ps')" using inv' new(3) by (auto simp: sys_inv_def)
    ultimately show ?thesis using new none by (simp add: ledger_of_def phase_step.stay)
  next
    assume next_id: "im_next_registration im' = im_next_registration im + 1 \<and>
      pending_ids ps' = StrongId (im_next_registration im) # pending_ids ps"
    show ?thesis
    proof (cases "i = StrongId (im_next_registration im)")
      case True
      with new none next_id show ?thesis by (simp add: ledger_of_def phase_step.issue)
    next
      case False
      then have "id_value i \<noteq> im_next_registration im" by (cases i) simp
      with new(3) have "\<not> id_value i < im_next_registration im'"
        using next_id by (metis inc_le leD linorder_less_linear)
      moreover have "i \<notin> set (pending_ids ps')" using False new(2) next_id by simp
      ultimately show ?thesis using new none by (simp add: ledger_of_def phase_step.stay)
    qed
  qed
qed

lemma sys_step_simulated:
  assumes step: "sys_step (im, ps) (im', ps')" and inv: "sys_inv (im, ps)" and inv': "sys_inv (im', ps')"
  shows "phase_step (ledger_of (im, ps) i) (ledger_of (im', ps') i)"
proof -
  consider (held) r where "reg_at im i = Some r"
    | (reserved) "reg_at im i = None" "i \<in> set (pending_ids ps)"
    | (gone) "reg_at im i = None" "i \<notin> set (pending_ids ps)" "id_value i < im_next_registration im"
    | (new) "reg_at im i = None" "i \<notin> set (pending_ids ps)" "\<not> id_value i < im_next_registration im"
    by (cases "reg_at im i") auto
  then show ?thesis
  proof cases
    case (held r)
    with step inv show ?thesis by (rule held_simulated)
  next
    case reserved
    with inv have "id_value i < im_next_registration im" by (auto simp: sys_inv_def)
    with reserved issued_stays [OF step] show ?thesis
      by (auto simp: ledger_of_def phase_of_def intro: phase_step.intros split: option.split)
  next
    case gone
    then have "i \<notin> set (pending_ids ps')" using pending_fresh [OF step] by (cases i) auto
    with gone unheld_stays [OF step gone(1,2)] issued_stays [OF step gone(3)] show ?thesis
      by (simp add: ledger_of_def phase_step.stay)
  next
    case new
    with step inv' show ?thesis by (rule unissued_simulated)
  qed
qed

lemma ledger_simulates:
  assumes "sys_run s s'" and "sys_inv s"
  shows "ledger_run (ledger_of s) (ledger_of s')"
  using assms(1)
proof (induction rule: rtranclp_induct)
  case (step s1 s2)
  obtain im ps im' ps' where s: "s1 = (im, ps)" "s2 = (im', ps')" by (metis surj_pair)
  have inv: "sys_inv s1" by (rule sys_inv_run [OF step(1) assms(2)])
  have "ledger_step (ledger_of s1) (ledger_of s2)"
    unfolding ledger_step_def
    using sys_step_simulated [of im ps im' ps'] step(2) inv sys_inv_step [OF step(2) inv] by (simp add: s)
  with step(3) show ?case by (metis rtranclp.rtrancl_into_rtrancl)
qed simp

lemma allowed_by_ledger:
  assumes "ad_outcome (fst (validate_remote_access q (fst s))) = AO_ALLOW"
  shows "ledger_allows (ledger_of s) q"
  using assms
  by (auto simp: validate_allow_iff access_ok_def record_permits_def ledger_allows_def ledger_of_def
      phase_of_def reg_at_def grant_covers_def grant_of_def)

text \<open>C2. Between its creation and the first \<open>recover\<close> the registry implements the ledger: from an
  empty registry, every interleaving of any number of threads, in any operations but \<open>recover\<close>,
  is a run of the ledger from the ledger with nothing issued, and in each state
  of it every request the registry allows is one the ledger allows: it names an identity that is
  open now, with the current key, inside the rights and the range of the one grant the identity
  ever had. Since the ledger never leaves \<open>Closed\<close>, this covers every way a registration ends.
  \<open>recover\<close> is left out because it does not hold of it: identities that were closed before a
  restart are issued again after it.\<close>

theorem registry_refines_ledger:
  assumes "sys_run (new_impl, []) s" and "sys_run s s'"
  shows "ledger_run new_ledger (ledger_of s) \<and> ledger_run (ledger_of s) (ledger_of s') \<and>
    (\<forall>q. ad_outcome (fst (validate_remote_access q (fst s))) = AO_ALLOW \<longrightarrow>
      ledger_allows (ledger_of s) q) \<and>
    (\<forall>i. ledger_of s i = Closed \<longrightarrow> ledger_of s' i = Closed)"
proof -
  have inv: "sys_inv s" by (rule sys_inv_run [OF assms(1) sys_inv_init])
  have run: "ledger_run (ledger_of s) (ledger_of s')" by (rule ledger_simulates [OF assms(2) inv])
  moreover have "ledger_run new_ledger (ledger_of s)"
    using ledger_simulates [OF assms(1) sys_inv_init] by (simp add: ledger_of_new)
  ultimately show ?thesis using allowed_by_ledger ledger_closed [OF run] by blast
qed

theorem registry_refines_ledger_witness:
  "ledger_run new_ledger (ledger_of (demo1, [])) \<and> ledger_allows (ledger_of (demo1, [])) demo_request"
proof -
  have "ad_outcome (fst (validate_remote_access demo_request (fst (demo1, [])))) = AO_ALLOW"
    using demo_allowed [OF demo_register_eq demo_registers(1)] by simp
  with registry_refines_ledger [OF demo1_reachable rtranclp.rtrancl_refl] show ?thesis by blast
qed

end
