(* ===== verification/Teardown.thy ===== *)
theory Teardown
  imports LeaseAccounting
begin

text \<open>
  Taking a registry down. In runs without overlap and without recovery in which nothing but the
  registry touches its backends, attached well formed (\<open>managed\<close>),
  every registration is held by its backend under a handle of its own, so the backend
  call of \<open>deregister\<close> never fails: \<open>deregister\<close> succeeds unless a lease is out or a soft revocation is
  pending, and releasing all leases and deregistering everything empties the registry.
\<close>

section \<open>Runs in which only the registry touches the backends\<close>

fun own_op :: "AtomicOp \<Rightarrow> bool" where
  "own_op (OpBackend bid f) \<longleftrightarrow> False"
| "own_op (OpAddBackend (Some b)) \<longleftrightarrow> be_wf b"
| "own_op op \<longleftrightarrow> True"

definition backends_room :: "Impl \<Rightarrow> bool" where
  "backends_room im \<longleftrightarrow> (\<forall>bid b. map_of (im_backends im) bid = Some b \<longrightarrow> be_room b)"

inductive managed :: "Impl \<Rightarrow> bool" where
  init: "managed new_impl"
| op: "managed im \<Longrightarrow> own_op op \<Longrightarrow> im_next_lease im \<noteq> - 1 \<Longrightarrow> managed (exec op im)"
| registering: "managed im \<Longrightarrow> im_next_registration im \<noteq> - 1 \<Longrightarrow> backends_room im \<Longrightarrow>
    managed (snd (register_buffer d bid pd env im))"
| deregistering: "managed im \<Longrightarrow> managed (snd (deregister i im))"

lemma managed_seq: "managed im \<Longrightarrow> seq_reach im"
  by (induction rule: managed.induct) (auto intro: seq_reach.intros)

section \<open>Every registration is held by its backend\<close>

definition settled :: "RegistrationRecord \<Rightarrow> bool" where
  "settled r \<longleftrightarrow> deregisterable (r_lifecycle r) \<or> r_lifecycle r = RL_REVOKING"

definition backends_wf :: "Impl \<Rightarrow> bool" where
  "backends_wf im \<longleftrightarrow> (\<forall>bid b. map_of (im_backends im) bid = Some b \<longrightarrow> be_wf b)"

text \<open>The backend of that identity has an entry under the handle.\<close>

definition holds_handle :: "Impl \<Rightarrow> BackendId \<Rightarrow> string \<Rightarrow> bool" where
  "holds_handle im bid h \<longleftrightarrow> (\<exists>b. map_of (im_backends im) bid = Some b \<and> be_view b h \<noteq> None)"

definition handles_held :: "Impl \<Rightarrow> bool" where
  "handles_held im \<longleftrightarrow>
     (\<forall>i r. reg_at im i = Some r \<longrightarrow> settled r \<and> holds_handle im (r_backend r) (r_backend_handle r))"

definition handles_apart :: "Impl \<Rightarrow> bool" where
  "handles_apart im \<longleftrightarrow>
     (\<forall>i j r s. reg_at im i = Some r \<longrightarrow> reg_at im j = Some s \<longrightarrow> r_backend r = r_backend s \<longrightarrow>
        r_backend_handle r = r_backend_handle s \<longrightarrow> i = j)"

definition slots_held :: "Impl \<Rightarrow> bool" where
  "slots_held im \<longleftrightarrow> (\<forall>b i. map_of (im_active_reg im) b = Some i \<longrightarrow> reg_at im i \<noteq> None)"

definition backed :: "Impl \<Rightarrow> bool" where
  "backed im \<longleftrightarrow> backends_wf im \<and> handles_held im \<and> handles_apart im \<and> slots_held im"

lemma held_step_settled: "held_step r r' \<Longrightarrow> settled r \<Longrightarrow> settled r'"
  by (induction rule: held_step.induct) (auto simp: reg_changes settled_def deregisterable_def is_live_def)

text \<open>An operation that holds the mutex keeps the invariant when no backend drops a handle.\<close>

lemma backed_keeps:
  assumes "backed im" and "keeps im im'" and "backends_wf im'"
    and "\<And>bid h. holds_handle im bid h \<Longrightarrow> holds_handle im' bid h"
    and "\<And>b i. map_of (im_active_reg im') b = Some i \<Longrightarrow> map_of (im_active_reg im) b = Some i"
  shows "backed im'"
proof -
  have old: "\<exists>r. reg_at im i = Some r \<and> same_registration r r' \<and> (settled r \<longrightarrow> settled r')"
    if r': "reg_at im' i = Some r'" for i r'
  proof -
    from r' keeps_None [OF assms(2), of i] obtain r where r: "reg_at im i = Some r"
      by (cases "reg_at im i") auto
    from keepsD [OF assms(2) r] r' have "r' = r \<or> held_step r r'" by auto
    with r show ?thesis using held_step_same held_step_settled by auto
  qed
  have "handles_held im'"
    unfolding handles_held_def
  proof (intro allI impI)
    fix i r' assume "reg_at im' i = Some r'"
    from old [OF this] assms(1,4) show "settled r' \<and> holds_handle im' (r_backend r') (r_backend_handle r')"
      by (auto simp: backed_def handles_held_def same_registration_def)
  qed
  moreover have "handles_apart im'"
    unfolding handles_apart_def
  proof (intro allI impI)
    fix i j r' s'
    assume "reg_at im' i = Some r'" and "reg_at im' j = Some s'"
      and same: "r_backend r' = r_backend s'" "r_backend_handle r' = r_backend_handle s'"
    with old obtain r s where "reg_at im i = Some r" "same_registration r r'"
      "reg_at im j = Some s" "same_registration s s'" by meson
    with same assms(1) show "i = j"
      unfolding backed_def handles_apart_def same_registration_def by metis
  qed
  moreover have "slots_held im'"
    unfolding slots_held_def
  proof (intro allI impI)
    fix b i assume "map_of (im_active_reg im') b = Some i"
    from assms(5) [OF this] assms(1) obtain r where "reg_at im i = Some r"
      unfolding backed_def slots_held_def by blast
    from keepsD [OF assms(2) this] show "reg_at im' i \<noteq> None" by auto
  qed
  ultimately show ?thesis using assms(3) by (simp add: backed_def)
qed

text \<open>A revocation frees slots; no operation that holds the mutex fills one.\<close>

lemma exec_slots_below:
  assumes "map_of (im_active_reg (exec op im)) b = Some i"
  shows "map_of (im_active_reg im) b = Some i"
proof (cases "\<exists>j m. op = OpRevoke j m")
  case True
  then obtain j m where op: "op = OpRevoke j m" by blast
  obtain rv im' where rev: "revoke j m im = (rv, im')" by (rule prod.exhaust)
  have "map_of (im_active_reg im') b = Some i" using assms by (simp add: op rev)
  with rev show ?thesis by (cases rule: revoke_cases) (auto simp: um_simps split: if_splits)
next
  case False
  with assms exec_slots [of op im] show ?thesis by metis
qed

text \<open>Replacing a backend object by one that has the same handles and more.\<close>

lemma holds_handle_update:
  assumes "map_of (im_backends im) bid = Some b" and "im_backends im' = AList.update bid b' (im_backends im)"
    and "\<And>h. be_view b h \<noteq> None \<Longrightarrow> be_view b' h \<noteq> None" and "holds_handle im k h"
  shows "holds_handle im' k h"
  using assms by (auto simp: holds_handle_def um_simps)

lemma rotate_holds:
  assumes "be_rotate h g b = (y, b')" and "be_view b k \<noteq> None"
  shows "be_view b' k \<noteq> None"
proof -
  obtain ok ex where y: "be_rotate h g b = ((ok, ex), b')" using assms(1) by (cases y) simp
  show ?thesis
  proof (cases "be_view b (rh_handle h)")
    case None
    from be.rotate_missing [OF None y] assms(2) show ?thesis by simp
  next
    case (Some v)
    from be.rotate_live [OF Some y] assms(2) show ?thesis by auto
  qed
qed

lemma rotate_key_backends:
  assumes "backends_wf im" and "rotate_key i im = (x, im')"
  shows "backends_wf im' \<and> (\<forall>bid h. holds_handle im bid h \<longrightarrow> holds_handle im' bid h)"
proof -
  from assms(2) obtain ok ex where rot: "rotate_key i im = ((ok, ex), im')" by (cases x) simp
  then show ?thesis
  proof (cases rule: rotate_key_cases)
    case refused
    with assms(1) show ?thesis by simp
  next
    case (rotated r bs)
    show ?thesis
    proof (cases "map_of (im_backends im) (r_backend r) = None \<or> r_backend_handle r = ''''")
      case True
      then have "im_backends im' = im_backends im" using rotated(4,5) by (auto split: option.splits)
      with assms(1) show ?thesis by (simp add: backends_wf_def holds_handle_def)
    next
      case False
      then obtain b where b: "map_of (im_backends im) (r_backend r) = Some b" by auto
      obtain y b' where call:
        "be_rotate (reg_handle r) (rk_key_generation (r_remote_key (rotated_reg r))) b = (y, b')"
        by (rule prod.exhaust)
      have bs: "im_backends im' = AList.update (r_backend r) b' (im_backends im)"
        using rotated(4,5) False b call by simp
      have "be_wf b'" using be.wf_rotate [OF _ call] assms(1) b by (simp add: backends_wf_def)
      with assms(1) bs have "backends_wf im'" by (simp add: backends_wf_def um_simps)
      with holds_handle_update [OF b bs rotate_holds [OF call]] show ?thesis by blast
    qed
  qed
qed

lemma backed_exec:
  assumes "backed im" and "own_op op"
  shows "backed (exec op im)"
proof -
  have invariant: "backed (exec op im)" if "backends_wf (exec op im)"
    and "\<And>bid h. holds_handle im bid h \<Longrightarrow> holds_handle (exec op im) bid h"
    by (rule backed_keeps [OF assms(1) exec_keeps that exec_slots_below])
  have wf: "backends_wf im" using assms(1) by (simp add: backed_def)
  have same: "backed (exec op im)" if "im_backends (exec op im) = im_backends im"
    by (rule invariant) (use wf in \<open>simp_all add: backends_wf_def holds_handle_def that\<close>)
  show ?thesis
  proof (cases op)
    case (OpAddBackend p)
    have "backends_wf (exec op im)"
      using wf assms(2) by (cases p) (auto simp: OpAddBackend backends_wf_def add_backend_def um_simps)
    moreover have "holds_handle (exec op im) bid h" if "holds_handle im bid h" for bid h
      using that by (cases p) (auto simp: OpAddBackend holds_handle_def add_backend_def um_simps)
    ultimately show ?thesis by (rule invariant)
  next
    case (OpRotateKey i)
    from rotate_key_backends [OF wf surjective_pairing] show ?thesis
      by (intro invariant) (simp_all add: OpRotateKey)
  next
    case (OpBackend bid f)
    with assms(2) show ?thesis by simp
  qed (rule same; rule exec_backends; simp)+
qed

lemma backed_register:
  assumes "backed im" and "named im" and "backends_room im"
  shows "backed (snd (register_buffer d bid pd env im))"
proof -
  obtain rr im' where reg: "register_buffer d bid pd env im = (rr, im')" by (rule prod.exhaust)
  from reg show ?thesis
  proof (cases rule: register_buffer_cases)
    case refused
    with assms reg show ?thesis by simp
  next
    case (accepted b bo bout b' r)
    from accepted(1) have b: "map_of (im_backends im) bid = Some b" and can: "be_can_register d b = ''''"
      by (simp_all add: register_ready_def)
    from assms(1,3) b have wf: "be_wf b" "be_room b"
      by (simp_all add: backed_def backends_wf_def backends_room_def)
    have at: "reg_at im' = (reg_at im)(r_id r \<mapsto> r)"
      and bs: "im_backends im' = AList.update bid b' (im_backends im)"
      and sl: "im_active_reg im' = AList.update (r_buffer_id r) (r_id r) (im_active_reg im)"
      by (simp_all add: accepted(4) registered_impl_def reg_at_def um_simps)
    have r: "settled r" "r_backend r = bid" "r_backend_handle r = br_handle bout"
      by (simp_all add: accepted(3) settled_def deregisterable_def ready_record_def registering_record_def
          committed_record_def)
    have fresh: "be_view b (br_handle bout) = None" by (rule be.handle_fresh [OF wf accepted(2)])
    have new: "be_view b' (br_handle bout) \<noteq> None"
      using be.register_accepted [OF can accepted(2)] by auto
    have kept: "be_view b' h \<noteq> None" if "be_view b h \<noteq> None" for h
      using that be.register_preserves_live [OF wf accepted(2)] by auto
    note hold = holds_handle_update [OF b bs kept]
    have "backends_wf im'"
      using assms(1) be.wf_register [OF wf accepted(2)] by (auto simp: backed_def backends_wf_def bs um_simps)
    moreover have "handles_held im'"
      using assms(1) r new hold by (auto simp: backed_def handles_held_def at)
        (simp add: holds_handle_def bs um_simps)
    moreover have "r_backend_handle s \<noteq> br_handle bout"
      if "reg_at im j = Some s" "r_backend s = bid" for j s
      using assms(1) that fresh b unfolding backed_def handles_held_def holds_handle_def by fastforce
    then have "handles_apart im'"
      using assms(1) r unfolding backed_def handles_apart_def at by (auto split: if_splits; blast)
    moreover have "slots_held im'"
      using assms(1) by (auto simp: backed_def slots_held_def at sl um_simps)
    ultimately show ?thesis by (simp add: reg backed_def)
  qed
qed

section \<open>Deregistration succeeds\<close>

text \<open>The backend call of \<open>deregister\<close> when the backend has the handle.\<close>

lemma deregister_held:
  assumes "backed im" and "reg_at im i = Some r" and "r_lease_count r = 0" and "deregisterable (r_lifecycle r)"
  obtains ex im' where "deregister i im = ((True, ex), im')" "backends_wf im'"
    "\<And>bid h. holds_handle im bid h \<Longrightarrow> \<not> (bid = r_backend r \<and> h = r_backend_handle r) \<Longrightarrow>
      holds_handle im' bid h"
proof -
  from assms(1,2) have "holds_handle im (r_backend r) (r_backend_handle r)" and wf: "backends_wf im"
    by (simp_all add: backed_def handles_held_def)
  then obtain b where b: "map_of (im_backends im) (r_backend r) = Some b"
    "be_view b (r_backend_handle r) \<noteq> None" "be_wf b"
    unfolding holds_handle_def backends_wf_def by blast
  obtain bo b' where call: "be_deregister (reg_handle r) b = (bo, b')" by (rule prod.exhaust)
  from be.deregister_effect [OF call] b(2) have ok: "ro_ok bo" by (simp add: reg_handle_def)
  have view: "be_view b' h = be_view b h" if "h \<noteq> r_backend_handle r" for h
    using be.deregister_other [OF call] that by (simp add: reg_handle_def)
  define bs where "bs = (if id_valid (r_backend r) then AList.update (r_backend r) b' (im_backends im)
    else im_backends im)"
  let ?im1 = "put_reg i (r\<lparr>r_lifecycle := RL_DEREGISTERING\<rparr>) im"
  have prep: "deregister_prepare i im = (Inr (reg_handle r, r_backend r), ?im1)"
    using assms(2-4) by (simp add: deregister_prepare_def reg_at_def)
  obtain im2 where released: "deregister_backend i (reg_handle r) (r_backend r) ?im1 = (None, im2)"
    and im2: "im_backends im2 = bs" "im_registrations im2 = im_registrations ?im1"
    using b(1) call ok by (cases "id_valid (r_backend r)")
      (simp_all add: deregister_backend_def put_reg_def bs_def Let_def)
  have "map_of (im_registrations im2) i \<noteq> None" by (simp add: im2(2) put_reg_def um_simps)
  then obtain ex im' where "deregister_finish i im2 = ((True, ex), im')" "im_backends im' = bs"
    by (auto simp: deregister_finish_def Let_def im2(1))
  then have d: "deregister i im = ((True, ex), im')" "im_backends im' = bs"
    by (simp_all add: deregister_def prep released)
  show ?thesis
  proof (rule that [OF d(1)])
    show "backends_wf im'"
      using assms(1) be.wf_deregister [OF b(3) call] by (auto simp: backed_def backends_wf_def d(2) bs_def um_simps)
    show "holds_handle im' bid h"
      if "holds_handle im bid h" "\<not> (bid = r_backend r \<and> h = r_backend_handle r)" for bid h
      using that b(1) view by (auto simp: holds_handle_def d(2) bs_def um_simps)
  qed
qed

lemma deregister_refused_same:
  assumes "reg_at im i = None \<or> (\<exists>r. reg_at im i = Some r \<and> (r_lease_count r \<noteq> 0 \<or> \<not> deregisterable (r_lifecycle r)))"
  shows "\<not> fst (fst (deregister i im)) \<and> snd (deregister i im) = im"
proof -
  from assms have "\<exists>ex. deregister_prepare i im = (Inl ex, im)"
    by (auto simp: deregister_prepare_def reg_at_def word_gt_0)
  then show ?thesis by (auto simp: deregister_def)
qed

lemma backed_deregister:
  assumes "backed im" and "tables_wf im"
  shows "backed (snd (deregister i im))"
proof (cases "\<exists>r. reg_at im i = Some r \<and> r_lease_count r = 0 \<and> deregisterable (r_lifecycle r)")
  case False
  with deregister_refused_same [of im i] assms(1) show ?thesis by (cases "reg_at im i") auto
next
  case True
  then obtain r where r: "reg_at im i = Some r" "r_lease_count r = 0" "deregisterable (r_lifecycle r)" by blast
  obtain ex im' where d: "deregister i im = ((True, ex), im')" "backends_wf im'"
    "\<And>bid h. holds_handle im bid h \<Longrightarrow> \<not> (bid = r_backend r \<and> h = r_backend_handle r) \<Longrightarrow> holds_handle im' bid h"
    by (rule deregister_held [OF assms(1) r]) (rule that)
  from d(1) have at: "reg_at im' = (reg_at im)(i := None)"
    and sl: "\<And>b. map_of (im_active_reg im') b = Some k \<Longrightarrow> map_of (im_active_reg im) b = Some k \<and> k \<noteq> i" for k
    by (cases rule: deregister_cases; use assms(2) in
      \<open>auto simp: reg_at_def um_simps tables_wf_def split: option.splits if_splits\<close>)+
  have "handles_held im'"
    unfolding handles_held_def
  proof (intro allI impI)
    fix j s assume "reg_at im' j = Some s"
    then have s: "reg_at im j = Some s" "j \<noteq> i" by (auto simp: at split: if_splits)
    with assms(1) r(1) have "\<not> (r_backend s = r_backend r \<and> r_backend_handle s = r_backend_handle r)"
      unfolding backed_def handles_apart_def by metis
    with s assms(1) d(3) show "settled s \<and> holds_handle im' (r_backend s) (r_backend_handle s)"
      by (auto simp: backed_def handles_held_def)
  qed
  moreover have "handles_apart im'"
    using assms(1) unfolding backed_def handles_apart_def at by (auto split: if_splits)
  moreover have "slots_held im'"
    using assms(1) sl by (fastforce simp: backed_def slots_held_def at)
  ultimately show ?thesis using d(1,2) by (simp add: backed_def)
qed

lemma managed_backed: "managed im \<Longrightarrow> backed im"
proof (induction rule: managed.induct)
  case init
  show ?case
    by (simp add: new_impl_def backed_def backends_wf_def handles_held_def handles_apart_def slots_held_def reg_at_def)
next
  case (op im op)
  then show ?case using backed_exec by blast
next
  case (registering im d bid pd env)
  then show ?case using backed_register managed_seq seq_reach_inv by blast
next
  case (deregistering im i)
  then show ?case using backed_deregister managed_seq seq_reach_inv by blast
qed


lemma managed_deregister_ok_iff:
  assumes "managed im"
  shows "fst (fst (deregister i im)) \<longleftrightarrow>
    (\<exists>r. reg_at im i = Some r \<and> r_lease_count r = 0 \<and> r_lifecycle r \<noteq> RL_REVOKING)"
proof (cases "\<exists>r. reg_at im i = Some r \<and> r_lease_count r = 0 \<and> deregisterable (r_lifecycle r)")
  case True
  then obtain r where r: "reg_at im i = Some r" "r_lease_count r = 0" "deregisterable (r_lifecycle r)" by blast
  obtain ex im' where "deregister i im = ((True, ex), im')"
    by (rule deregister_held [OF managed_backed [OF assms] r]) (rule that)
  with r show ?thesis by (auto simp: deregisterable_def)
next
  case False
  then have "\<not> fst (fst (deregister i im))"
    using deregister_refused_same [of im i] by (cases "reg_at im i") auto
  moreover have "settled r" if "reg_at im i = Some r" for r
    using managed_backed [OF assms] that by (simp add: backed_def handles_held_def)
  ultimately show ?thesis using False by (auto simp: settled_def)
qed

section \<open>Draining a registry\<close>

text \<open>What a client does to take a registry down: release every lease that is out, then deregister
  everything. The answers of the calls are kept.\<close>

fun release_leases :: "RegistrationLeaseId list \<Rightarrow> Impl \<Rightarrow> bool list \<times> Impl" where
  "release_leases [] im = ([], im)"
| "release_leases (k # ks) im =
     (case release_lease k im of (b, im1) \<Rightarrow> (case release_leases ks im1 of (bs, im2) \<Rightarrow> (b # bs, im2)))"

fun deregister_all :: "RegistrationId list \<Rightarrow> Impl \<Rightarrow> bool list \<times> Impl" where
  "deregister_all [] im = ([], im)"
| "deregister_all (i # is) im =
     (case deregister i im of ((b, ex), im1) \<Rightarrow> (case deregister_all is im1 of (bs, im2) \<Rightarrow> (b # bs, im2)))"

definition leases_out :: "Impl \<Rightarrow> RegistrationLeaseId list" where
  "leases_out im = map fst (filter (\<lambda>(k, l). l_state l \<noteq> LS_RELEASED) (im_leases im))"

definition drain :: "Impl \<Rightarrow> bool list \<times> bool list \<times> Impl" where
  "drain im =
     (case release_leases (leases_out im) im of (released, im1) \<Rightarrow>
        (case deregister_all (registrations im1) im1 of (erased, im2) \<Rightarrow> (released, erased, im2)))"

definition lifecycle_at :: "Impl \<Rightarrow> RegistrationId \<Rightarrow> RegistrationLifecycle option" where
  "lifecycle_at im i = map_option r_lifecycle (reg_at im i)"

lemma dom_lifecycle: "dom (lifecycle_at im) = dom (reg_at im)"
  by (auto simp: lifecycle_at_def)

lemma release_lease_ok:
  "fst (release_lease k im) \<longleftrightarrow> (\<exists>l. map_of (im_leases im) k = Some l \<and> l_state l \<noteq> LS_RELEASED)"
proof -
  obtain b im' where rel: "release_lease k im = (b, im')" by (rule prod.exhaust)
  from rel show ?thesis by (cases rule: release_lease_cases) (auto simp: rel)
qed

lemma release_lease_effect:
  "lifecycle_at (snd (release_lease k im)) = lifecycle_at im"
  "im_next_lease (snd (release_lease k im)) = im_next_lease im"
  "map_of (im_leases (snd (release_lease k im))) =
     (\<lambda>j. map_option (\<lambda>l. if j = k then l\<lparr>l_state := LS_RELEASED\<rparr> else l) (map_of (im_leases im) j))"
proof -
  obtain b im' where rel: "release_lease k im = (b, im')" by (rule prod.exhaust)
  from rel have "lifecycle_at im' = lifecycle_at im \<and> im_next_lease im' = im_next_lease im \<and>
    map_of (im_leases im') =
      (\<lambda>j. map_option (\<lambda>l. if j = k then l\<lparr>l_state := LS_RELEASED\<rparr> else l) (map_of (im_leases im) j))"
  proof (cases rule: release_lease_cases)
    case refused
    have "map_option (\<lambda>l. if j = k then l\<lparr>l_state := LS_RELEASED\<rparr> else l) (map_of (im_leases im) j) =
        map_of (im_leases im) j" for j
      using refused(3) by (cases "map_of (im_leases im) j") auto
    with refused(2) show ?thesis by simp
  next
    case (released ls regs)
    have "lifecycle_at im' = lifecycle_at im"
      by (auto simp: lifecycle_at_def released(4,5) reg_at_def um_simps fun_eq_iff drop_lease_count_def
          split: option.split)
    with released(2) show ?thesis by (auto simp: released(5) um_simps fun_eq_iff option.map_ident)
  qed
  then show "lifecycle_at (snd (release_lease k im)) = lifecycle_at im"
    "im_next_lease (snd (release_lease k im)) = im_next_lease im"
    "map_of (im_leases (snd (release_lease k im))) =
       (\<lambda>j. map_option (\<lambda>l. if j = k then l\<lparr>l_state := LS_RELEASED\<rparr> else l) (map_of (im_leases im) j))"
    by (simp_all add: rel)
qed

lemma release_leases_effect:
  assumes "managed im" and "im_next_lease im \<noteq> - 1" and "distinct ks"
    and "\<forall>k \<in> set ks. \<exists>l. map_of (im_leases im) k = Some l \<and> l_state l \<noteq> LS_RELEASED"
  shows "fst (release_leases ks im) = replicate (length ks) True \<and>
    managed (snd (release_leases ks im)) \<and> lifecycle_at (snd (release_leases ks im)) = lifecycle_at im \<and>
    map_of (im_leases (snd (release_leases ks im))) =
      (\<lambda>k. map_option (\<lambda>l. if k \<in> set ks then l\<lparr>l_state := LS_RELEASED\<rparr> else l) (map_of (im_leases im) k))"
  using assms
proof (induction ks arbitrary: im)
  case Nil
  then show ?case by (simp add: option.map_ident)
next
  case (Cons k ks)
  let ?im = "snd (release_lease k im)"
  have ok: "fst (release_lease k im)" using Cons.prems(4) by (simp add: release_lease_ok)
  have managed: "managed ?im"
    using managed.op [OF Cons.prems(1), of "OpReleaseLease k"] Cons.prems(2) by simp
  have "\<forall>j \<in> set ks. \<exists>l. map_of (im_leases ?im) j = Some l \<and> l_state l \<noteq> LS_RELEASED"
  proof
    fix j assume "j \<in> set ks"
    with Cons.prems(3,4) show "\<exists>l. map_of (im_leases ?im) j = Some l \<and> l_state l \<noteq> LS_RELEASED"
      by (cases "j = k") (auto simp: release_lease_effect)
  qed
  from Cons.IH [OF managed _ _ this] Cons.prems(2,3) have IH: "fst (release_leases ks ?im) = replicate (length ks) True"
    "managed (snd (release_leases ks ?im))" "lifecycle_at (snd (release_leases ks ?im)) = lifecycle_at im"
    "map_of (im_leases (snd (release_leases ks ?im))) = (\<lambda>j. map_option (\<lambda>l. if j \<in> set ks
      then l\<lparr>l_state := LS_RELEASED\<rparr> else l) (map_of (im_leases ?im) j))"
    by (simp_all add: release_lease_effect)
  have "release_leases (k # ks) im = (True # fst (release_leases ks ?im), snd (release_leases ks ?im))"
    using ok by (simp add: split_def)
  with IH show ?case
    by (auto simp: release_lease_effect fun_eq_iff option.map_comp comp_def intro!: option.map_cong)
qed

definition leases_released :: "Impl \<Rightarrow> bool" where
  "leases_released im \<longleftrightarrow> (\<forall>k l. map_of (im_leases im) k = Some l \<longrightarrow> l_state l = LS_RELEASED)"

lemma released_count:
  assumes "seq_reach im" and "leases_released im" and "reg_at im i = Some r"
  shows "r_lease_count r = 0"
proof -
  have "outstanding im i = {}" using assms(2) by (auto simp: outstanding_def leases_released_def)
  with seq_reach_leases [OF assms(1)] assms(3) have "unat (r_lease_count r) = 0"
    by (simp add: leases_ok_def lease_counts_exact_def)
  then show ?thesis by (simp add: unat_eq_0)
qed

lemma deregister_released:
  assumes "managed im" and "leases_released im"
  shows "lifecycle_at (snd (deregister i im)) =
      (if lifecycle_at im i = Some RL_REVOKING then lifecycle_at im else (lifecycle_at im)(i := None))"
    and "leases_released (snd (deregister i im))"
    and "fst (fst (deregister i im)) \<longleftrightarrow> i \<in> dom (lifecycle_at im) \<and> lifecycle_at im i \<noteq> Some RL_REVOKING"
proof -
  note seq = managed_seq [OF assms(1)]
  have wf: "tables_wf im" using seq_reach_inv [OF seq] by simp
  obtain ok ex im' where d: "deregister i im = ((ok, ex), im')" by (metis surj_pair)
  have ok: "ok \<longleftrightarrow> reg_at im i \<noteq> None \<and> lifecycle_at im i \<noteq> Some RL_REVOKING"
    using managed_deregister_ok_iff [OF assms(1), of i] released_count [OF seq assms(2)]
    by (auto simp: d lifecycle_at_def)
  have "lifecycle_at im' = (if lifecycle_at im i = Some RL_REVOKING then lifecycle_at im else (lifecycle_at im)(i := None)) \<and>
    leases_released im'"
  proof (cases ok)
    case True
    from d show ?thesis
      by (cases rule: deregister_cases)
        (use True ok wf assms(2) in \<open>auto simp: lifecycle_at_def reg_at_def um_simps leases_released_def
          tables_wf_def fun_eq_iff split: option.splits if_splits\<close>)
  next
    case False
    with ok have "reg_at im i = None \<or> lifecycle_at im i = Some RL_REVOKING" by auto
    then have "im' = im"
      using deregister_refused_same [of im i] by (auto simp: d lifecycle_at_def deregisterable_def)
    with False ok assms(2) show ?thesis by (auto simp: lifecycle_at_def)
  qed
  then show "lifecycle_at (snd (deregister i im)) =
      (if lifecycle_at im i = Some RL_REVOKING then lifecycle_at im else (lifecycle_at im)(i := None))"
    and "leases_released (snd (deregister i im))"
    and "fst (fst (deregister i im)) \<longleftrightarrow> i \<in> dom (lifecycle_at im) \<and> lifecycle_at im i \<noteq> Some RL_REVOKING"
    using ok by (simp_all add: d dom_lifecycle domIff)
qed

lemma deregister_all_effect:
  assumes "managed im" and "leases_released im" and "distinct is"
  shows "fst (deregister_all is im) =
      map (\<lambda>i. i \<in> dom (lifecycle_at im) \<and> lifecycle_at im i \<noteq> Some RL_REVOKING) is \<and>
    managed (snd (deregister_all is im)) \<and> lifecycle_at (snd (deregister_all is im)) =
      (\<lambda>i. if i \<in> set is \<and> lifecycle_at im i \<noteq> Some RL_REVOKING then None else lifecycle_at im i)"
  using assms
proof (induction "is" arbitrary: im)
  case (Cons i "is")
  let ?im = "snd (deregister i im)"
  note one = deregister_released [OF Cons.prems(1,2), of i]
  have IH: "fst (deregister_all is ?im) =
      map (\<lambda>j. j \<in> dom (lifecycle_at ?im) \<and> lifecycle_at ?im j \<noteq> Some RL_REVOKING) is"
    "managed (snd (deregister_all is ?im))" "lifecycle_at (snd (deregister_all is ?im)) =
      (\<lambda>j. if j \<in> set is \<and> lifecycle_at ?im j \<noteq> Some RL_REVOKING then None else lifecycle_at ?im j)"
    using Cons.IH [OF managed.deregistering [OF Cons.prems(1)] one(2)] Cons.prems(3) by simp_all
  have "deregister_all (i # is) im =
      (fst (fst (deregister i im)) # fst (deregister_all is ?im), snd (deregister_all is ?im))"
    by (simp add: split_def)
  with IH Cons.prems(3) show ?case by (auto simp: one(1,3) fun_eq_iff)
qed simp

lemma registrations_set: "set (registrations im) = dom (reg_at im)"
  by (simp add: registrations_def reg_at_def dom_map_of_conv_image_fst)

lemma registrations_distinct: "tables_wf im \<Longrightarrow> sorted (registrations im) \<and> distinct (registrations im)"
  by (simp add: registrations_def tables_wf_def um_wf_def)

lemma lease_out:
  assumes "tables_wf im"
  shows "distinct (leases_out im)"
    and "k \<in> set (leases_out im) \<longleftrightarrow> (\<exists>l. map_of (im_leases im) k = Some l \<and> l_state l \<noteq> LS_RELEASED)"
proof -
  have wf: "distinct (map fst (im_leases im))" using assms by (simp add: tables_wf_def um_wf_def)
  then show "distinct (leases_out im)" by (simp add: leases_out_def distinct_map_filter)
  from wf show "k \<in> set (leases_out im) \<longleftrightarrow>
      (\<exists>l. map_of (im_leases im) k = Some l \<and> l_state l \<noteq> LS_RELEASED)"
    by (force simp: leases_out_def)
qed

lemma drain_effect:
  assumes "managed im" and "im_next_lease im \<noteq> - 1"
  obtains released erased im' where "drain im = (released, erased, im')" "managed im'"
    "\<forall>b \<in> set released. b"
    "erased = map (\<lambda>i. lifecycle_at im i \<noteq> Some RL_REVOKING) (registrations im)"
    "lifecycle_at im' = (\<lambda>i. if lifecycle_at im i = Some RL_REVOKING then Some RL_REVOKING else None)"
proof -
  obtain released im1 where rel: "release_leases (leases_out im) im = (released, im1)" by (rule prod.exhaust)
  obtain erased im2 where er: "deregister_all (registrations im1) im1 = (erased, im2)" by (rule prod.exhaust)
  have wf: "tables_wf im" using seq_reach_inv [OF managed_seq [OF assms(1)]] by simp
  have "\<forall>k \<in> set (leases_out im). \<exists>l. map_of (im_leases im) k = Some l \<and> l_state l \<noteq> LS_RELEASED"
    by (simp add: lease_out(2) [OF wf])
  note effect = release_leases_effect [OF assms lease_out(1) [OF wf] this, unfolded rel fst_conv snd_conv]
  then have im1: "managed im1" "lifecycle_at im1 = lifecycle_at im" by blast+
  have wf1: "tables_wf im1" using seq_reach_inv [OF managed_seq [OF im1(1)]] by simp
  have "l_state l = LS_RELEASED" if "map_of (im_leases im1) k = Some l" for k l
  proof -
    from that effect obtain l0 where l0: "map_of (im_leases im) k = Some l0"
      "l = (if k \<in> set (leases_out im) then l0\<lparr>l_state := LS_RELEASED\<rparr> else l0)" by auto
    then show ?thesis using lease_out(2) [OF wf, of k] by (cases "k \<in> set (leases_out im)") auto
  qed
  then have "leases_released im1" by (simp add: leases_released_def)
  note all = deregister_all_effect [OF im1(1) this, of "registrations im1", unfolded er fst_conv snd_conv im1(2)]
  have dom: "dom (reg_at im1) = dom (lifecycle_at im)" by (simp add: im1(2) flip: dom_lifecycle)
  have regs: "registrations im1 = registrations im"
    using registrations_distinct [OF wf] registrations_distinct [OF wf1]
    by (intro sorted_distinct_set_unique) (simp_all add: registrations_set dom dom_lifecycle)
  have all': "erased = map (\<lambda>i. i \<in> dom (lifecycle_at im) \<and> lifecycle_at im i \<noteq> Some RL_REVOKING) (registrations im)"
    "managed im2" "lifecycle_at im2 = (\<lambda>i. if i \<in> set (registrations im) \<and>
      lifecycle_at im i \<noteq> Some RL_REVOKING then None else lifecycle_at im i)"
    using all registrations_distinct [OF wf1] by (simp_all add: regs)
  show thesis
  proof (rule that)
    show "drain im = (released, erased, im2)" by (simp add: drain_def rel er)
    show "\<forall>b \<in> set released. b" using effect by (metis in_set_replicate)
    show "erased = map (\<lambda>i. lifecycle_at im i \<noteq> Some RL_REVOKING) (registrations im)"
      by (auto simp: all'(1) registrations_set dom_lifecycle)
    show "lifecycle_at im2 = (\<lambda>i. if lifecycle_at im i = Some RL_REVOKING then Some RL_REVOKING else None)"
      using dom_lifecycle [of im] by (fastforce simp: all'(3) registrations_set fun_eq_iff)
  qed (rule all'(2))
qed

section \<open>Properties\<close>

text \<open>C14. Deregistration fails only for a reason, in the runs of \<open>managed\<close>: calls do not overlap,
  nothing is recovered from a file, nothing but the registry touches the
  backends, which are attached in a consistent state (\<open>be_wf\<close>), as when they were created, and neither the
  lease and registration identities nor the handles of a backend have run out. Then \<open>deregister\<close>
  succeeds exactly for a registration that exists, on which no lease is out and which is
  not waiting for a soft revocation; and a call that fails leaves the registry as it was. In
  particular no registration ever becomes FAILED.\<close>

theorem deregister_succeeds_iff:
  assumes "managed im"
  shows "(fst (fst (deregister i im)) \<longleftrightarrow>
      (\<exists>r. get_registration i im = Some r \<and> r_lifecycle r \<noteq> RL_REVOKING \<and>
        (\<forall>k l. map_of (im_leases im) k = Some l \<longrightarrow> l_registration l = i \<longrightarrow> l_state l = LS_RELEASED))) \<and>
    (\<not> fst (fst (deregister i im)) \<longrightarrow> snd (deregister i im) = im) \<and>
    (\<forall>r. get_registration i im = Some r \<longrightarrow> r_lifecycle r \<noteq> RL_FAILED)"
proof -
  have count: "r_lease_count r = 0 \<longleftrightarrow>
      (\<forall>k l. map_of (im_leases im) k = Some l \<longrightarrow> l_registration l = i \<longrightarrow> l_state l = LS_RELEASED)"
    if "reg_at im i = Some r" for r
  proof -
    have "unat (r_lease_count r) = card (outstanding im i)"
      using seq_reach_leases [OF managed_seq [OF assms]] that by (simp add: leases_ok_def lease_counts_exact_def)
    then have "r_lease_count r = 0 \<longleftrightarrow> outstanding im i = {}" by (simp add: unat_eq_0 [symmetric])
    then show ?thesis by (auto simp: outstanding_def)
  qed
  have settled: "settled r" if "reg_at im i = Some r" for r
    using managed_backed [OF assms] that by (simp add: backed_def handles_held_def)
  have same: "snd (deregister i im) = im" if "\<not> fst (fst (deregister i im))"
    using that managed_deregister_ok_iff [OF assms, of i] deregister_refused_same [of im i]
    by (cases "reg_at im i") (auto simp: deregisterable_def)
  show ?thesis
    using managed_deregister_ok_iff [OF assms, of i] count settled same
    by (auto simp: get_registration_def reg_at_def settled_def deregisterable_def)
qed

text \<open>C8. A registry can be taken down, in the runs of \<open>managed\<close>: calls do not overlap, nothing is
  recovered from a file, nothing but the registry touches the
  backends, which are attached in a consistent state (\<open>be_wf\<close>), as when they were created, and neither the lease and
  registration identities nor the handles of a backend have run out. Releasing every lease that is
  out and then deregistering every registration empties the registry but for the registrations that
  a soft revocation left REVOKING: each release succeeds, and each deregistration but those of the
  REVOKING ones. Where there is none of these, no lease is left and no slot that could block
  another registration of its buffer, and four counters are zero: active registrations, active leases, local
  keys and remote keys. (The byte counters need not be; see \<open>destroyed_domain_counted_twice\<close>.)\<close>

theorem registry_drains:
  assumes "managed im" and "im_next_lease im \<noteq> - 1" and "drain im = (released, erased, im')"
  shows "(\<forall>b \<in> set released. b) \<and>
    erased = map (\<lambda>i. map_option r_lifecycle (get_registration i im) \<noteq> Some RL_REVOKING) (registrations im) \<and>
    registrations im' =
      filter (\<lambda>i. map_option r_lifecycle (get_registration i im) = Some RL_REVOKING) (registrations im) \<and>
    ((\<forall>i r. get_registration i im = Some r \<longrightarrow> r_lifecycle r \<noteq> RL_REVOKING) \<longrightarrow>
      im_leases im' = [] \<and> im_active_reg im' = [] \<and>
      a_active_registrations (im_acct im') = 0 \<and> a_active_leases (im_acct im') = 0 \<and>
      a_local_keys (im_acct im') = 0 \<and> a_remote_keys (im_acct im') = 0)"
proof -
  have eq: "map_option r_lifecycle (get_registration i im) = lifecycle_at im i" for i
    by (simp add: lifecycle_at_def get_registration_def reg_at_def)
  from drain_effect [OF assms(1,2)] have managed: "managed im'" and released: "\<forall>b \<in> set released. b"
    and erased: "erased = map (\<lambda>i. lifecycle_at im i \<noteq> Some RL_REVOKING) (registrations im)"
    and drained: "lifecycle_at im' = (\<lambda>i. if lifecycle_at im i = Some RL_REVOKING then Some RL_REVOKING else None)"
    by (auto simp: assms(3))
  have seq: "seq_reach im" "seq_reach im'" using managed_seq assms(1) managed by auto
  let ?f = "filter (\<lambda>i. lifecycle_at im i = Some RL_REVOKING) (registrations im)"
  have "dom (reg_at im') = {i \<in> dom (reg_at im). lifecycle_at im i = Some RL_REVOKING}"
    unfolding dom_lifecycle [symmetric] using drained by (auto split: if_splits)
  then have "set (registrations im') = set ?f" by (auto simp: registrations_set)
  then have regs: "registrations im' = ?f"
    using seq_reach_inv [OF seq(1)] seq_reach_inv [OF seq(2)] registrations_distinct
    by (intro sorted_distinct_set_unique) (auto intro: sorted_wrt_filter)
  have clean: "im_leases im' = [] \<and> im_active_reg im' = [] \<and>
      a_active_registrations (im_acct im') = 0 \<and> a_active_leases (im_acct im') = 0 \<and>
      a_local_keys (im_acct im') = 0 \<and> a_remote_keys (im_acct im') = 0"
    if none: "\<And>i. lifecycle_at im i \<noteq> Some RL_REVOKING"
  proof -
    have no: "reg_at im' = Map.empty"
      using drained none dom_lifecycle [of im'] by (auto simp: fun_eq_iff)
    have "leases_named im'" and "slots_held im'"
      using seq_reach_leases [OF seq(2)] managed_backed [OF managed] by (simp_all add: leases_ok_def backed_def)
    then have "map_of (im_leases im') k \<noteq> Some l" and "map_of (im_active_reg im') b \<noteq> Some i" for k l b i
      unfolding leases_named_def slots_held_def no by blast+
    then have "map_of (im_leases im') = Map.empty" and "map_of (im_active_reg im') = Map.empty"
      by (meson ext option.exhaust)+
    moreover have "registrations im' = []" using no by (simp add: regs none)
    ultimately show ?thesis using teardown_counters_zero [OF seq(2)] by simp
  qed
  then show ?thesis unfolding eq regs using released erased
    by (auto simp: lifecycle_at_def get_registration_def reg_at_def)
qed

section \<open>Witnesses\<close>

lemma demo_leased_managed: "managed demo_leased"
proof -
  have wf: "be_wf demo_backend" "be_room demo_backend"
    by (simp_all add: demo_backend_def syn_wf_def syn_room_def syn_create_def um_simps)
  let ?im1 = "exec (OpSetAuthority demo_authority) new_impl"
  let ?im2 = "exec (OpAddBackend (Some demo_backend)) ?im1"
  let ?im3 = "exec (OpCreateDomain (StrongId 1) (StrongId 1)) ?im2"
  have "im_next_lease ?im1 \<noteq> - 1" "im_next_lease ?im2 \<noteq> - 1" "im_next_lease ?im3 \<noteq> - 1"
    by (simp_all add: new_impl_def set_authority_def add_backend_def create_protection_domain_def Let_def)
  then have "managed (exec (OpCreateBuffer page_buffer) ?im3)"
    by (intro managed.op managed.init) (simp_all add: new_impl_def wf)
  then have "managed demo0" by (simp add: demo0_def)
  moreover have "backends_room demo0" using wf by (simp add: backends_room_def demo0_eq)
  ultimately have "managed demo1"
    unfolding demo1_def by (intro managed.registering) simp_all
  from managed.op [OF this, of "OpAcquireLease demo_reg demo_env 4"] show ?thesis
    by (simp add: demo_leased_def demo1_eq)
qed

text \<open>With a lease out \<open>deregister\<close> refuses; draining releases it and empties the registry.\<close>

theorem deregister_succeeds_iff_witness:
  "\<not> fst (fst (deregister demo_reg demo_leased)) \<and> snd (deregister demo_reg demo_leased) = demo_leased"
  using deregister_succeeds_iff [OF demo_leased_managed, of demo_reg]
  by (simp add: demo_leased_eq new_lease_def)

theorem registry_drains_witness:
  "\<exists>released erased im'. drain demo_leased = (released, erased, im') \<and> (\<forall>b \<in> set released. b) \<and>
     erased = [True] \<and> registrations im' = [] \<and> im_active_reg im' = []"
proof -
  obtain released erased im' where d: "drain demo_leased = (released, erased, im')" by (metis surj_pair)
  have "get_registration i demo_leased = Some r \<Longrightarrow> r_lifecycle r = RL_ACTIVE" for i r
    by (simp add: demo_leased_eq get_registration_def split: if_splits) (auto simp: demo_record_def committed_record_def)
  then have "\<forall>i r. get_registration i demo_leased = Some r \<longrightarrow> r_lifecycle r \<noteq> RL_REVOKING" by auto
  moreover have "im_next_lease demo_leased \<noteq> - 1" by (simp add: demo_leased_eq)
  moreover have "registrations demo_leased = [demo_reg]"
    "map_option r_lifecycle (get_registration demo_reg demo_leased) = Some RL_ACTIVE"
    by (simp_all add: demo_leased_eq get_registration_def registrations_def demo_record_def committed_record_def)
  ultimately show ?thesis using registry_drains [OF demo_leased_managed _ d] d by auto
qed

end
