(* ===== verification/Lifecycles.thy ===== *)
theory Lifecycles
  imports Races
begin

text \<open>
  The lifecycle of a registration under every interleaving (of the operations other than
  \<open>recover\<close>, as everywhere with \<open>sys_run\<close>): which states a held record can be in,
  which changes the steps of the registry make, compared with the table \<open>can_transition\<close> of
  \<open>registration.hpp\<close>, and the correspondence between the records that are being deregistered and
  the \<open>deregister\<close> calls in progress.
\<close>

section \<open>Calls of \<open>deregister\<close> in progress\<close>

fun dereg_id :: "Pending \<Rightarrow> RegistrationId list" where
  "dereg_id (PendingRegister d bid r cx) = []"
| "dereg_id (PendingCommit bid r bout) = []"
| "dereg_id (PendingDeregister i h bid) = [i]"
| "dereg_id (PendingFinish i) = [i]"

definition dereg_ids :: "Pending list \<Rightarrow> RegistrationId list" where
  "dereg_ids ps = concat (map dereg_id ps)"

lemma dereg_ids_simps [simp]:
  "dereg_ids [] = []"
  "dereg_ids (p # ps) = dereg_id p @ dereg_ids ps"
  "dereg_ids (ps @ qs) = dereg_ids ps @ dereg_ids qs"
  by (simp_all add: dereg_ids_def)

text \<open>The states a record can be held in.\<close>

definition held_lifecycle :: "RegistrationLifecycle \<Rightarrow> bool" where
  "held_lifecycle l \<longleftrightarrow>
     l \<in> {RL_ACTIVE, RL_REVOKING, RL_REVOKED, RL_STALE, RL_DEREGISTERING, RL_FAILED}"

definition lifecycles_ok :: "Impl \<times> Pending list \<Rightarrow> bool" where
  "lifecycles_ok s \<longleftrightarrow>
     distinct (dereg_ids (snd s)) \<and>
     (\<forall>i \<in> set (dereg_ids (snd s)). reg_at (fst s) i \<noteq> None) \<and>
     (\<forall>i r. reg_at (fst s) i = Some r \<longrightarrow>
        held_lifecycle (r_lifecycle r) \<and>
        (r_lifecycle r = RL_DEREGISTERING \<longleftrightarrow> i \<in> set (dereg_ids (snd s))))"

lemma lifecycles_okD:
  "lifecycles_ok (im, ps) \<Longrightarrow> reg_at im i = Some r \<Longrightarrow>
     held_lifecycle (r_lifecycle r) \<and> (r_lifecycle r = RL_DEREGISTERING \<longleftrightarrow> i \<in> set (dereg_ids ps))"
  by (simp add: lifecycles_ok_def)

lemma lifecycles_ok_present:
  "lifecycles_ok (im, ps) \<Longrightarrow> i \<in> set (dereg_ids ps) \<Longrightarrow>
     \<exists>r. reg_at im i = Some r \<and> r_lifecycle r = RL_DEREGISTERING"
  by (cases "reg_at im i") (auto simp: lifecycles_ok_def)

text \<open>What one change under the mutex does to a lifecycle.\<close>

lemma held_step_lifecycle:
  assumes "held_step r r'" and "held_lifecycle (r_lifecycle r)"
  shows "r_lifecycle r' = r_lifecycle r \<or>
    r_lifecycle r = RL_ACTIVE \<and> r_lifecycle r' \<in> {RL_REVOKING, RL_REVOKED, RL_STALE}"
  using assms
  by (induction rule: held_step.induct) (auto simp: reg_changes is_live_def held_lifecycle_def)

lemma lifecycles_ok_keeps:
  assumes "lifecycles_ok (im, ps)" and "keeps im im'"
  shows "lifecycles_ok (im', ps)"
proof -
  have "held_lifecycle (r_lifecycle r') \<and> (r_lifecycle r' = RL_DEREGISTERING \<longleftrightarrow> i \<in> set (dereg_ids ps))"
    if at: "reg_at im' i = Some r'" for i r'
  proof -
    from keeps_None [OF assms(2)] at obtain r where r: "reg_at im i = Some r"
      by (cases "reg_at im i") auto
    note ok = lifecycles_okD [OF assms(1) r]
    from keepsD [OF assms(2) r] at have "r' = r \<or> held_step r r'" by auto
    with ok held_step_lifecycle [of r r'] show ?thesis by (auto simp: held_lifecycle_def)
  qed
  moreover have "reg_at im' i \<noteq> None" if "i \<in> set (dereg_ids ps)" for i
    using lifecycles_ok_present [OF assms(1) that] keepsD [OF assms(2)] by fastforce
  ultimately show ?thesis using assms(1) by (simp add: lifecycles_ok_def)
qed

text \<open>A step that leaves the records alone and keeps the calls in progress.\<close>

lemma lifecycles_ok_quiet:
  "lifecycles_ok (im, ps) \<Longrightarrow> reg_at im' = reg_at im \<Longrightarrow> dereg_ids ps' = dereg_ids ps \<Longrightarrow>
     lifecycles_ok (im', ps')"
  by (simp add: lifecycles_ok_def)

lemma put_reg_at: "reg_at (put_reg i r im) = (reg_at im)(i \<mapsto> r)"
  by (simp add: reg_at_def put_reg_def um_simps)

section \<open>Every step\<close>

lemma lifecycles_ok_step:
  assumes "sys_step s s'" and "lifecycles_ok s" and "sys_inv s"
  shows "lifecycles_ok s'"
proof -
  obtain im ps im' ps' where s: "s = (im, ps)" "s' = (im', ps')" by (metis surj_pair)
  note ok = assms(2) [unfolded s(1)]
  have quiet: "lifecycles_ok (im', ps')" if "keeps im im'" "dereg_ids ps' = dereg_ids ps"
    using lifecycles_ok_quiet [OF lifecycles_ok_keeps [OF ok that(1)] refl that(2)] .
  from assms(1) [unfolded s] have "lifecycles_ok (im', ps')"
  proof (cases rule: sys_step_shape)
    case (reserved d bid r cx)
    show ?thesis by (rule lifecycles_ok_quiet [OF ok reserved(1)]) (simp add: reserved(5))
  next
    case (committed as bid r bout bs)
    have "reg_at im (r_id r) = None" using assms(3) by (simp add: s(1) sys_inv_def committed(1))
    then have "r_id r \<notin> set (dereg_ids ps)" using lifecycles_ok_present [OF ok, of "r_id r"] by auto
    then show ?thesis using ok by (auto simp: committed lifecycles_ok_def held_lifecycle_def)
  next
    case (begun i r h bid)
    have "r_lifecycle r \<noteq> RL_DEREGISTERING" using begun(4) by (auto simp: deregisterable_def)
    with lifecycles_okD [OF ok begun(2)] have "i \<notin> set (dereg_ids ps)" by simp
    then show ?thesis using ok by (auto simp: lifecycles_ok_def begun(1,5) held_lifecycle_def)
  next
    case (failed as i h bid bs)
    then obtain r where "reg_at im i = Some r" "r_lifecycle r = RL_DEREGISTERING"
      using lifecycles_ok_present [OF ok, of i] by auto
    then have "reg_at im' = (reg_at im)(i \<mapsto> r\<lparr>r_lifecycle := RL_FAILED\<rparr>)" by (simp add: failed(3))
    then show ?thesis using ok by (auto simp: lifecycles_ok_def failed(1,2) held_lifecycle_def)
  next
    case (finished as i bs)
    then show ?thesis using ok by (auto simp: lifecycles_ok_def split: if_splits)
  qed (rule quiet; force)+
  then show ?thesis by (simp add: s(2))
qed

lemma lifecycles_ok_run:
  assumes "sys_run (new_impl, []) s"
  shows "lifecycles_ok s \<and> sys_inv s"
  using assms
proof (induction rule: rtranclp_induct)
  case base
  have "lifecycles_ok (new_impl, [])" by (simp add: lifecycles_ok_def new_impl_def reg_at_def)
  with sys_inv_init show ?case by blast
next
  case (step s1 s2)
  then show ?case using lifecycles_ok_step sys_inv_step by blast
qed

text \<open>What a step does to one held record.\<close>

lemma record_after_step [consumes 4, case_names held dereg failed erased]:
  assumes "sys_step s s'" and "lifecycles_ok s" and "sys_inv s" and at: "reg_at (fst s) i = Some r"
  obtains (held) r' where "reg_at (fst s') i = Some r'" "r' = r \<or> held_step r r'"
  | (dereg) "reg_at (fst s') i = Some (r\<lparr>r_lifecycle := RL_DEREGISTERING\<rparr>)" "deregisterable (r_lifecycle r)"
  | (failed) "reg_at (fst s') i = Some (r\<lparr>r_lifecycle := RL_FAILED\<rparr>)" "r_lifecycle r = RL_DEREGISTERING"
  | (erased) "reg_at (fst s') i = None" "r_lifecycle r = RL_DEREGISTERING"
proof -
  obtain im ps im' ps' where s: "s = (im, ps)" "s' = (im', ps')" by (metis surj_pair)
  from at have r: "reg_at im i = Some r" by (simp add: s(1))
  have quiet: thesis if "keeps im im'" using keepsD [OF that r] held by (auto simp: s(2))
  have other: thesis if "reg_at im' = (reg_at im)(j := v)" and "i \<noteq> j" for j v
    using that r by (intro held [of r]) (simp_all add: s(2))
  note closing = lifecycles_ok_present [OF assms(2) [unfolded s(1)]]
  from assms(1) [unfolded s] show thesis
  proof (cases rule: sys_step_shape)
    case (reserved d bid r' cx)
    with r show thesis by (intro held [of r]) (simp_all add: s(2))
  next
    case (committed as bid r' bout bs)
    have "reg_at im (r_id r') = None" using assms(3) by (simp add: s(1) sys_inv_def committed(1))
    with r have "i \<noteq> r_id r'" by auto
    with r show thesis by (intro held [of r]) (simp_all add: s(2) committed(3))
  next
    case (begun j r0 h bid)
    show thesis
    proof (cases "i = j")
      case True
      with r begun show thesis by (intro dereg) (simp_all add: s(2))
    qed (rule other [OF begun(5)])
  next
    case (failed as j h bid bs)
    then obtain r0 where r0: "reg_at im j = Some r0" "r_lifecycle r0 = RL_DEREGISTERING"
      using closing [of j] by auto
    then have step: "reg_at im' = (reg_at im)(j \<mapsto> r0\<lparr>r_lifecycle := RL_FAILED\<rparr>)" by (simp add: failed(3))
    show thesis
    proof (cases "i = j")
      case True
      with r r0 step show thesis by (intro that(3)) (simp_all add: s(2))
    qed (rule other [OF step])
  next
    case (finished as j bs)
    show thesis
    proof (cases "i = j")
      case True
      with r finished closing [of j] show thesis by (intro erased) (simp_all add: s(2))
    qed (rule other [OF finished(3)])
  qed (rule quiet, assumption)+
qed

text \<open>C5. A registration goes through its lifecycle by the table, under every interleaving of the
  operations other than \<open>recover\<close>, from the creation of the registry on: a step of any thread
  leaves the lifecycle of a record as it is, changes it as \<open>can_transition\<close> permits,
  or takes it from \<open>ACTIVE\<close> straight to \<open>REVOKED\<close>; a record is erased only out of \<open>DEREGISTERING\<close>;
  a record is \<open>DEREGISTERING\<close> exactly while one \<open>deregister\<close> call on it is in progress; and \<open>REVOKING\<close>
  and \<open>FAILED\<close>, which the table lets go on, are final. (\<open>recover\<close> overwrites the records of the
  identities in its file with \<open>REVALIDATION_REQUIRED\<close>, whatever state they are in.)\<close>

theorem lifecycle_follows_table:
  assumes "sys_run (new_impl, []) s" and "sys_step s s'" and "get_registration i (fst s) = Some r"
  shows "(case get_registration i (fst s') of
      None \<Rightarrow> r_lifecycle r = RL_DEREGISTERING
    | Some r' \<Rightarrow>
        r_lifecycle r' = r_lifecycle r \<or> can_transition (r_lifecycle r) (r_lifecycle r') \<or>
        r_lifecycle r = RL_ACTIVE \<and> r_lifecycle r' = RL_REVOKED) \<and>
    (r_lifecycle r = RL_DEREGISTERING \<longleftrightarrow> i \<in> set (dereg_ids (snd s))) \<and>
    distinct (dereg_ids (snd s)) \<and>
    (r_lifecycle r \<in> {RL_REVOKING, RL_FAILED} \<longrightarrow>
      map_option r_lifecycle (get_registration i (fst s')) = Some (r_lifecycle r))"
proof -
  from lifecycles_ok_run [OF assms(1)] have ok: "lifecycles_ok s" and inv: "sys_inv s" by simp_all
  have at: "reg_at (fst s) i = Some r" using assms(3) by (simp add: reg_at_def get_registration_def)
  have look: "get_registration i (fst s') = reg_at (fst s') i"
    by (simp add: reg_at_def get_registration_def)
  obtain im ps where s: "s = (im, ps)" by (rule prod.exhaust)
  have now: "held_lifecycle (r_lifecycle r)" "r_lifecycle r = RL_DEREGISTERING \<longleftrightarrow> i \<in> set (dereg_ids (snd s))"
    using lifecycles_okD [OF ok [unfolded s]] at by (auto simp: s)
  have once: "distinct (dereg_ids (snd s))" using ok by (simp add: lifecycles_ok_def)
  have go: "deregisterable (r_lifecycle r) \<Longrightarrow> can_transition (r_lifecycle r) RL_DEREGISTERING \<and>
      r_lifecycle r \<notin> {RL_REVOKING, RL_FAILED}"
    using now(1) by (auto simp: deregisterable_def held_lifecycle_def)
  from assms(2) ok inv at show ?thesis
  proof (cases rule: record_after_step)
    case (held r')
    with held_step_lifecycle [of r r'] now(1)
    have "r_lifecycle r' = r_lifecycle r \<or> can_transition (r_lifecycle r) (r_lifecycle r') \<or>
        r_lifecycle r = RL_ACTIVE \<and> r_lifecycle r' = RL_REVOKED"
      and "r_lifecycle r \<in> {RL_REVOKING, RL_FAILED} \<longrightarrow> r_lifecycle r' = r_lifecycle r" by auto
    with held(1) now(2) once show ?thesis by (simp add: look)
  next
    case dereg
    with go now(2) once show ?thesis by (simp add: look)
  next
    case failed
    with now(2) once show ?thesis by (simp add: look)
  next
    case erased
    with now(2) once show ?thesis by (simp add: look)
  qed
qed

theorem lifecycle_follows_table_witness:
  "sys_step (demo1, []) (exec (OpRevoke demo_reg RV_SOFT_REVOKE) demo1, []) \<and>
   get_registration demo_reg demo1 \<noteq> None \<and>
   distinct (dereg_ids (snd (demo1, [])))"
proof -
  have step: "sys_step (demo1, []) (exec (OpRevoke demo_reg RV_SOFT_REVOKE) demo1, [])"
    by (rule sys_step.atomic)
  obtain r where r: "get_registration demo_reg (fst (demo1, [] :: Pending list)) = Some r"
    by (simp add: demo1_eq get_registration_def)
  from lifecycle_follows_table [OF demo1_reachable step r] step r show ?thesis by simp
qed

text \<open>A registration that is being revoked softly.\<close>

lemma revoking_stays:
  assumes "lifecycles_ok s" and "sys_inv s" and "sys_step s s'"
    and "reg_at (fst s) i = Some r" and "r_lifecycle r = RL_REVOKING"
  shows "\<exists>r'. reg_at (fst s') i = Some r' \<and> r_lifecycle r' = RL_REVOKING"
  using assms(3,1,2,4)
proof (cases rule: record_after_step)
  case (held r')
  with assms(5) held_step_revoking [of r r'] show ?thesis by auto
qed (use assms(5) in \<open>auto simp: deregisterable_def\<close>)

lemma revoking_run:
  assumes "sys_run s s'" and "lifecycles_ok s" and "sys_inv s"
    and "reg_at (fst s) i = Some r" and "r_lifecycle r = RL_REVOKING"
  shows "\<exists>r'. reg_at (fst s') i = Some r' \<and> r_lifecycle r' = RL_REVOKING"
  using assms
proof (induction arbitrary: r rule: converse_rtranclp_induct)
  case (step s1 s2)
  from revoking_stays [OF step.prems(1,2) step.hyps(1) step.prems(3,4)] obtain r'
    where "reg_at (fst s2) i = Some r'" "r_lifecycle r' = RL_REVOKING" by blast
  with step.IH lifecycles_ok_step [OF step.hyps(1) step.prems(1,2)] sys_inv_step [OF step.hyps(1) step.prems(2)]
  show ?case by blast
qed blast

lemma revoking_not_deregistered:
  assumes "reg_at im i = Some r" and "r_lifecycle r = RL_REVOKING"
  shows "\<not> fst (fst (deregister i im))" and "snd (deregister i im) = im"
  using assms by (simp_all add: deregister_def deregister_prepare_def reg_at_def deregisterable_def)

text \<open>C39. A soft revocation of a registration that still has leases never completes: whatever the
  threads do afterwards, in any interleaving of registrations, deregistrations and every other
  operation but \<open>recover\<close>, releasing every lease included, the registration stays \<open>REVOKING\<close>, and
  \<open>deregister\<close> refuses it and changes nothing. The comment in \<open>revoke\<close> says that it is \<open>REVOKING\<close> only
  until its lease count reaches zero. (Only a \<open>recover\<close> from a file that holds its identity
  overwrites the record.)\<close>

theorem soft_revocation_never_completes:
  assumes "sys_run (new_impl, []) (im, ps)" and "rv_ok (fst (revoke i RV_SOFT_REVOKE im))"
    and "get_registration i im = Some r" and "r_lease_count r \<noteq> 0"
    and "sys_run (snd (revoke i RV_SOFT_REVOKE im), ps) (im', ps')"
  shows "\<exists>r'. get_registration i im' = Some r' \<and> r_lifecycle r' = RL_REVOKING \<and>
    \<not> fst (fst (deregister i im')) \<and> snd (deregister i im') = im'"
proof -
  obtain rv im1 where rev: "revoke i RV_SOFT_REVOKE im = (rv, im1)" by (rule prod.exhaust)
  have at: "reg_at im i = Some r" using assms(3) by (simp add: reg_at_def get_registration_def)
  from rev have "reg_at im1 i = Some (soft_revoked_reg r)"
    by (cases rule: revoke_cases) (use assms(2) at rev in \<open>auto simp: reg_at_def um_simps\<close>)
  moreover have "r_lifecycle (soft_revoked_reg r) = RL_REVOKING"
    using assms(4) by (simp add: soft_revoked_reg_def)
  moreover have "sys_run (new_impl, []) (im1, ps)"
    using run_atomic [OF assms(1), of "OpRevoke i RV_SOFT_REVOKE"] by (simp add: rev)
  note lifecycles_ok_run [OF this]
  ultimately obtain r' where "reg_at im' i = Some r'" "r_lifecycle r' = RL_REVOKING"
    using revoking_run [OF assms(5)] by (auto simp: rev)
  with revoking_not_deregistered show ?thesis by (auto simp: reg_at_def get_registration_def)
qed

theorem soft_revocation_never_completes_witness:
  "rv_ok (fst (revoke demo_reg RV_SOFT_REVOKE demo_leased)) \<and>
   (\<exists>r'. get_registration demo_reg
      (exec (OpReleaseLease (StrongId 1)) (snd (revoke demo_reg RV_SOFT_REVOKE demo_leased))) = Some r' \<and>
      r_lifecycle r' = RL_REVOKING)"
proof -
  have ok: "rv_ok (fst (revoke demo_reg RV_SOFT_REVOKE demo_leased))"
    by (simp add: revoke_def demo_leased_eq Let_def)
  have reach: "sys_run (new_impl, []) (demo_leased, [])"
    using run_atomic [OF demo1_reachable, of "OpAcquireLease demo_reg demo_env 4"]
    by (simp add: demo_leased_def)
  have at: "get_registration demo_reg demo_leased = Some (demo_record\<lparr>r_lease_count := 1\<rparr>)"
    by (simp add: demo_leased_eq get_registration_def)
  have "sys_run (snd (revoke demo_reg RV_SOFT_REVOKE demo_leased), [])
      (exec (OpReleaseLease (StrongId 1)) (snd (revoke demo_reg RV_SOFT_REVOKE demo_leased)), [])"
    by (intro r_into_rtranclp sys_step.atomic)
  from soft_revocation_never_completes [OF reach ok at _ this] ok show ?thesis by auto
qed

text \<open>The error that the last section of \<open>deregister\<close> keeps for a vanished record never arises.\<close>

lemma deregister_never_vanishes:
  assumes "sys_run (new_impl, []) (im, ps)" and "PendingFinish i \<in> set ps"
  shows "fst (fst (deregister_finish i im))"
proof -
  from lifecycles_ok_run [OF assms(1)] have ok: "lifecycles_ok (im, ps)" by simp
  have "i \<in> set (dereg_ids ps)" using assms(2) by (force simp: dereg_ids_def)
  from lifecycles_ok_present [OF ok this] show ?thesis
    by (auto simp: deregister_finish_def reg_at_def Let_def)
qed

end
