(* ===== verification/LeaseRuns.thy ===== *)
theory LeaseRuns
  imports Lifetime Lifecycles
begin

text \<open>
  Leases when calls overlap: the count of a registration is the number of its leases that are out
  after any interleaving of the operations other than \<open>recover\<close>, and \<open>deregister\<close>, whole or in its
  last section, never erases a registration with a lease out. A file that is recovered brings its
  lease counts with it and no leases, so neither holds after a recovery.
\<close>

section \<open>Runs below the last lease identity\<close>

definition lease_step :: "Impl \<times> Pending list \<Rightarrow> Impl \<times> Pending list \<Rightarrow> bool" where
  "lease_step s s' \<longleftrightarrow> sys_step s s' \<and> im_next_lease (fst s) \<noteq> - 1"

abbreviation lease_run :: "Impl \<times> Pending list \<Rightarrow> Impl \<times> Pending list \<Rightarrow> bool" where
  "lease_run \<equiv> lease_step\<^sup>*\<^sup>*"

lemma lease_run_sys: "lease_run s s' \<Longrightarrow> sys_run s s'"
  by (induction rule: rtranclp_induct) (auto simp: lease_step_def intro: rtranclp.rtrancl_into_rtrancl)

section \<open>The invariant\<close>

fun pending_record :: "Pending \<Rightarrow> RegistrationRecord list" where
  "pending_record (PendingRegister d bid r cx) = [r]"
| "pending_record (PendingCommit bid r bout) = [r]"
| "pending_record (PendingDeregister i h bid) = []"
| "pending_record (PendingFinish i) = []"

definition pending_unleased :: "Pending list \<Rightarrow> bool" where
  "pending_unleased ps \<longleftrightarrow> (\<forall>p \<in> set ps. \<forall>r \<in> set (pending_record p). r_lease_count r = 0)"

definition closing_unleased :: "Impl \<Rightarrow> bool" where
  "closing_unleased im \<longleftrightarrow>
     (\<forall>i r. reg_at im i = Some r \<longrightarrow> r_lifecycle r = RL_DEREGISTERING \<longrightarrow> r_lease_count r = 0)"

lemma pending_unleased_step:
  assumes "sys_step (im, ps) (im', ps')" and "pending_unleased ps"
  shows "pending_unleased ps'"
  using assms(1)
proof (cases rule: sys_step.cases)
  case (register_begin d bid pd env r cx)
  from register_begin(2) have "r_lease_count r = 0"
    by (cases rule: register_prepare_cases) auto
  with assms(2) show ?thesis by (simp add: register_begin(1) pending_unleased_def)
qed (use assms(2) in \<open>auto simp: pending_unleased_def\<close>)

lemma held_step_unleased:
  assumes "held_step r r'" and "r_lifecycle r' = RL_DEREGISTERING"
  shows "r_lifecycle r = RL_DEREGISTERING \<and> (r_lease_count r = 0 \<longrightarrow> r_lease_count r' = 0)"
  using assms
  by (induction rule: held_step.induct) (auto simp: reg_changes is_live_def split: if_splits)

lemma closing_unleased_step:
  assumes "sys_step (im, ps) (im', ps')" and "closing_unleased im"
  shows "closing_unleased im'"
proof -
  have kept: "closing_unleased im'" if "keeps im im'"
    unfolding closing_unleased_def
  proof (intro allI impI)
    fix i r' assume at: "reg_at im' i = Some r'" and l: "r_lifecycle r' = RL_DEREGISTERING"
    with keeps_None [OF that] obtain r where r: "reg_at im i = Some r" by (cases "reg_at im i") auto
    from keepsD [OF that r] at have "r' = r \<or> held_step r r'" by auto
    with assms(2) r l held_step_unleased [of r r'] show "r_lease_count r' = 0"
      by (auto simp: closing_unleased_def)
  qed
  from assms(1) show ?thesis
    by (cases rule: sys_step_shape)
      (use assms(2) kept in \<open>auto simp: closing_unleased_def split: option.splits if_splits\<close>)
qed

section \<open>Every step\<close>

text \<open>A registration that is committed has no lease, because its identity was held by no record.\<close>

lemma leases_ok_commit:
  assumes "leases_ok im" and "reg_at im (r_id r) = None" and "r_lease_count r = 0"
    and "register_commit r bid bout im = (rr, im')"
  shows "leases_ok im'"
proof -
  have at: "reg_at im' = (reg_at im)(r_id r \<mapsto> committed_record r bid bout (im_authority im))"
    and l: "im_leases im' = im_leases im" "im_next_lease im' = im_next_lease im"
    using assms(4) by (auto simp: register_commit_def Let_def reg_at_def um_simps)
  have "l_registration l \<noteq> r_id r" if "map_of (im_leases im) k = Some l" for k l
    using assms(1,2) that unfolding leases_ok_def leases_named_def by metis
  then have none: "outstanding im (r_id r) = {}" by (auto simp: outstanding_def)
  have out: "outstanding im' j = outstanding im j" for j by (simp add: outstanding_def l)
  show ?thesis
    using assms(1,3) none by (auto simp: leases_ok_def leases_named_def lease_counts_exact_def at l out)
qed

lemma leases_ok_finish:
  assumes "leases_ok im" and "um_wf (im_leases im)" and "deregister_finish i im = (x, im')"
  shows "leases_ok im'"
proof -
  obtain ok ex where x: "x = (ok, ex)" by (rule prod.exhaust)
  from assms(3) [unfolded x] show ?thesis
  proof (cases rule: deregister_finish_cases)
    case vanished
    with assms(1) show ?thesis by simp
  next
    case (erased r a)
    have at: "reg_at im' = (reg_at im)(i := None)" and n: "im_next_lease im' = im_next_lease im"
      by (simp_all add: erased(4) reg_at_def um_simps)
    have l: "map_of (im_leases im') k = (case map_of (im_leases im) k of None \<Rightarrow> None
        | Some l \<Rightarrow> if l_registration l = i then None else Some l)" for k
      using assms(2) by (simp add: erased(4) um_simps)
    have "outstanding im' j = outstanding im j" if "j \<noteq> i" for j
      using that by (auto simp: outstanding_def l split: option.splits)
    then show ?thesis
      using assms(1)
      by (auto simp: leases_ok_def leases_named_def lease_counts_exact_def at n l
          split: option.splits if_splits)
  qed
qed

text \<open>A step that changes the lifecycle of at most one record, and the backends.\<close>

lemma leases_ok_lifecycle:
  assumes "leases_ok im" and "im_leases im' = im_leases im" and "im_next_lease im' = im_next_lease im"
    and "reg_at im' = (case reg_at im i of None \<Rightarrow> reg_at im
      | Some r \<Rightarrow> (reg_at im)(i \<mapsto> r\<lparr>r_lifecycle := l\<rparr>))"
  shows "leases_ok im'"
  using assms(1-3) by (rule leases_ok_quiet) (auto simp: assms(4) split: option.splits)

lemma leases_ok_sys_step:
  assumes "sys_step (im, ps) (im', ps')" and "im_next_lease im \<noteq> - 1" and "leases_ok im"
    and "sys_inv (im, ps)" and "pending_unleased ps" and "um_wf (im_leases im)"
  shows "leases_ok im'"
  using assms(1)
proof (cases rule: sys_step.cases)
  case (atomic op)
  with leases_ok_exec [OF assms(3,2)] show ?thesis by simp
next
  case (register_refused d bid pd env rr)
  from register_refused(2) show ?thesis
    by (cases rule: register_prepare_cases) (use assms(3) in simp_all)
next
  case (register_begin d bid pd env r cx)
  from register_begin(2) show ?thesis
    by (cases rule: register_prepare_cases) (use assms(3) in \<open>auto intro: leases_ok_same\<close>)
next
  case (register_backend_ok d bid cx bout as r bs)
  from register_backend_frame [OF register_backend_ok(3)] show ?thesis
    using assms(3) by (auto intro: leases_ok_same)
next
  case (register_backend_failed d bid cx rr as r bs)
  from register_backend_frame [OF register_backend_failed(3)] show ?thesis
    using assms(3) by (auto intro: leases_ok_same)
next
  case (register_end r bid bout rr as bs)
  have "reg_at im (r_id r) = None" using assms(4) by (simp add: sys_inv_def register_end(1))
  moreover have "r_lease_count r = 0" using assms(5) by (simp add: pending_unleased_def register_end(1))
  ultimately show ?thesis by (rule leases_ok_commit [OF assms(3) _ _ register_end(3)])
next
  case (deregister_refused i ex)
  from deregister_refused(2) show ?thesis
    by (cases rule: deregister_prepare_cases) (use assms(3) in simp_all)
next
  case (deregister_begin i h bid)
  from deregister_begin(2) show ?thesis
    by (cases rule: deregister_prepare_cases)
      (auto intro!: leases_ok_lifecycle [OF assms(3), of _ i RL_DEREGISTERING]
        simp: put_reg_def reg_at_def um_simps)
next
  case (deregister_backend_ok i h bid as bs)
  from deregister_backend_ok(3) show ?thesis
    by (cases rule: deregister_backend_cases) (use assms(3) in \<open>auto intro: leases_ok_same\<close>)
next
  case (deregister_backend_failed i h bid ex as bs)
  from deregister_backend_failed(3) show ?thesis
    by (cases rule: deregister_backend_cases)
      (auto intro!: leases_ok_lifecycle [OF assms(3), of _ i RL_FAILED]
        simp: put_reg_def reg_at_def um_simps split: option.splits)
next
  case (deregister_end i x as bs)
  show ?thesis by (rule leases_ok_finish [OF assms(3,6) deregister_end(3)])
qed

definition leases_inv :: "Impl \<times> Pending list \<Rightarrow> bool" where
  "leases_inv s \<longleftrightarrow>
     leases_ok (fst s) \<and> pending_unleased (snd s) \<and> closing_unleased (fst s) \<and>
     sys_inv s \<and> lifecycles_ok s \<and> well_filed (fst s)"

lemma leases_inv_step:
  assumes "lease_step s s'" and "leases_inv s"
  shows "leases_inv s'"
proof -
  obtain im ps im' ps' where s: "s = (im, ps)" "s' = (im', ps')" by (metis surj_pair)
  from assms(1) have step: "sys_step (im, ps) (im', ps')" and n: "im_next_lease im \<noteq> - 1"
    by (simp_all add: lease_step_def s)
  from assms(2) have inv: "leases_ok im" "pending_unleased ps" "closing_unleased im" "sys_inv (im, ps)"
    "lifecycles_ok (im, ps)" "well_filed im" by (simp_all add: leases_inv_def s)
  moreover from inv(6) have "um_wf (im_leases im)" by (simp add: well_filed_def tables_wf_def)
  ultimately show ?thesis
    unfolding leases_inv_def s fst_conv snd_conv
    using leases_ok_sys_step [OF step n] pending_unleased_step [OF step] closing_unleased_step [OF step]
      sys_inv_step [OF step] lifecycles_ok_step [OF step] well_filed_sys_step [OF step] by simp
qed

lemma leases_inv_run: "lease_run (new_impl, []) s \<Longrightarrow> leases_inv s"
proof (induction rule: rtranclp_induct)
  case base
  have "leases_ok new_impl" "closing_unleased new_impl" "lifecycles_ok (new_impl, [])"
    by (simp_all add: new_impl_def leases_ok_def leases_named_def lease_counts_exact_def reg_at_def
        closing_unleased_def lifecycles_ok_def)
  then show ?case by (simp add: leases_inv_def pending_unleased_def sys_inv_init well_filed_new)
qed (rule leases_inv_step)

section \<open>Properties\<close>

text \<open>C9. Lease counts are exact when calls overlap: after any interleaving of the operations other than
  \<open>recover\<close>, started on a new registry and below the last 64-bit lease identity, the lease count of
  a registration is the number of leases on it that were acquired and not released, those that a
  hard revocation marked revoked included. (A registration that was recovered keeps the count of
  its file, and the file has no leases.)\<close>

theorem lease_count_is_exact:
  assumes "lease_run (new_impl, []) (im, ps)" and "get_registration i im = Some r"
  shows "unat (r_lease_count r) = card {k. \<exists>l. map_of (im_leases im) k = Some l \<and>
    l_registration l = i \<and> l_state l \<noteq> LS_RELEASED}"
  using leases_inv_run [OF assms(1)] assms(2)
  by (simp add: leases_inv_def leases_ok_def lease_counts_exact_def outstanding_def reg_at_def get_registration_def)

text \<open>C6. Deregistration never pulls a registration from under a lease, in any interleaving of the
  operations other than \<open>recover\<close> on a new registry, below the last 64-bit lease identity. When
  \<open>deregister\<close> succeeds, whether nothing runs in between or it is the last section of a call that
  was interleaved with others, no lease on the registration was out, and afterwards the
  registration, every lease that named it and every slot that held it are gone. (A file can
  overwrite a leased registration with a record without leases, so this does not hold after a
  recovery.)\<close>

theorem deregister_leaves_nothing:
  assumes "lease_run (new_impl, []) (im, ps)"
    and "deregister i im = ((True, ex), im') \<or>
      PendingFinish i \<in> set ps \<and> deregister_finish i im = ((True, ex), im')"
  shows "(\<forall>k l. map_of (im_leases im) k = Some l \<longrightarrow> l_registration l = i \<longrightarrow> l_state l = LS_RELEASED) \<and>
    get_registration i im' = None \<and>
    (\<forall>k l. map_of (im_leases im') k = Some l \<longrightarrow> l_registration l \<noteq> i) \<and>
    (\<forall>b. map_of (im_active_reg im') b \<noteq> Some i)"
proof -
  from leases_inv_run [OF assms(1)] have wf: "tables_wf im" and leases: "lease_counts_exact im"
    and closing: "closing_unleased im" and life: "lifecycles_ok (im, ps)"
    by (simp_all add: leases_inv_def leases_ok_def well_filed_def)
  have erasing: ?thesis if "reg_at im i = Some r" "r_lease_count r = 0"
    "im_registrations im' = AList.delete i (im_registrations im)"
    "im_active_reg im' = um_erase_if (\<lambda>v. v = i) (im_active_reg im)"
    "im_leases im' = um_erase_if (\<lambda>l. l_registration l = i) (im_leases im)" for r
  proof -
    from leases that(1,2) have "outstanding im i = {}" by (fastforce simp: lease_counts_exact_def)
    with wf show ?thesis
      by (auto simp: outstanding_def that(3-5) get_registration_def um_simps tables_wf_def
          split: option.splits if_splits)
  qed
  from assms(2) show ?thesis
  proof
    assume "deregister i im = ((True, ex), im')"
    then show ?thesis
    proof (cases rule: deregister_cases)
      case (erased r bs a)
      show ?thesis by (rule erasing [OF erased(2,3)]) (simp_all add: erased(6))
    qed simp_all
  next
    assume finish: "PendingFinish i \<in> set ps \<and> deregister_finish i im = ((True, ex), im')"
    then have "i \<in> set (dereg_ids ps)" by (force simp: dereg_ids_def)
    from lifecycles_ok_present [OF life this] obtain r where
      r: "reg_at im i = Some r" "r_lifecycle r = RL_DEREGISTERING" by blast
    with closing have "r_lease_count r = 0" by (auto simp: closing_unleased_def)
    from finish have "deregister_finish i im = ((True, ex), im')" ..
    then show ?thesis
    proof (cases rule: deregister_finish_cases)
      case (erased r' a)
      show ?thesis by (rule erasing [OF r(1) \<open>r_lease_count r = 0\<close>]) (simp_all add: erased(4))
    qed simp_all
  qed
qed

section \<open>Witnesses\<close>

lemma lease_run_exec:
  "lease_run s (im, ps) \<Longrightarrow> im_next_lease im \<noteq> - 1 \<Longrightarrow> lease_run s (exec op im, ps)"
  by (erule rtranclp.rtrancl_into_rtrancl) (simp add: lease_step_def sys_step.atomic)

lemma lease_run_register:
  assumes "lease_run s (im, ps)" and "im_next_lease im \<noteq> - 1" and "im_next_registration im \<noteq> - 1"
  shows "lease_run s (snd (register_buffer d bid pd env im), ps)"
proof -
  have "lease_run (im, ps) (snd (register_buffer d bid pd env im), ps)"
    by (rule rtranclp_mono [THEN predicate2D, OF _ register_buffer_quiet_runs [OF assms(3)]])
      (use assms(2) in \<open>auto simp: lease_step_def\<close>)
  with assms(1) show ?thesis by (rule rtranclp_trans)
qed

lemma demo1_leased: "lease_run (new_impl, []) (demo1, [])"
proof -
  have "lease_run (new_impl, []) (exec (OpCreateBuffer page_buffer) (exec (OpCreateDomain (StrongId 1) (StrongId 1))
      (exec (OpAddBackend (Some demo_backend)) (exec (OpSetAuthority demo_authority) new_impl))), [])"
    by (intro lease_run_exec rtranclp.rtrancl_refl)
      (simp_all add: new_impl_def set_authority_def add_backend_def create_protection_domain_def Let_def)
  then have "lease_run (new_impl, []) (demo0, [])" by (simp add: demo0_def)
  then show ?thesis unfolding demo1_def by (rule lease_run_register) simp_all
qed

lemma demo_leased_run: "lease_run (new_impl, []) (demo_leased, [])"
  using lease_run_exec [OF demo1_leased, of "OpAcquireLease demo_reg demo_env 4"]
  by (simp add: demo_leased_def demo1_eq)

theorem lease_count_is_exact_witness:
  "card {k. \<exists>l. map_of (im_leases demo_leased) k = Some l \<and> l_registration l = demo_reg \<and>
     l_state l \<noteq> LS_RELEASED} = 1"
  using lease_count_is_exact [OF demo_leased_run, of demo_reg "demo_record\<lparr>r_lease_count := 1\<rparr>"]
  by (simp add: demo_leased_eq get_registration_def)

theorem deregister_leaves_nothing_witness:
  "fst (fst (deregister demo_reg demo1)) \<and>
   get_registration demo_reg (snd (deregister demo_reg demo1)) = None"
proof -
  from demo1_deregisters obtain ex im' where d: "deregister demo_reg demo1 = ((True, ex), im')" by blast
  from deregister_leaves_nothing [OF demo1_leased, of demo_reg ex im'] d show ?thesis by simp
qed

end
