(* ===== verification/System.thy ===== *)
theory System
  imports Coordinator
begin

text \<open>
  The whole scenario: the coordinator's command line, the command lines it starts workers with, and
  the frames that its three sessions exchange over sockets (\<open>tools/coordinator.cpp\<close>,
  \<open>tools/worker.cpp\<close>). A carrier is what one end receives for a frame the other end sends; the
  carrier of a pair of sockets is the \<open>send_frame\<close> of one process followed by the \<open>recv_frame\<close> of the
  other. The splitting of a command line into arguments, which the C runtime of the worker does, is
  an argument.
\<close>

section \<open>Command lines\<close>

text \<open>\<open>std::atoi\<close>; \<open>None\<close> where the value is outside \<open>int\<close>, which leaves the behaviour undefined.\<close>

definition atoi :: "string \<Rightarrow> int option" where
  "atoi s =
     (let s1 = dropWhile is_space s;
          negative = (s1 \<noteq> [] \<and> hd s1 = CHR ''-'');
          s2 = (if s1 \<noteq> [] \<and> (hd s1 = CHR ''-'' \<or> hd s1 = CHR ''+'') then tl s1 else s1);
          n = foldl (\<lambda>n c. 10 * n + (of_char c - 48)) (0 :: nat) (takeWhile is_digit s2);
          v = (if negative then - int n else int n)
      in if - (2 ^ 31) \<le> v \<and> v < 2 ^ 31 then Some v else None)"

record CoordOptions =
  op_port :: int
  op_worker :: string
  op_scenario :: bool
  op_proof :: string

text \<open>The loop over the arguments: an option with a value takes the next argument, and counts only
  if there is one.\<close>

fun parse_options :: "string list \<Rightarrow> CoordOptions \<Rightarrow> CoordOptions option" where
  "parse_options [] o' = Some o'"
| "parse_options [a] o' = Some (if a = ''--scenario'' then o'\<lparr>op_scenario := True\<rparr> else o')"
| "parse_options (a # b # args) o' =
     (if a = ''--port'' then
        (case atoi b of None \<Rightarrow> None | Some p \<Rightarrow> parse_options args (o'\<lparr>op_port := p\<rparr>))
      else if a = ''--worker'' then parse_options args (o'\<lparr>op_worker := b\<rparr>)
      else if a = ''--proof'' then parse_options args (o'\<lparr>op_proof := b\<rparr>)
      else parse_options (b # args) (if a = ''--scenario'' then o'\<lparr>op_scenario := True\<rparr> else o'))"

definition coordinator_options :: "string list \<Rightarrow> CoordOptions option" where
  "coordinator_options argv =
     map_option (\<lambda>o'. o'\<lparr>op_port := (if op_port o' = 0 then 39121 else op_port o'),
         op_worker := (if op_worker o' = '''' then ''rdma-buffer-worker'' else op_worker o')\<rparr>)
       (parse_options (tl argv) \<lparr>op_port = 0, op_worker = '''', op_scenario = False, op_proof = ''''\<rparr>)"

text \<open>\<open>std::to_string\<close> of an \<open>int\<close>, and the command line that \<open>spawn_worker\<close> builds.\<close>

definition int_text :: "int \<Rightarrow> string" where
  "int_text i = (if i < 0 then ''-'' @ digits 10 (nat (- i)) else digits 10 (nat i))"

definition spawn_command :: "string \<Rightarrow> string \<Rightarrow> string \<Rightarrow> string \<Rightarrow> string \<Rightarrow> string" where
  "spawn_command exe host port role extra =
     [CHR 0x22] @ exe @ [CHR 0x22] @ '' '' @ host @ '' '' @ port @ '' '' @ role @
     (if extra \<noteq> '''' then '' '' @ extra else '''')"

definition access_extra :: "Coord \<Rightarrow> string" where
  "access_extra c =
     int_to_str (id_value (co_reg_a c)) @ '' '' @ int_to_str 1 @ '' '' @
     int_to_str (gen_value (co_keygen_a c)) @ '' 1''"

section \<open>Sessions\<close>

type_synonym carrier = "Frame \<Rightarrow> string + Frame"

definition worker_io :: "string + Frame \<Rightarrow> string + Frame \<Rightarrow> WorkerIo" where
  "worker_io hello ack =
     \<lparr>wi_socket = True, wi_connects = True, wi_hello_sent = True, wi_hello = hello,
      wi_request_sent = True, wi_ack = ack\<rparr>"

text \<open>A worker with the arguments \<open>argv\<close> and the coordinator's block for one connection: the hello
  goes up, its acknowledgement down, the request up and the answer down. Who is cut off reads the
  end of the stream.\<close>

definition session ::
    "carrier \<Rightarrow> carrier \<Rightarrow> string list \<Rightarrow> (Coord \<Rightarrow> Coord) \<Rightarrow> MessageKind \<Rightarrow>
     (u8 list \<Rightarrow> Coord \<Rightarrow> Coord) \<Rightarrow> Coord \<Rightarrow> (int + Coord) \<times> WorkerRun" where
  "session up down argv greet wanted handle c =
     (let eof = Inl ''eof'';
          run = (\<lambda>hello_ack ack. worker argv (worker_io hello_ack ack));
          hello = (case wr_frames (run eof eof) of [] \<Rightarrow> eof | h # _ \<Rightarrow> up h);
          hello_ack = (case hello of Inl _ \<Rightarrow> eof | Inr _ \<Rightarrow> down (last (co_sent (greet c))));
          request = (case wr_frames (run hello_ack eof) of [_, f] \<Rightarrow> up f | _ \<Rightarrow> eof);
          out = serve (Some (hello, request)) greet wanted handle c;
          ack = (case out of Inl _ \<Rightarrow> eof | Inr c' \<Rightarrow> down (last (co_sent c')))
      in (out, run hello_ack ack))"

text \<open>The coordinator with \<open>--scenario\<close>: its exit code, its checks, and how its workers ended.\<close>

definition run_scenario ::
    "carrier \<Rightarrow> carrier \<Rightarrow> (string \<Rightarrow> string list) \<Rightarrow> CoordOptions \<Rightarrow> int \<times> bool list \<times> int option list" where
  "run_scenario up down split opts =
     (let spawn = (\<lambda>role extra.
            split (spawn_command (op_worker opts) ''127.0.0.1'' (int_text (op_port opts)) role extra))
      in case session up down (spawn ''register-hold'' '''') greet_a MK_REGISTER_BUFFER
                handle_register_a coordinator_start of
           (Inl code, wa) \<Rightarrow> (code, [], [wr_exit wa])
         | (Inr c1, wa) \<Rightarrow>
             (case session up down (spawn ''access'' (access_extra c1)) greet_b MK_REQUEST_ACCESS
                     handle_access_b c1 of
                (Inl code, wb) \<Rightarrow> (code, map fst (co_proofs c1), [wr_exit wa, wr_exit wb])
              | (Inr c2, wb) \<Rightarrow>
                  (let c3 = after_loss c2
                   in case session up down (spawn ''register-fresh'' '''') greet_fresh MK_REGISTER_BUFFER
                             (handle_register_fresh (fresh_snapshot c3)) c3 of
                        (Inl code, wc) \<Rightarrow>
                          (code, map fst (co_proofs c3), [wr_exit wa, wr_exit wb, wr_exit wc])
                      | (Inr c, wc) \<Rightarrow>
                          (exit_code (Inr c), map fst (co_proofs c),
                           [wr_exit wa, wr_exit wb, wr_exit wc]))))"

section \<open>Sockets as carriers\<close>

text \<open>One end sends with \<open>snd_frame\<close> and the other receives with \<open>rcv_frame\<close>: worker and coordinator
  have their own copies of the two functions.\<close>

definition socket_carrier ::
    "(MessageKind \<Rightarrow> u64 \<Rightarrow> u8 list \<Rightarrow> 's \<Rightarrow> bool \<times> 's) \<Rightarrow> ('s \<Rightarrow> u8 list) \<Rightarrow> 's \<Rightarrow>
     ('t \<Rightarrow> (string + Frame) \<times> 't) \<Rightarrow> (u8 list \<Rightarrow> 't) \<Rightarrow> carrier" where
  "socket_carrier snd_frame wire s rcv_frame arrive f =
     (case snd_frame (f_kind f) (f_seq f) (f_payload f) s of (ok, s') \<Rightarrow>
        if ok then fst (rcv_frame (arrive (wire s'))) else Inl ''eof'')"

definition up_carrier ::
    "'s send_call \<Rightarrow> ('s \<Rightarrow> u8 list) \<Rightarrow> 's \<Rightarrow> 't recv_call \<Rightarrow> (u8 list \<Rightarrow> 't) \<Rightarrow> carrier" where
  "up_carrier send wire s recv arrive = socket_carrier (send_frame send) wire s (coord_recv_frame recv) arrive"

definition down_carrier ::
    "'s send_call \<Rightarrow> ('s \<Rightarrow> u8 list) \<Rightarrow> 's \<Rightarrow> 't recv_call \<Rightarrow> (u8 list \<Rightarrow> 't) \<Rightarrow> carrier" where
  "down_carrier send wire s recv arrive = socket_carrier (coord_send_frame send) wire s (recv_frame recv) arrive"

text \<open>What a connected pair of stream sockets promises: every byte handed over arrives, in order.\<close>

definition connected_sockets ::
    "'s send_call \<Rightarrow> ('s \<Rightarrow> u8 list) \<Rightarrow> 's \<Rightarrow> 't recv_call \<Rightarrow> ('t \<Rightarrow> u8 list) \<Rightarrow> (u8 list \<Rightarrow> 't) \<Rightarrow> bool" where
  "connected_sockets send wire s recv pending arrive \<longleftrightarrow>
     emits send wire \<and> delivers recv pending \<and> wire s = [] \<and>
     (\<forall>w. pending (arrive w) = w) \<and> (\<forall>p. fst (send_all send p s))"

lemma sockets_carry:
  assumes "connected_sockets send wire s recv pending arrive" and "sendable f"
  shows "socket_carrier (send_frame send) wire s (recv_frame recv) arrive f = Inr f"
proof -
  let ?e = "frame_bytes f"
  have ne: "?e \<noteq> []" using frame_bytes_length [OF assms(2)] by (auto simp: header_size_def)
  obtain s' where all: "send_all send ?e s = (True, s')"
    using assms(1) unfolding connected_sockets_def by (metis prod.collapse)
  have wire: "wire s' = ?e"
    using send_all_block [of send wire s ?e] assms(1) all by (simp add: connected_sockets_def)
  have sent: "send_frame send (f_kind f) (f_seq f) (f_payload f) s = (True, s')"
    using ne all by (simp add: send_frame_def frame_bytes_def Let_def)
  have "decode_frame ?e = Inr (f, length ?e)"
    using frame_bytes_length [OF assms(2)] assms(2) unfolding decode_frame_iff by simp
  then have "stream_frame (pending (arrive ?e)) = Inr (f, length ?e)"
    using assms(1) by (simp add: stream_frame_iff connected_sockets_def)
  then have "fst (recv_frame recv (arrive ?e)) = Inr f"
    using recv_frame_stream [of recv pending "arrive ?e"] assms(1)
    by (auto simp: connected_sockets_def split_def)
  then show ?thesis by (simp add: socket_carrier_def sent wire)
qed


section \<open>The texts in the replies are short\<close>

lemma length_digits: "n < b ^ k \<Longrightarrow> 0 < k \<Longrightarrow> 2 \<le> b \<Longrightarrow> length (digits b n) \<le> k"
proof (induction k arbitrary: n)
  case (Suc k)
  show ?case
  proof (cases "n < b")
    case True
    then show ?thesis by (simp add: digits.simps [of b n])
  next
    case False
    then have "0 < k" using Suc.prems by (cases k) simp_all
    moreover have "n div b < b ^ k" using Suc.prems by (simp add: less_mult_imp_div_less mult.commute)
    ultimately have "length (digits b (n div b)) \<le> k" using Suc.IH Suc.prems(3) by blast
    with False Suc.prems(3) show ?thesis by (simp add: digits.simps [of b n])
  qed
qed simp

lemma length_int_to_str: "length (int_to_str v) \<le> 20"
proof -
  have "unat v < 18446744073709551616" using unsigned_less [of v] by simp
  then show ?thesis unfolding int_to_str_def by (intro length_digits) simp_all
qed

lemma length_mask_hex: "length (mask_hex m) \<le> 16"
proof -
  have "unat (ucast m :: u64) < 18446744073709551616" using unsigned_less [of "ucast m :: u64"] by simp
  then show ?thesis unfolding mask_hex_def to_hex_def by (intro length_digits) simp_all
qed

lemma length_names:
  "length (memory_domain_name d) \<le> 40" "length (lifecycle_name l) \<le> 40" "length (freshness_name f) \<le> 40"
  "length (provenance_name p) \<le> 40" "length (operation_kind_name k) \<le> 40"
  by (cases d, simp_all) (cases l, simp_all, cases f, simp_all, cases p, simp_all, cases k, simp_all)

lemma length_msg [simp]: "length (msg t) = length t"
  by (simp add: msg_def)

lemma explain_registration_short: "length (explain_registration r) \<le> 4096"
proof -
  have literals: "length (msg ''registration id='') \<le> 40" "length (msg '' buffer='') \<le> 40"
    "length (msg '' buffer_generation='') \<le> 40" "length (msg '' registration_generation='') \<le> 40"
    "length (msg '' backend='') \<le> 40" "length (msg '' domain='') \<le> 40" "length (msg '' lifecycle='') \<le> 40"
    "length (msg '' freshness='') \<le> 40" "length (msg '' provenance='') \<le> 40"
    "length (msg '' rights=0x'') \<le> 40" "length (msg '' remote_key_gen='') \<le> 40"
    unfolding length_msg by simp_all
  have short: "length (explain_registration r) \<le> 11 * 40 + 6 * 20 + 16 + 4 * 40"
    unfolding explain_registration_def length_append
    using literals length_int_to_str [of "id_value (r_id r)"] length_int_to_str [of "id_value (r_buffer_id r)"]
      length_int_to_str [of "gen_value (r_buffer_generation r)"]
      length_int_to_str [of "gen_value (r_registration_generation r)"]
      length_int_to_str [of "id_value (r_backend r)"]
      length_int_to_str [of "gen_value (rk_key_generation (r_remote_key r))"]
      length_mask_hex [of "r_granted_access r"] length_names(1) [of "r_domain r"]
      length_names(2) [of "r_lifecycle r"] length_names(3) [of "r_freshness r"]
      length_names(4) [of "r_provenance r"]
    by linarith
  then show ?thesis by simp
qed

lemma register_backend_refused_not_ok: "register_backend d bid cx im = (Inl rr, im') \<Longrightarrow> \<not> rr_ok rr"
  by (auto simp: register_backend_def Let_def split: option.splits prod.splits bool.splits)

lemma registered_explanation_short:
  assumes "rr_ok (fst (register_buffer d bid pd env im))"
  shows "length (rr_explanation (fst (register_buffer d bid pd env im))) \<le> 4096"
proof -
  obtain x im1 where p: "register_prepare d bid pd env im = (x, im1)" by (rule prod.exhaust)
  then show ?thesis
  proof (cases rule: register_prepare_cases)
    case (refused rr)
    with p assms show ?thesis by (simp add: register_buffer_def)
  next
    case (ready b)
    obtain y im2 where y: "register_backend d bid (ready_context d pd env im b) im1 = (y, im2)"
      by (rule prod.exhaust)
    show ?thesis
    proof (cases y)
      case (Inl rr)
      with p y ready assms register_backend_refused_not_ok show ?thesis by (simp add: register_buffer_def)
    next
      case (Inr bout)
      with p y ready explain_registration_short show ?thesis
        by (simp add: register_buffer_def register_commit_def Let_def)
    qed
  qed
qed

lemma allowed_explanation_short:
  assumes "ad_outcome (fst (validate_remote_access q im)) = AO_ALLOW"
  shows "length (ad_explanation (fst (validate_remote_access q im))) \<le> 4096"
proof -
  have "length (msg ''remote '') \<le> 40" "length (msg '' allowed'') \<le> 40" unfolding length_msg by simp_all
  with assms allowed_explanation [of q im] length_names(5) [of "q_kind q"] show ?thesis
    by (simp add: says_def make_decision_def)
qed


section \<open>What the workers and the coordinator send\<close>

definition faithful_carrier :: "carrier \<Rightarrow> bool" where
  "faithful_carrier carry \<longleftrightarrow> (\<forall>f. sendable f \<longrightarrow> carry f = Inr f)"

lemma faithfulD: "faithful_carrier carry \<Longrightarrow> sendable f \<Longrightarrow> carry f = Inr f"
  by (simp add: faithful_carrier_def)

lemma sockets_faithful:
  assumes "connected_sockets send wire s recv pending arrive"
  shows "faithful_carrier (up_carrier send wire s recv arrive)"
    and "faithful_carrier (down_carrier send wire s recv arrive)"
  using sockets_carry [OF assms]
  by (simp_all add: faithful_carrier_def up_carrier_def down_carrier_def coord_send_frame_eq coord_recv_frame_eq)

definition hello_of :: "string \<Rightarrow> Frame" where
  "hello_of role = \<lparr>f_kind = MK_HELLO, f_seq = 1, f_payload = encode_hello role\<rparr>"

definition register_request :: Frame where
  "register_request =
     \<lparr>f_kind = MK_REGISTER_BUFFER, f_seq = 2, f_payload = encode_register worker_descriptor 1 0\<rparr>"

definition access_request :: "string list \<Rightarrow> u64 \<Rightarrow> Frame" where
  "access_request argv boot =
     \<lparr>f_kind = MK_REQUEST_ACCESS, f_seq = 3, f_payload = encode_access (worker_access argv boot)\<rparr>"

lemma requests_sendable:
  "length role \<le> 64 \<Longrightarrow> sendable (hello_of role)" "sendable register_request"
  "sendable (access_request argv boot)"
  by (simp_all add: sendable_def hello_of_def register_request_def access_request_def max_payload_def
      encode_hello_def encode_register_def write_descriptor_def encode_access_def)

lemma reply_last: "last (co_sent (reply k q p c)) = \<lparr>f_kind = k, f_seq = q, f_payload = p\<rparr>"
  by (simp add: reply_def)

lemma proof_line_sent [simp]: "co_sent (proof_line ok l c) = co_sent c"
  by (simp add: proof_line_def)

definition acknowledges :: "Frame \<Rightarrow> bool" where
  "acknowledges g \<longleftrightarrow> sendable g \<and> f_kind g = MK_HELLO_ACK"

lemma greetings:
  "acknowledges (last (co_sent (greet_a c)))" "acknowledges (last (co_sent (greet_b c)))"
  "acknowledges (last (co_sent (greet_fresh c)))"
  by (simp_all add: acknowledges_def greet_a_def greet_b_def greet_fresh_def reply_last sendable_def
      max_payload_def encode_hello_ack_def)

lemma answer_a:
  obtains ok where "verdicts (handle_register_a p c) = verdicts c @ [ok]"
    "ok \<Longrightarrow> sendable (last (co_sent (handle_register_a p c))) \<and>
       f_kind (last (co_sent (handle_register_a p c))) = MK_REGISTER_BUFFER_ACK"
proof -
  obtain x d y z where d: "decode_register_into p = (x, d, y, z)" by (metis prod_cases4)
  let ?rr = "fst (register_buffer d syn_id (co_dom c) (coord_envelope coord_snap) (snd (create_buffer d (co_rt c))))"
  have "verdicts (handle_register_a p c) = verdicts c @ [rr_ok ?rr]"
    by (simp add: handle_register_a_def create_and_register_eq Let_def d)
  moreover have "rr_ok ?rr \<Longrightarrow> sendable (last (co_sent (handle_register_a p c))) \<and>
      f_kind (last (co_sent (handle_register_a p c))) = MK_REGISTER_BUFFER_ACK"
    using registered_explanation_short [of d syn_id "co_dom c" "coord_envelope coord_snap" "snd (create_buffer d (co_rt c))"]
    by (simp add: handle_register_a_def create_and_register_eq Let_def d reply_last sendable_def
        max_payload_def encode_register_ack_def)
  ultimately show thesis by (rule that)
qed

lemma answer_b:
  assumes "verdicts (handle_access_b p c) = verdicts c @ [True, x]"
  shows "sendable (last (co_sent (handle_access_b p c))) \<and>
    f_kind (last (co_sent (handle_access_b p c))) = MK_REQUEST_ACCESS_ACK"
proof -
  obtain y a where a: "decode_access_into p = (y, a)" by (rule prod.exhaust)
  let ?q = "coord_request (StrongId (ap_reg a)) (StrongGeneration (ap_expkeygen a))
      (envelope_epoch_boot coord_snap (ap_boot a)) c"
  have "ad_outcome (fst (validate_remote_access ?q (co_rt c))) = AO_ALLOW"
    using assms by (simp add: handle_access_b_def check_access_eq Let_def a)
  from allowed_explanation_short [OF this] show ?thesis
    by (simp add: handle_access_b_def check_access_eq Let_def a reply_last sendable_def
        max_payload_def encode_access_ack_def)
qed

lemma answer_fresh:
  assumes "verdicts (handle_register_fresh s p c) = verdicts c @ [True]"
  shows "sendable (last (co_sent (handle_register_fresh s p c))) \<and>
    f_kind (last (co_sent (handle_register_fresh s p c))) = MK_REGISTER_BUFFER_ACK \<and>
    register_acknowledged (f_payload (last (co_sent (handle_register_fresh s p c))))"
proof -
  obtain x d y z where d: "decode_register_into p = (x, d, y, z)" by (metis prod_cases4)
  let ?rr = "fst (register_buffer d syn_id (co_dom c) (coord_envelope s) (snd (create_buffer d (co_rt c))))"
  have ok: "rr_ok ?rr"
    using assms by (simp add: handle_register_fresh_def create_and_register_eq Let_def d)
  note short = registered_explanation_short [OF ok]
  have "decode_register_ack (encode_register_ack True (id_value (rr_registration ?rr)) 0 (rr_explanation ?rr)) =
      Some (True, id_value (rr_registration ?rr), 0, rr_explanation ?rr)"
    using register_ack_roundtrip [OF short, of True _ _ "[]"] by simp
  with short ok show ?thesis
    by (simp add: handle_register_fresh_def create_and_register_eq Let_def d reply_last sendable_def
        max_payload_def encode_register_ack_def register_acknowledged_def)
qed

section \<open>A session over a faithful carrier\<close>

text \<open>\<open>asks argv f\<close>: acknowledged, a worker with these arguments sends its hello and then the frame
  \<open>f ack\<close>; cut off before, it sends its hello only.\<close>

definition asks :: "string list \<Rightarrow> Frame \<Rightarrow> (Frame \<Rightarrow> Frame) \<Rightarrow> bool" where
  "asks argv h f \<longleftrightarrow> sendable h \<and>
     (\<forall>a. wr_frames (worker argv (worker_io (Inl ''eof'') a)) = [h]) \<and>
     (\<forall>g a. acknowledges g \<longrightarrow> sendable (f g) \<and> wr_frames (worker argv (worker_io (Inr g) a)) = [h, f g])"

lemma asksD: "asks argv h f \<Longrightarrow> acknowledges g \<Longrightarrow> wr_frames (worker argv (worker_io (Inr g) a)) = [h, f g]"
  by (simp add: asks_def)

lemma register_asks:
  assumes "role = ''register-hold'' \<or> role = ''register-fresh''"
  shows "asks [exe, host, port, role] (hello_of role) (\<lambda>g. register_request)"
  using assms requests_sendable
  by (auto simp: asks_def acknowledges_def worker_def worker_io_def worker_register_def Let_def
      hello_of_def register_request_def split: prod.split sum.split)

lemma access_asks:
  "asks (exe # host # port # ''access'' # args) (hello_of ''access'')
     (\<lambda>g. access_request (exe # host # port # ''access'' # args) (fst (snd (decode_hello_ack_into (f_payload g)))))"
  using requests_sendable
  by (auto simp: asks_def acknowledges_def worker_def worker_io_def worker_request_def Let_def
      hello_of_def access_request_def split: prod.split sum.split)

lemma session_served:
  assumes "faithful_carrier up" and "faithful_carrier down" and "asks argv h f"
    and "acknowledges (last (co_sent (greet c)))" and "f_kind (f (last (co_sent (greet c)))) = wanted"
    and "c' = handle (f_payload (f (last (co_sent (greet c))))) (greet c)" and "sendable (last (co_sent c'))"
  shows "session up down argv greet wanted handle c =
    (Inr c', worker argv (worker_io (Inr (last (co_sent (greet c)))) (Inr (last (co_sent c')))))"
proof -
  let ?g = "last (co_sent (greet c))"
  have h: "up h = Inr h" and f: "up (f ?g) = Inr (f ?g)" and g: "down ?g = Inr ?g"
    and c': "down (last (co_sent c')) = Inr (last (co_sent c'))"
    using assms by (auto simp: asks_def acknowledges_def intro: faithfulD)
  have first: "wr_frames (worker argv (worker_io (Inl ''eof'') (Inl ''eof''))) = [h]"
    and second: "wr_frames (worker argv (worker_io (Inr ?g) (Inl ''eof''))) = [h, f ?g]"
    using assms(3,4) by (simp_all add: asks_def)
  have "serve (Some (Inr h, Inr (f ?g))) greet wanted handle c = Inr c'"
    using assms(5,6) by (simp add: serve_def)
  with c' show ?thesis by (simp add: session_def Let_def first second h f g)
qed


section \<open>The scenario\<close>

text \<open>How the C runtime splits the three command lines of the scenario.\<close>

definition splits_commands :: "(string \<Rightarrow> string list) \<Rightarrow> string \<Rightarrow> string \<Rightarrow> bool" where
  "splits_commands split exe port \<longleftrightarrow>
     (\<forall>role \<in> {''register-hold'', ''register-fresh''}.
        split (spawn_command exe ''127.0.0.1'' port role '''') = [exe, ''127.0.0.1'', port, role]) \<and>
     (\<forall>r k. split (spawn_command exe ''127.0.0.1'' port ''access''
          (int_to_str r @ '' '' @ int_to_str 1 @ '' '' @ int_to_str k @ '' 1'')) =
        [exe, ''127.0.0.1'', port, ''access'', int_to_str r, int_to_str 1, int_to_str k, ''1''])"

text \<open>What the operating system answers while the coordinator opens its listener.\<close>

record ListenIo =
  li_socket :: bool
  li_bind :: bool
  li_listen :: bool

text \<open>The process: \<open>None\<close> where the options are undefined, or no worker is started and the coordinator
  waits for workers from outside.\<close>

definition coordinator_process ::
    "ListenIo \<Rightarrow> carrier \<Rightarrow> carrier \<Rightarrow> (string \<Rightarrow> string list) \<Rightarrow> string list \<Rightarrow>
     (int \<times> bool list \<times> int option list) option" where
  "coordinator_process io up down split argv =
     (case coordinator_options argv of
        None \<Rightarrow> None
      | Some opts \<Rightarrow>
          if \<not> li_socket io then Some (1, [], [])
          else if \<not> li_bind io \<or> \<not> li_listen io then Some (1, [], [])
          else if op_scenario opts then Some (run_scenario up down split opts) else None)"

lemma holding_worker:
  assumes "acknowledges g" and "f_kind ack = MK_REGISTER_BUFFER_ACK"
  shows "wr_exit (worker [exe, host, port, ''register-hold''] (worker_io (Inr g) (Inr ack))) = None"
  using assms by (simp add: acknowledges_def worker_def worker_io_def worker_register_def Let_def split: prod.split)

lemma accessing_worker:
  assumes "acknowledges g" and "f_kind ack = MK_REQUEST_ACCESS_ACK"
  shows "wr_exit (worker (exe # host # port # ''access'' # args) (worker_io (Inr g) (Inr ack))) = Some 0"
  using assms by (simp add: acknowledges_def worker_def worker_io_def worker_request_def Let_def split: prod.split)

lemma fresh_worker:
  assumes "acknowledges g" and "f_kind ack = MK_REGISTER_BUFFER_ACK" and "register_acknowledged (f_payload ack)"
  shows "wr_exit (worker [exe, host, port, ''register-fresh''] (worker_io (Inr g) (Inr ack))) = Some 0"
  using assms by (simp add: acknowledges_def worker_def worker_io_def worker_register_def Let_def split: prod.split)

subsection \<open>The coordinator after each session\<close>

definition answered_a :: Coord where
  "answered_a = handle_register_a (f_payload register_request) (greet_a coordinator_start)"

definition access_argv :: "string \<Rightarrow> string \<Rightarrow> string list" where
  "access_argv exe port =
     [exe, ''127.0.0.1'', port, ''access'', int_to_str (id_value (co_reg_a answered_a)), int_to_str 1,
      int_to_str (gen_value (co_keygen_a answered_a)), ''1'']"

definition second_request :: "string \<Rightarrow> string \<Rightarrow> Frame" where
  "second_request exe port =
     access_request (access_argv exe port)
       (fst (snd (decode_hello_ack_into (f_payload (last (co_sent (greet_b answered_a)))))))"

definition answered_b :: "string \<Rightarrow> string \<Rightarrow> Coord" where
  "answered_b exe port = handle_access_b (f_payload (second_request exe port)) (greet_b answered_a)"

definition answered_fresh :: "string \<Rightarrow> string \<Rightarrow> Coord" where
  "answered_fresh exe port =
     (let c = after_loss (answered_b exe port)
      in handle_register_fresh (fresh_snapshot c) (f_payload register_request) (greet_fresh c))"

lemma request_kinds [simp]:
  "f_kind register_request = MK_REGISTER_BUFFER" "f_kind (second_request exe port) = MK_REQUEST_ACCESS"
  by (simp_all add: register_request_def second_request_def access_request_def)

lemma access_argv_asks:
  "asks (access_argv exe port) (hello_of ''access'') (\<lambda>g. access_request (access_argv exe port)
     (fst (snd (decode_hello_ack_into (f_payload g)))))"
  unfolding access_argv_def by (rule access_asks)

lemma scenario_checks:
  "verdicts (answered_fresh exe port) = replicate 8 True" "tallied (answered_fresh exe port)"
proof -
  let ?eof = "Inl ''eof'' :: string + Frame"
  have frames: "wr_frames (worker [exe, ''127.0.0.1'', port, ''register-hold'']
        (worker_io (Inr (last (co_sent (greet_a coordinator_start)))) ?eof)) =
      [hello_of ''register-hold'', register_request]"
    "wr_frames (worker (access_argv exe port) (worker_io (Inr (last (co_sent (greet_b answered_a)))) ?eof)) =
      [hello_of ''access'', second_request exe port]"
    "wr_frames (worker [exe, ''127.0.0.1'', port, ''register-fresh'']
        (worker_io (Inr (last (co_sent (greet_fresh (after_loss (answered_b exe port)))))) ?eof)) =
      [hello_of ''register-fresh'', register_request]"
    unfolding second_request_def
    by (rule asksD [OF register_asks greetings(1)], simp, rule asksD [OF access_argv_asks greetings(2)],
        rule asksD [OF register_asks greetings(3)], simp)
  have "serve (Some (Inr (hello_of ''register-hold''), Inr register_request)) greet_a MK_REGISTER_BUFFER
      handle_register_a coordinator_start = Inr answered_a"
    by (simp add: serve_def answered_a_def)
  from scenario_run [OF frames(1) this frames(2) [unfolded access_argv_def] frames(3)] obtain c where
    run: "coordinator (Some (Inr (hello_of ''register-hold''), Inr register_request))
        (Some (Inr (hello_of ''access''), Inr (second_request exe port)))
        (Some (Inr (hello_of ''register-fresh''), Inr register_request)) = Inr c"
    and v: "verdicts c = replicate 8 True" and t: "tallied c" by blast
  have "c = answered_fresh exe port"
    using run
    by (simp add: coordinator_def serve_def answered_fresh_def answered_b_def Let_def flip: answered_a_def)
  with v t show "verdicts (answered_fresh exe port) = replicate 8 True" "tallied (answered_fresh exe port)"
    by simp_all
qed

text \<open>Every check of the eight belongs to one of the sessions, so each session passed its own.\<close>

lemma scenario_verdicts:
  "verdicts answered_a = [True]" "verdicts (answered_b exe port) = verdicts (greet_b answered_a) @ [True, True]"
  "verdicts (answered_fresh exe port) =
    verdicts (greet_fresh (after_loss (answered_b exe port))) @ [True]"
proof -
  obtain x where a: "verdicts answered_a = [x]"
    unfolding answered_a_def
    by (rule answer_a [of "f_payload register_request" "greet_a coordinator_start"])
      (simp add: coordinator_start_report)
  have auth: "auth (greet_b answered_a) = coord_snap"
    by (simp add: answered_a_def handle_register_a_report(1) coordinator_start_report)
  obtain y where b: "verdicts (answered_b exe port) = [x, y, True]"
    using handle_access_b_report(2) [OF auth, of "f_payload (second_request exe port)"] a
    by (auto simp: answered_b_def)
  have loss: "verdicts (after_loss (answered_b exe port)) = [x, y, True] @ [True, True, True, True]"
    using after_loss_report [of "answered_b exe port"] handle_access_b_report(1) [OF auth] b
    by (simp add: answered_b_def)
  obtain z where f: "verdicts (answered_fresh exe port) = verdicts (after_loss (answered_b exe port)) @ [z]"
    using handle_fresh_report [of "fresh_snapshot (after_loss (answered_b exe port))"
        "f_payload register_request" "greet_fresh (after_loss (answered_b exe port))"]
    by (auto simp: answered_fresh_def Let_def)
  have "x" "y" "z" using scenario_checks(1) [of exe port] loss f by (simp_all add: eval_nat_numeral)
  with a b f show "verdicts answered_a = [True]"
    "verdicts (answered_b exe port) = verdicts (greet_b answered_a) @ [True, True]"
    "verdicts (answered_fresh exe port) = verdicts (greet_fresh (after_loss (answered_b exe port))) @ [True]"
    by simp_all
qed

lemma scenario_answers:
  "sendable (last (co_sent answered_a))" "f_kind (last (co_sent answered_a)) = MK_REGISTER_BUFFER_ACK"
  "sendable (last (co_sent (answered_b exe port)))"
  "f_kind (last (co_sent (answered_b exe port))) = MK_REQUEST_ACCESS_ACK"
  "sendable (last (co_sent (answered_fresh exe port)))"
  "f_kind (last (co_sent (answered_fresh exe port))) = MK_REGISTER_BUFFER_ACK"
  "register_acknowledged (f_payload (last (co_sent (answered_fresh exe port))))"
proof -
  obtain ok where "verdicts answered_a = [ok]"
    "ok \<Longrightarrow> sendable (last (co_sent answered_a)) \<and> f_kind (last (co_sent answered_a)) = MK_REGISTER_BUFFER_ACK"
    unfolding answered_a_def
    by (rule answer_a [of "f_payload register_request" "greet_a coordinator_start"])
      (simp add: coordinator_start_report)
  with scenario_verdicts(1) show "sendable (last (co_sent answered_a))"
    "f_kind (last (co_sent answered_a)) = MK_REGISTER_BUFFER_ACK" by simp_all
  show "sendable (last (co_sent (answered_b exe port)))"
    "f_kind (last (co_sent (answered_b exe port))) = MK_REQUEST_ACCESS_ACK"
    using answer_b [OF scenario_verdicts(2) [unfolded answered_b_def]] by (simp_all add: answered_b_def)
  show "sendable (last (co_sent (answered_fresh exe port)))"
    "f_kind (last (co_sent (answered_fresh exe port))) = MK_REGISTER_BUFFER_ACK"
    "register_acknowledged (f_payload (last (co_sent (answered_fresh exe port))))"
    using answer_fresh [OF scenario_verdicts(3) [unfolded answered_fresh_def Let_def]]
    by (simp_all add: answered_fresh_def Let_def)
qed

subsection \<open>The three sessions\<close>

lemma scenario_sessions:
  assumes up: "faithful_carrier up" and down: "faithful_carrier down"
  shows "session up down [exe, host, port, ''register-hold''] greet_a MK_REGISTER_BUFFER handle_register_a
      coordinator_start =
    (Inr answered_a, worker [exe, host, port, ''register-hold'']
      (worker_io (Inr (last (co_sent (greet_a coordinator_start)))) (Inr (last (co_sent answered_a)))))"
    and "session up down (access_argv exe port) greet_b MK_REQUEST_ACCESS handle_access_b answered_a =
    (Inr (answered_b exe port), worker (access_argv exe port)
      (worker_io (Inr (last (co_sent (greet_b answered_a)))) (Inr (last (co_sent (answered_b exe port))))))"
    and "c = after_loss (answered_b exe port) \<Longrightarrow>
    session up down [exe, host, port, ''register-fresh''] greet_fresh MK_REGISTER_BUFFER
      (handle_register_fresh (fresh_snapshot c)) c =
    (Inr (answered_fresh exe port), worker [exe, host, port, ''register-fresh'']
      (worker_io (Inr (last (co_sent (greet_fresh c)))) (Inr (last (co_sent (answered_fresh exe port))))))"
    apply (rule session_served [OF up down register_asks];
      use scenario_answers(1) in \<open>simp add: greetings answered_a_def\<close>)
   apply (rule session_served [OF up down access_argv_asks];
      use scenario_answers(3) request_kinds(2) in \<open>simp add: greetings answered_b_def flip: second_request_def\<close>)
  apply (rule session_served [OF up down register_asks];
      use scenario_answers(5) in \<open>simp add: greetings answered_fresh_def Let_def\<close>)
  done

lemma scenario_over_carriers:
  assumes "faithful_carrier up" and "faithful_carrier down"
    and split: "splits_commands split (op_worker opts) (int_text (op_port opts))"
  shows "run_scenario up down split opts = (0, replicate 8 True, [None, Some 0, Some 0])"
proof -
  let ?exe = "op_worker opts" and ?port = "int_text (op_port opts)"
  have commands: "split (spawn_command ?exe ''127.0.0.1'' ?port ''register-hold'' '''') =
      [?exe, ''127.0.0.1'', ?port, ''register-hold'']"
    "split (spawn_command ?exe ''127.0.0.1'' ?port ''register-fresh'' '''') =
      [?exe, ''127.0.0.1'', ?port, ''register-fresh'']"
    "split (spawn_command ?exe ''127.0.0.1'' ?port ''access'' (access_extra answered_a)) = access_argv ?exe ?port"
    using split by (simp_all add: splits_commands_def access_extra_def access_argv_def)
  have exits: "exit_code (Inr (answered_fresh ?exe ?port)) = 0"
    using scenario_checks [of ?exe ?port] by (simp add: exit_code_def tallied_def)
  note sessions = scenario_sessions(1) [OF assms(1,2)] scenario_sessions(2) [OF assms(1,2)]
    scenario_sessions(3) [OF assms(1,2) refl]
  have workers: "wr_exit (worker [?exe, ''127.0.0.1'', ?port, ''register-hold'']
      (worker_io (Inr (last (co_sent (greet_a coordinator_start)))) (Inr (last (co_sent answered_a))))) = None"
    "wr_exit (worker (access_argv ?exe ?port) (worker_io (Inr (last (co_sent (greet_b answered_a))))
      (Inr (last (co_sent (answered_b ?exe ?port)))))) = Some 0"
    "wr_exit (worker [?exe, ''127.0.0.1'', ?port, ''register-fresh'']
      (worker_io (Inr (last (co_sent (greet_fresh c)))) (Inr (last (co_sent (answered_fresh ?exe ?port)))))) = Some 0"
    for c
    using scenario_answers greetings
    by (simp_all add: holding_worker fresh_worker access_argv_def accessing_worker)
  show ?thesis
    by (simp add: run_scenario_def Let_def commands sessions workers exits scenario_checks)
qed

text \<open>C30. The whole scenario works, from the command line to the exit codes of four processes: over
  connected sockets, however they cut the bytes, a coordinator that gets its listener and was
  started with \<open>--scenario\<close> passes its eight checks and exits with zero, the worker that it starts
  first holds its registration until it is killed, and the two workers it starts later exit with
  zero. Every frame is encoded, cut, received and decoded on the way, by the functions of the
  process at either end, and every answer comes from the registry.\<close>

theorem system_scenario_succeeds:
  assumes "coordinator_options argv = Some opts" and "op_scenario opts"
    and "li_socket io" and "li_bind io" and "li_listen io"
    and "splits_commands split (op_worker opts) (int_text (op_port opts))"
    and "connected_sockets send wire s recv pending arrive"
    and "connected_sockets send' wire' s' recv' pending' arrive'"
  shows "coordinator_process io (up_carrier send wire s recv arrive)
    (down_carrier send' wire' s' recv' arrive') split argv =
    Some (0, replicate 8 True, [None, Some 0, Some 0])"
  using scenario_over_carriers [OF sockets_faithful(1) [OF assms(7)] sockets_faithful(2) [OF assms(8)] assms(6)]
    assms(1-5)
  by (simp add: coordinator_process_def)


section \<open>A witness\<close>

text \<open>A splitter for command lines whose program is quoted and whose arguments are separated by
  single spaces.\<close>

function words_of :: "string \<Rightarrow> string list" where
  "words_of [] = []"
| "words_of (c # s) =
     (if c = CHR '' '' then takeWhile (\<lambda>x. x \<noteq> CHR '' '') s # words_of (dropWhile (\<lambda>x. x \<noteq> CHR '' '') s) else [])"
  by pat_completeness auto
termination by (relation "measure length") (simp_all add: le_imp_less_Suc length_dropWhile_le)

definition demo_split :: "string \<Rightarrow> string list" where
  "demo_split cmd = takeWhile (\<lambda>x. x \<noteq> CHR 0x22) (tl cmd) # words_of (tl (dropWhile (\<lambda>x. x \<noteq> CHR 0x22) (tl cmd)))"

definition plain :: "string \<Rightarrow> bool" where
  "plain w \<longleftrightarrow> list_all (\<lambda>x. x \<noteq> CHR '' '' \<and> x \<noteq> CHR 0x22) w"

lemma words_of_step:
  assumes "plain w" and "s = [] \<or> hd s = CHR '' ''"
  shows "words_of (CHR '' '' # w @ s) = w # words_of s"
proof -
  have "\<And>x. x \<in> set w \<Longrightarrow> x \<noteq> CHR '' ''" using assms(1) by (auto simp: plain_def list_all_iff)
  then have "takeWhile (\<lambda>x. x \<noteq> CHR '' '') (w @ s) = w" "dropWhile (\<lambda>x. x \<noteq> CHR '' '') (w @ s) = s"
    using assms(2) by (cases s; simp add: takeWhile_append2 dropWhile_append2)+
  then show ?thesis by simp
qed

lemma plain_int_to_str: "plain (int_to_str v)"
proof -
  have "list_all is_digit (int_to_str v)" using digits_value [of "unat v"] by (simp add: int_to_str_def)
  then show ?thesis by (auto simp: plain_def list_all_iff is_digit_def)
qed

lemma plain_words:
  "plain ''rdma-buffer-worker''" "plain ''127.0.0.1''" "plain ''39121''" "plain ''register-hold''"
  "plain ''register-fresh''" "plain ''access''" "plain ''1''"
  by (simp_all add: plain_def)

lemma demo_split_quoted:
  "plain exe \<Longrightarrow> demo_split (CHR 0x22 # exe @ CHR 0x22 # s) = exe # words_of s"
proof -
  assume "plain exe"
  then have "\<And>x. x \<in> set exe \<Longrightarrow> x \<noteq> CHR 0x22" by (auto simp: plain_def list_all_iff)
  then have "takeWhile (\<lambda>x. x \<noteq> CHR 0x22) (exe @ CHR 0x22 # s) = exe"
    "dropWhile (\<lambda>x. x \<noteq> CHR 0x22) (exe @ CHR 0x22 # s) = CHR 0x22 # s"
    by (simp_all add: takeWhile_append2 dropWhile_append2)
  then show ?thesis by (simp add: demo_split_def)
qed

lemma demo_splits: "splits_commands demo_split ''rdma-buffer-worker'' ''39121''"
proof -
  let ?exe = "''rdma-buffer-worker''" and ?host = "''127.0.0.1''" and ?port = "''39121''"
  have one: "int_to_str 1 = ''1''" by code_simp
  have args: "demo_split (spawn_command ?exe ?host ?port role extra) =
      ?exe # ?host # ?port # role # (if extra = '''' then [] else words_of (CHR '' '' # extra))"
    if "plain role" for role extra
  proof -
    have cmd: "spawn_command ?exe ?host ?port role extra = CHR 0x22 # ?exe @ CHR 0x22 #
        (CHR '' '' # ?host @ (CHR '' '' # ?port @ (CHR '' '' # role @
          (if extra = '''' then '''' else CHR '' '' # extra))))"
      by (simp add: spawn_command_def)
    have tail: "(if extra = '''' then '''' else CHR '' '' # extra) = [] \<or>
        hd (if extra = '''' then '''' else CHR '' '' # extra) = CHR '' ''" by simp
    show ?thesis
      unfolding cmd demo_split_quoted [OF plain_words(1)]
      by (subst words_of_step [OF plain_words(2)], simp, subst words_of_step [OF plain_words(3)], simp,
          subst words_of_step [OF that tail], simp)
  qed
  have last_word: "words_of (CHR '' '' # ''1'') = [''1'']"
    using words_of_step [OF plain_words(7), of "[]"] by simp
  have access: "words_of (CHR '' '' # int_to_str r @ CHR '' '' # ''1'' @ CHR '' '' # int_to_str k @ CHR '' '' # ''1'') =
      [int_to_str r, ''1'', int_to_str k, ''1'']" for r k
    by (subst words_of_step [OF plain_int_to_str], simp, subst words_of_step [OF plain_words(7)], simp,
        subst words_of_step [OF plain_int_to_str], simp) (simp add: last_word)
  show ?thesis
    unfolding splits_commands_def
  proof (intro conjI ballI allI)
    fix role assume "role \<in> {''register-hold'', ''register-fresh''}"
    with plain_words(4,5) have "plain role" by auto
    from args [OF this, of "''''"]
    show "demo_split (spawn_command ?exe ?host ?port role '''') = [?exe, ?host, ?port, role]" by simp
  next
    fix r k
    have "int_to_str r @ '' '' @ ''1'' @ '' '' @ int_to_str k @ '' 1'' \<noteq> ''''" by simp
    with args [OF plain_words(6), of "int_to_str r @ '' '' @ ''1'' @ '' '' @ int_to_str k @ '' 1''"] access [of r k]
    show "demo_split (spawn_command ?exe ?host ?port ''access''
        (int_to_str r @ '' '' @ int_to_str 1 @ '' '' @ int_to_str k @ '' 1'')) =
      [?exe, ?host, ?port, ''access'', int_to_str r, int_to_str 1, int_to_str k, ''1'']"
      by (simp add: one)
  qed
qed

lemma chunk_send_all: "fst (send_all chunk_send p (w, ks))"
  by (induction chunk_send p "(w, ks)" arbitrary: w ks rule: send_all.induct)
    (subst send_all.simps, auto simp: chunk_send_def Let_def split: list.splits)

lemma chunk_sockets: "connected_sockets chunk_send fst ([], ks) chunk_recv fst (\<lambda>w. (w, js))"
  using chunk_emits chunk_delivers chunk_send_all by (simp add: connected_sockets_def)

theorem system_scenario_succeeds_witness:
  "coordinator_process \<lparr>li_socket = True, li_bind = True, li_listen = True\<rparr>
     (up_carrier chunk_send fst ([], [10, 2]) chunk_recv (\<lambda>w. (w, [3, 1, 7])))
     (down_carrier chunk_send fst ([], []) chunk_recv (\<lambda>w. (w, [5]))) demo_split
     [''rdma-buffer-coordinator'', ''--scenario''] =
   Some (0, replicate 8 True, [None, Some 0, Some 0])"
proof -
  define opts where "opts = \<lparr>op_port = 39121, op_worker = ''rdma-buffer-worker'', op_scenario = True, op_proof = ''''\<rparr>"
  have "coordinator_options [''rdma-buffer-coordinator'', ''--scenario''] =
      Some \<lparr>op_port = 39121, op_worker = ''rdma-buffer-worker'', op_scenario = True, op_proof = ''''\<rparr>"
    by (simp add: coordinator_options_def)
  then have opts: "coordinator_options [''rdma-buffer-coordinator'', ''--scenario''] = Some opts"
    "op_scenario opts" "op_worker opts = ''rdma-buffer-worker''" "op_port opts = 39121"
    by (simp_all add: opts_def)
  have port: "int_text (op_port opts) = ''39121''" unfolding opts(4) by (simp add: int_text_def digits.simps digit_char_def)
  have "splits_commands demo_split (op_worker opts) (int_text (op_port opts))"
    unfolding port opts(3) by (rule demo_splits)
  from system_scenario_succeeds [OF opts(1,2) _ _ _ this chunk_sockets chunk_sockets] show ?thesis by simp
qed

end
