(* ===== verification/Scenario.thy ===== *)
theory Scenario
  imports Coordinator
begin

text \<open>
  The runtime that the examples and the CUDA proof set up: one synthetic backend, an authority, one
  protection domain, and a buffer that is created and registered (\<open>examples/example_util.hpp\<close> and the
  first lines of each \<open>main\<close>). The lemmas say, for any seed and any descriptor, what is there after
  the registration; the theories of the drivers rest on them.
\<close>

section \<open>The helpers of the examples\<close>

definition snapshot :: "u64 \<Rightarrow> u64 \<Rightarrow> AuthoritySnapshot" where
  "snapshot epoch boot =
     default_snapshot
       \<lparr>as_coordinator_epoch := StrongGeneration epoch, as_worker_boot := StrongId boot,
        as_worker := StrongId 1, as_owner := StrongId 1, as_owner_generation := StrongGeneration 1,
        as_worker_generation := StrongGeneration 1, as_policy_generation := StrongGeneration 1,
        as_backend_generation := StrongGeneration 1, as_transport_generation := StrongGeneration 1,
        as_nic_generation := StrongGeneration 1, as_node := StrongId 1, as_process := StrongId 1,
        as_provenance := PV_SYNTHETIC\<rparr>"

definition envelope :: "u64 \<Rightarrow> u64 \<Rightarrow> AuthorityEnvelope" where
  "envelope epoch boot =
     \<lparr>ae_coordinator_epoch = StrongGeneration epoch, ae_worker_boot = StrongId boot,
      ae_owner = StrongId 1, ae_owner_generation = StrongGeneration 1,
      ae_worker_generation = StrongGeneration 1, ae_node = StrongId 1, ae_process = StrongId 1\<rparr>"

definition make_buffer :: "u64 \<Rightarrow> u64 \<Rightarrow> MemoryDomain \<Rightarrow> u64 \<Rightarrow> AccessMask \<Rightarrow> BufferDescriptor" where
  "make_buffer i gen domain len access =
     default_descriptor
       \<lparr>bd_id := StrongId i, bd_generation := StrongGeneration gen, bd_domain := domain,
        bd_base := \<lparr>bp_address = 0x1000,
          bp_kind = (if domain = MD_SYNTHETIC_REMOTE_CAPABLE then PK_SYNTHETIC else PK_VIRTUAL)\<rparr>,
        bd_byte_length := len, bd_alignment := 4096, bd_page_size := 4096,
        bd_owner := StrongId 1, bd_process := StrongId 1, bd_worker := StrongId 1,
        bd_node := StrongId 1, bd_direction := TD_BIDIRECTIONAL, bd_requested_access := access,
        bd_registration_mode := RM_REMOTE_ACCESS, bd_lifetime := LP_TRANSACTIONAL,
        bd_provenance := PV_SYNTHETIC, bd_freshness := FR_VALID,
        bd_policy_generation := StrongGeneration 1\<rparr>"

text \<open>\<open>make_shared<SyntheticBackend>(seed)\<close>, \<open>add_backend\<close>, \<open>set_authority\<close>, \<open>create_protection_domain\<close>.\<close>

definition scene_start :: "u64 \<Rightarrow> ProtectionDomainId \<times> Impl" where
  "scene_start seed =
     create_protection_domain (StrongId 1) (StrongId 1)
       (set_authority (snapshot 1 1)
         (snd (add_backend (Some (SyntheticObj (syn_create seed))) new_impl)))"

text \<open>\<open>create_buffer(d)\<close>, then \<open>register_buffer(d, syn->id(), dom, envelope())\<close>.\<close>

definition scene_register :: "u64 \<Rightarrow> BufferDescriptor \<Rightarrow> RegisterResult \<times> Impl" where
  "scene_register seed d =
     register_buffer d (be_id (SyntheticObj (syn_create seed))) (fst (scene_start seed)) (envelope 1 1)
       (snd (create_buffer d (snd (scene_start seed))))"

section \<open>What is there before the registration\<close>

abbreviation scene_bid :: BackendId where
  "scene_bid \<equiv> StrongId 0x53594E54"

lemma syn_create_id [simp]: "sb_id (syn_create seed) = scene_bid"
  by (simp add: syn_create_def)

lemma snapshot_coord: "snapshot 1 1 = coord_snap" "envelope 1 1 = coord_envelope coord_snap"
  by (simp_all add: snapshot_def envelope_def coord_snap_def coord_snapshot_def coord_envelope_def)

lemma snapshot_agrees: "authority_agrees (snapshot 1 1) (envelope 1 1)"
  unfolding snapshot_coord using coord_agrees [of "StrongGeneration 1" "StrongId 1"]
  by (simp add: coord_snap_def gen_valid_def)

lemma scene_start_eq:
  "scene_start seed =
     (StrongId 1,
      new_impl\<lparr>im_authority := snapshot 1 1,
        im_backends := [(scene_bid, SyntheticObj (syn_create seed))],
        im_domains := [(StrongId 1, \<lparr>de_domain = MD_UNKNOWN, de_state = DS_ACTIVE,
          de_generation = StrongGeneration 1, de_node = StrongId 1, de_process = StrongId 1\<rparr>)],
        im_next_domain := 2, im_acct := zero_accounting\<lparr>a_protection_domains := 1\<rparr>\<rparr>)"
  by (simp add: scene_start_def create_protection_domain_def set_authority_def add_backend_def
      new_impl_def zero_accounting_def increment_def Let_def)

definition scene_created :: "u64 \<Rightarrow> BufferDescriptor \<Rightarrow> Impl" where
  "scene_created seed d =
     (snd (scene_start seed))
       \<lparr>im_buffers := [(bd_id d, \<lparr>bu_descriptor = d, bu_registered = False\<rparr>)],
        im_acct := zero_accounting\<lparr>a_protection_domains := 1, a_logical_buffers := 1,
          a_live_buffer_bytes := bd_byte_length d\<rparr>\<rparr>"

lemma scene_create:
  "id_valid (bd_id d) \<Longrightarrow> create_buffer d (snd (scene_start seed)) = (bd_id d, scene_created seed d)"
  by (simp add: scene_created_def scene_start_eq create_buffer_def new_impl_def zero_accounting_def
      increment_def Let_def)

lemma scene_created_fields [simp]:
  "im_authority (scene_created seed d) = snapshot 1 1"
  "im_backends (scene_created seed d) = [(scene_bid, SyntheticObj (syn_create seed))]"
  "im_registrations (scene_created seed d) = []" "im_active_reg (scene_created seed d) = []"
  "im_leases (scene_created seed d) = []" "im_next_registration (scene_created seed d) = 1"
  "im_next_lease (scene_created seed d) = 1"
  "im_buffers (scene_created seed d) = [(bd_id d, \<lparr>bu_descriptor = d, bu_registered = False\<rparr>)]"
  by (simp_all add: scene_created_def scene_start_eq new_impl_def)

lemma scene_ready:
  "register_ready d scene_bid (StrongId 1) (envelope 1 1) (scene_created seed d) (SyntheticObj (syn_create seed))
     \<longleftrightarrow> syn_can_register d (syn_create seed) = ''''"
proof -
  have "domain_active (StrongId 1) (scene_created seed d)"
    by (simp add: domain_active_def scene_created_def scene_start_eq new_impl_def)
  moreover have "syn_can_register d (syn_create seed) = '''' \<Longrightarrow> bv_ok (validate_range d)"
    by (simp add: syn_can_register_ok)
  ultimately show ?thesis
    using snapshot_agrees by (auto simp: register_ready_def buffer_current_def)
qed

section \<open>The registration\<close>

definition scene_entry :: "u64 \<Rightarrow> BufferDescriptor \<Rightarrow> RegistrationContext \<Rightarrow> SynEntry" where
  "scene_entry seed d cx =
     \<lparr>se_ctx = cx, se_reg = syn_make_registration (syn_create seed) (syn_region seed 1) d cx,
      se_key_generation = StrongGeneration 1, se_revoked = False, se_revalidate_required = False\<rparr>"

definition scene_backend :: "u64 \<Rightarrow> BufferDescriptor \<Rightarrow> RegistrationContext \<Rightarrow> SyntheticBackend" where
  "scene_backend seed d cx =
     (syn_create seed)\<lparr>sb_next_seq := 2,
       sb_entries := [(syn_make_handle (syn_region seed 1), scene_entry seed d cx)],
       sb_region_handle := [(syn_region seed 1, syn_make_handle (syn_region seed 1))]\<rparr>"

lemma scene_syn_registers:
  assumes "syn_can_register d (syn_create seed) = ''''"
  shows "\<exists>bo. be_register d cx (SyntheticObj (syn_create seed)) =
    ((bo, Some (se_reg (scene_entry seed d cx))), SyntheticObj (scene_backend seed d cx))"
proof -
  have seq: "sb_seed (syn_create seed) = seed" "sb_next_seq (syn_create seed) = 1"
    "sb_entries (syn_create seed) = []" "sb_region_handle (syn_create seed) = []"
    by (simp_all add: syn_create_def)
  have "br_handle (syn_make_registration (syn_create seed) (syn_region seed 1) d cx) =
      syn_make_handle (syn_region seed 1)"
    by (simp add: syn_make_registration_def)
  then show ?thesis
    using assms
    by (simp add: syn_register_def Let_def seq scene_entry_def scene_backend_def)
qed

text \<open>The context the backend is given, the record that is filed, and the registry with it.\<close>

definition scene_context :: "u64 \<Rightarrow> BufferDescriptor \<Rightarrow> RegistrationContext" where
  "scene_context seed d =
     ready_context d (StrongId 1) (envelope 1 1) (scene_created seed d) (SyntheticObj (syn_create seed))"

definition scene_record :: "u64 \<Rightarrow> BufferDescriptor \<Rightarrow> RegistrationRecord" where
  "scene_record seed d =
     committed_record
       (ready_record d scene_bid (StrongId 1) (envelope 1 1) (scene_created seed d)
         (SyntheticObj (syn_create seed)))
       scene_bid (se_reg (scene_entry seed d (scene_context seed d))) (snapshot 1 1)"

definition scene_registered :: "u64 \<Rightarrow> BufferDescriptor \<Rightarrow> Impl" where
  "scene_registered seed d =
     registered_impl scene_bid (SyntheticObj (scene_backend seed d (scene_context seed d)))
       (scene_record seed d) (scene_created seed d)"

lemma scene_record_fields [simp]:
  "r_id (scene_record seed d) = StrongId 1" "r_buffer_id (scene_record seed d) = bd_id d"
  "r_lifecycle (scene_record seed d) = RL_ACTIVE" "r_freshness (scene_record seed d) = FR_VALID"
  "r_lease_count (scene_record seed d) = 0"
  "rk_key_generation (r_remote_key (scene_record seed d)) = StrongGeneration 1"
  "\<not> rk_revoked (r_remote_key (scene_record seed d))"
  "id_value (rk_id (r_remote_key (scene_record seed d))) = id_value (syn_region seed 1) * 3 + 1"
  "r_buffer_generation (scene_record seed d) = bd_generation d"
  "r_registration_generation (scene_record seed d) = StrongGeneration 1"
  "r_domain (scene_record seed d) = bd_domain d" "r_domain_id (scene_record seed d) = StrongId 1"
  "r_backend (scene_record seed d) = scene_bid" "r_boot (scene_record seed d) = StrongId 1"
  "r_backend_generation (scene_record seed d) = StrongGeneration 1"
  "r_granted_access (scene_record seed d) = bd_requested_access d"
  "r_provenance (scene_record seed d) = PV_SYNTHETIC"
  "r_backend_handle (scene_record seed d) = syn_make_handle (syn_region seed 1)"
  "r_invalidation_reason (scene_record seed d) = ''''" "r_descriptor (scene_record seed d) = d"
  by (simp_all add: scene_record_def ready_record_def committed_record_def registering_record_def
      scene_entry_def syn_make_registration_def envelope_def) (simp_all add: syn_create_def)

lemma scene_call:
  "id_valid (bd_id d) \<Longrightarrow> scene_register seed d =
     register_buffer d scene_bid (StrongId 1) (envelope 1 1) (scene_created seed d)"
  by (simp add: scene_register_def scene_create) (simp add: scene_start_eq)

lemma scene_registration:
  assumes "syn_can_register d (syn_create seed) = ''''" and "id_valid (bd_id d)"
  shows "rr_ok (fst (scene_register seed d))"
    and "rr_registration (fst (scene_register seed d)) = StrongId 1"
    and "snd (scene_register seed d) = scene_registered seed d"
proof -
  have ready: "register_ready d scene_bid (StrongId 1) (envelope 1 1) (scene_created seed d)
      (SyntheticObj (syn_create seed))"
    using assms(1) by (simp add: scene_ready)
  note call = scene_call [OF assms(2)]
  obtain bo bout b' r where reg: "be_register d
      (ready_context d (StrongId 1) (envelope 1 1) (scene_created seed d) (SyntheticObj (syn_create seed)))
      (SyntheticObj (syn_create seed)) = ((bo, Some bout), b')"
    and r: "r = committed_record (ready_record d scene_bid (StrongId 1) (envelope 1 1)
      (scene_created seed d) (SyntheticObj (syn_create seed))) scene_bid bout
      (im_authority (scene_created seed d))"
    and res: "snd (scene_register seed d) = registered_impl scene_bid b' r (scene_created seed d)"
    "rr_ok (fst (scene_register seed d))" "rr_registration (fst (scene_register seed d)) = r_id r"
    unfolding call by (rule register_buffer_ready [OF ready])
  have "b' = SyntheticObj (scene_backend seed d (scene_context seed d))"
    and "bout = se_reg (scene_entry seed d (scene_context seed d))"
    using reg scene_syn_registers [OF assms(1), of "scene_context seed d"]
    unfolding scene_context_def by auto
  with r have "r = scene_record seed d"
    and "b' = SyntheticObj (scene_backend seed d (scene_context seed d))"
    by (simp_all add: scene_record_def)
  with res show "rr_ok (fst (scene_register seed d))"
    and "rr_registration (fst (scene_register seed d)) = StrongId 1"
    and "snd (scene_register seed d) = scene_registered seed d"
    by (simp_all add: scene_registered_def)
qed

lemma scene_registers:
  assumes "syn_can_register d (syn_create seed) = ''''" and "id_valid (bd_id d)"
  obtains rr where "scene_register seed d = (rr, scene_registered seed d)" "rr_ok rr"
    "rr_registration rr = StrongId 1"
  using scene_registration [OF assms] by (metis prod.collapse)

lemma scene_refused:
  assumes "syn_can_register d (syn_create seed) \<noteq> ''''" and "id_valid (bd_id d)"
  shows "\<not> rr_ok (fst (scene_register seed d))"
    and "snd (scene_register seed d) = scene_created seed d"
proof -
  note call = scene_call [OF assms(2)]
  have "register_ready d scene_bid (StrongId 1) (envelope 1 1) (scene_created seed d) b \<Longrightarrow>
      b = SyntheticObj (syn_create seed)" for b
    by (simp add: register_ready_def)
  with assms(1) have none: "\<nexists>b. register_ready d scene_bid (StrongId 1) (envelope 1 1) (scene_created seed d) b"
    using scene_ready by blast
  from register_buffer_refused [OF none] show "\<not> rr_ok (fst (scene_register seed d))"
    and "snd (scene_register seed d) = scene_created seed d" by (simp_all add: call)
qed

lemma scene_registered_fields [simp]:
  "im_registrations (scene_registered seed d) = [(StrongId 1, scene_record seed d)]"
  "im_backends (scene_registered seed d) =
     [(scene_bid, SyntheticObj (scene_backend seed d (scene_context seed d)))]"
  "im_active_reg (scene_registered seed d) = [(bd_id d, StrongId 1)]"
  "im_leases (scene_registered seed d) = []" "im_authority (scene_registered seed d) = snapshot 1 1"
  "im_buffers (scene_registered seed d) = [(bd_id d, \<lparr>bu_descriptor = d, bu_registered = False\<rparr>)]"
  "im_next_lease (scene_registered seed d) = 1"
  "get_registration (StrongId 1) (scene_registered seed d) = Some (scene_record seed d)"
  by (simp_all add: scene_registered_def registered_impl_def get_registration_def)

end
