(* ===== verification/Cuda.thy ===== *)
theory Cuda
  imports Scenario
begin

text \<open>
  The CUDA capability probe (\<open>src/cuda_backend.cu\<close>) and the CUDA proof program
  (\<open>src/cuda_proof.cu\<close>). The CUDA runtime is an argument: the answer of every checked call, what a
  call leaves in memory when it fails, the order in which a launch runs its threads, and the
  arithmetic of floats. A buffer of device or pinned memory is the list of its floats. The proofs
  say what the kernel computes whatever the order of its threads, and when the program exits
  with zero. Time measurement and printing are not modelled; the calls made for them are.
\<close>

section \<open>The capability probe\<close>

record CudaCapabilityProbe =
  cp_host_pinned_remote_register :: CapabilityState
  cp_device_remote_register :: CapabilityState
  cp_compute_capability_major :: "32 word"
  cp_compute_capability_minor :: "32 word"
  cp_provenance :: Provenance
  cp_detail :: string

text \<open>\<open>None\<close> where a call of the runtime does not return \<open>cudaSuccess\<close>.\<close>

definition probe_cuda_capabilities ::
    "int option \<Rightarrow> (32 word \<times> 32 word \<times> string) option \<Rightarrow> CudaCapabilityProbe" where
  "probe_cuda_capabilities count properties =
     (let p = \<lparr>cp_host_pinned_remote_register = CS_UNKNOWN, cp_device_remote_register = CS_UNKNOWN,
               cp_compute_capability_major = 0, cp_compute_capability_minor = 0,
               cp_provenance = PV_REAL, cp_detail = ''''\<rparr>
      in if (case count of None \<Rightarrow> True | Some c \<Rightarrow> c \<le> 0)
         then p\<lparr>cp_detail := msg ''no usable CUDA device'', cp_provenance := PV_UNKNOWN\<rparr>
         else (case properties of
             None \<Rightarrow> p\<lparr>cp_detail := msg ''cudaGetDeviceProperties failed''\<rparr>
           | Some (major, minor, name) \<Rightarrow>
               p\<lparr>cp_compute_capability_major := major, cp_compute_capability_minor := minor,
                 cp_detail := ''device='' @ name,
                 cp_host_pinned_remote_register := CS_NOT_SUPPORTED,
                 cp_device_remote_register := CS_NOT_SUPPORTED\<rparr>))"

section \<open>The kernel\<close>

text \<open>\<open>blockIdx.x * blockDim.x + threadIdx.x\<close>, and one thread of \<open>add_kernel\<close>. An index outside the
  buffer would be undefined; \<open>kernel_index\<close> below shows that the grid has none that passes the guard.\<close>

definition thread_index :: "32 word \<Rightarrow> 32 word \<Rightarrow> 32 word \<Rightarrow> 32 word" where
  "thread_index dim block t = block * dim + t"

definition add_kernel ::
    "('f \<Rightarrow> 'f \<Rightarrow> 'f) \<Rightarrow> 32 word \<Rightarrow> 'f list \<Rightarrow> 'f list \<Rightarrow> 32 word \<Rightarrow> 32 word \<times> 32 word \<Rightarrow> 'f list \<Rightarrow> 'f list" where
  "add_kernel fadd dim a b n thread out =
     (let i = thread_index dim (fst thread) (snd thread)
      in if sint i < sint n then out[unat i := fadd (a ! unat i) (b ! unat i)] else out)"

definition kernel_grid :: "nat \<Rightarrow> nat \<Rightarrow> (32 word \<times> 32 word) list" where
  "kernel_grid blocks threads =
     List.product (map word_of_nat [0..<blocks]) (map word_of_nat [0..<threads])"

text \<open>A launch whose threads take their turns in the given order.\<close>

definition launch_grid ::
    "('f \<Rightarrow> 'f \<Rightarrow> 'f) \<Rightarrow> 32 word \<Rightarrow> 'f list \<Rightarrow> 'f list \<Rightarrow> 32 word \<Rightarrow> (32 word \<times> 32 word) list \<Rightarrow> 'f list \<Rightarrow> 'f list" where
  "launch_grid fadd dim a b n order out = fold (add_kernel fadd dim a b n) order out"

definition cuda_n :: nat where "cuda_n = 2 ^ 20"
definition cuda_bytes :: u64 where "cuda_bytes = word_of_nat cuda_n * 4"
definition cuda_threads :: nat where "cuda_threads = 256"
definition cuda_blocks :: nat where "cuda_blocks = (cuda_n + cuda_threads - 1) div cuda_threads"

section \<open>The run of the program\<close>

text \<open>\<open>cd_success k\<close>: the \<open>k\<close>-th checked call returned \<open>cudaSuccess\<close>. \<open>cd_left k\<close>: the contents of the
  memory the call allocates, or of the target of a copy that failed. \<open>cd_order l\<close>: the threads the
  \<open>l\<close>-th launch ran.\<close>

record 'f CudaRuntime =
  cd_success :: "nat \<Rightarrow> bool"
  cd_left :: "nat \<Rightarrow> 'f list"
  cd_order :: "nat \<Rightarrow> (32 word \<times> 32 word) list"
  cd_float :: "nat \<Rightarrow> 'f"
  cd_plus :: "'f \<Rightarrow> 'f \<Rightarrow> 'f"
  cd_pinned_at :: u64
  cd_device_at :: u64
  cd_count :: "int option"
  cd_properties :: "(32 word \<times> 32 word \<times> string) option"

record 'f CudaRun =
  cu_calls :: nat
  cu_launches :: nat
  cu_fail :: nat
  cu_reports :: "bool list"
  cu_pinned :: "'f list"
  cu_a :: "'f list"
  cu_b :: "'f list"
  cu_out :: "'f list"
  cu_dev :: "'f list"
  cu_res :: "'f list"

text \<open>The macro \<open>CK\<close>, alone and around a call that fills memory, and \<open>report\<close>.\<close>

definition ck :: "'f CudaRuntime \<Rightarrow> 'f CudaRun \<Rightarrow> 'f CudaRun" where
  "ck rt s =
     s\<lparr>cu_calls := cu_calls s + 1,
       cu_fail := (if cd_success rt (cu_calls s) then cu_fail s else cu_fail s + 1)\<rparr>"

definition ck_alloc :: "'f CudaRuntime \<Rightarrow> ('f list \<Rightarrow> 'f CudaRun \<Rightarrow> 'f CudaRun) \<Rightarrow> 'f CudaRun \<Rightarrow> 'f CudaRun" where
  "ck_alloc rt put s = put (cd_left rt (cu_calls s)) (ck rt s)"

definition ck_copy ::
    "'f CudaRuntime \<Rightarrow> ('f list \<Rightarrow> 'f CudaRun \<Rightarrow> 'f CudaRun) \<Rightarrow> 'f list \<Rightarrow> 'f CudaRun \<Rightarrow> 'f CudaRun" where
  "ck_copy rt put xs s =
     put (if cd_success rt (cu_calls s) then xs else cd_left rt (cu_calls s)) (ck rt s)"

definition report :: "bool \<Rightarrow> 'f CudaRun \<Rightarrow> 'f CudaRun" where
  "report ok s =
     s\<lparr>cu_reports := cu_reports s @ [ok], cu_fail := (if ok then cu_fail s else cu_fail s + 1)\<rparr>"

definition launch_add :: "'f CudaRuntime \<Rightarrow> 'f CudaRun \<Rightarrow> 'f CudaRun" where
  "launch_add rt s =
     s\<lparr>cu_launches := cu_launches s + 1,
       cu_out := launch_grid (cd_plus rt) (word_of_nat cuda_threads) (cu_a s) (cu_b s)
                   (word_of_nat cuda_n) (cd_order rt (cu_launches s)) (cu_out s)\<rparr>"

abbreviation "to_pinned xs s \<equiv> s\<lparr>cu_pinned := xs\<rparr>"
abbreviation "to_a xs s \<equiv> s\<lparr>cu_a := xs\<rparr>"
abbreviation "to_b xs s \<equiv> s\<lparr>cu_b := xs\<rparr>"
abbreviation "to_out xs s \<equiv> s\<lparr>cu_out := xs\<rparr>"
abbreviation "to_dev xs s \<equiv> s\<lparr>cu_dev := xs\<rparr>"
abbreviation "to_res xs s \<equiv> s\<lparr>cu_res := xs\<rparr>"

definition h_ref :: "'f CudaRuntime \<Rightarrow> 'f list" where
  "h_ref rt = map (\<lambda>i. cd_plus rt (cd_float rt i) (cd_float rt 1)) [0..<cuda_n]"

definition parity :: "'f CudaRuntime \<Rightarrow> 'f list \<Rightarrow> bool" where
  "parity rt res = list_all (\<lambda>i. res ! i = cd_plus rt (h_ref rt ! i) (h_ref rt ! i)) [0..<cuda_n]"

definition cuda_begin :: "'f CudaRuntime \<Rightarrow> 'f CudaRun" where
  "cuda_begin rt =
     ck rt \<lparr>cu_calls = 0, cu_launches = 0, cu_fail = 0, cu_reports = [], cu_pinned = [], cu_a = [],
            cu_b = [], cu_out = [], cu_dev = [], cu_res = replicate cuda_n (cd_float rt 0)\<rparr>"

text \<open>Allocation, \<open>memcpy\<close> to pinned memory, copies to the device and the warm-up launch.\<close>

definition cuda_prepare :: "'f CudaRuntime \<Rightarrow> 'f CudaRun \<Rightarrow> 'f CudaRun" where
  "cuda_prepare rt s0 =
     (let s1 = to_pinned (h_ref rt) (ck_alloc rt to_pinned s0);
          s2 = ck_alloc rt to_out (ck_alloc rt to_b (ck_alloc rt to_a s1));
          s3 = ck_copy rt to_a (cu_pinned s2) s2;
          s4 = ck_copy rt to_b (h_ref rt) s3
      in ck rt (launch_add rt s4))"

definition cuda_time_kernel :: "'f CudaRuntime \<Rightarrow> 'f CudaRun \<Rightarrow> 'f CudaRun" where
  "cuda_time_kernel rt s0 =
     (let s1 = (ck rt ^^ 3) s0;
          s2 = (launch_add rt ^^ 10) s1
      in (ck rt ^^ 6) s2)"

definition cuda_check_pinned :: "'f CudaRuntime \<Rightarrow> 'f CudaRun \<Rightarrow> 'f CudaRun" where
  "cuda_check_pinned rt s0 =
     (let s1 = ck_copy rt to_pinned (cu_out s0) s0;
          s2 = to_res (map (\<lambda>i. cu_pinned s1 ! i) [0..<cuda_n]) s1
      in report (parity rt (cu_res s2)) s2)"

definition cuda_check_device :: "'f CudaRuntime \<Rightarrow> 'f CudaRun \<Rightarrow> 'f CudaRun" where
  "cuda_check_device rt s0 =
     (let s1 = ck_alloc rt to_dev s0;
          s2 = ck_copy rt to_dev (cu_out s1) s1;
          s3 = ck_copy rt to_res (cu_dev s2) s2
      in report (parity rt (cu_res s3)) s3)"

definition cuda_time_copies :: "'f CudaRuntime \<Rightarrow> 'f CudaRun \<Rightarrow> 'f CudaRun" where
  "cuda_time_copies rt s0 =
     (let s1 = (ck rt ^^ 3) s0;
          s2 = ((\<lambda>s. ck_copy rt to_a (cu_pinned s) s) ^^ 20) s1;
          s3 = (ck rt ^^ 4) s2;
          s4 = ((\<lambda>s. ck_copy rt to_pinned (cu_out s) s) ^^ 20) s3
      in (ck rt ^^ 5) s4)"

section \<open>The results in the registry\<close>

definition cuda_snapshot :: AuthoritySnapshot where
  "cuda_snapshot =
     default_snapshot
       \<lparr>as_coordinator_epoch := StrongGeneration 1, as_worker_boot := StrongId 1,
        as_worker := StrongId 1, as_owner := StrongId 1, as_owner_generation := StrongGeneration 1,
        as_worker_generation := StrongGeneration 1, as_policy_generation := StrongGeneration 1,
        as_backend_generation := StrongGeneration 1, as_transport_generation := StrongGeneration 1,
        as_nic_generation := StrongGeneration 1, as_node := StrongId 1, as_process := StrongId 1,
        as_provenance := PV_SYNTHETIC\<rparr>"

definition cuda_envelope :: AuthorityEnvelope where
  "cuda_envelope =
     \<lparr>ae_coordinator_epoch = StrongGeneration 1, ae_worker_boot = StrongId 1,
      ae_owner = StrongId 1, ae_owner_generation = StrongGeneration 1,
      ae_worker_generation = StrongGeneration 1, ae_node = StrongId 1, ae_process = StrongId 1\<rparr>"

definition pinned_descriptor :: "u64 \<Rightarrow> BufferDescriptor" where
  "pinned_descriptor pinned =
     default_descriptor
       \<lparr>bd_id := StrongId 1, bd_generation := StrongGeneration 1,
        bd_domain := MD_SYNTHETIC_REMOTE_CAPABLE,
        bd_base := \<lparr>bp_address = pinned, bp_kind = PK_VIRTUAL\<rparr>,
        bd_byte_length := cuda_bytes, bd_alignment := 4096, bd_page_size := 4096,
        bd_owner := StrongId 1, bd_process := StrongId 1, bd_worker := StrongId 1,
        bd_node := StrongId 1, bd_direction := TD_BIDIRECTIONAL,
        bd_requested_access := access_mask AR_REMOTE_READ OR access_mask AR_REMOTE_WRITE,
        bd_registration_mode := RM_REMOTE_ACCESS, bd_lifetime := LP_TRANSACTIONAL,
        bd_provenance := PV_REAL, bd_freshness := FR_VALID,
        bd_policy_generation := StrongGeneration 1\<rparr>"

definition device_descriptor :: "u64 \<Rightarrow> BufferDescriptor" where
  "device_descriptor address =
     default_descriptor
       \<lparr>bd_id := StrongId 2, bd_generation := StrongGeneration 1, bd_domain := MD_CUDA_DEVICE,
        bd_base := \<lparr>bp_address = address, bp_kind = PK_DEVICE\<rparr>,
        bd_byte_length := cuda_bytes, bd_alignment := 256, bd_page_size := 0,
        bd_owner := StrongId 1, bd_process := StrongId 1, bd_worker := StrongId 1,
        bd_node := StrongId 1, bd_direction := TD_BIDIRECTIONAL,
        bd_requested_access := access_mask AR_REMOTE_WRITE,
        bd_registration_mode := RM_REMOTE_ACCESS, bd_lifetime := LP_TRANSACTIONAL,
        bd_provenance := PV_REAL, bd_freshness := FR_VALID,
        bd_policy_generation := StrongGeneration 1\<rparr>"

text \<open>\<open>syn\<close> points to the object that the registry holds, so \<open>can_register\<close> is asked of that one.\<close>

definition held_backend :: "BackendId \<Rightarrow> IBackend \<Rightarrow> Impl \<Rightarrow> IBackend" where
  "held_backend bid b im = (case map_of (im_backends im) bid of None \<Rightarrow> b | Some b' \<Rightarrow> b')"

definition cuda_feed :: "'f CudaRuntime \<Rightarrow> 'f CudaRun \<Rightarrow> 'f CudaRun" where
  "cuda_feed rt s =
     (let probe = probe_cuda_capabilities (cd_count rt) (cd_properties rt);
          syn = SyntheticObj (syn_create 99);
          (dom, im0) = create_protection_domain (StrongId 1) (StrongId 1)
            (set_authority cuda_snapshot (snd (add_backend (Some syn) new_impl)));
          hp = pinned_descriptor (cd_pinned_at rt);
          im1 = snd (create_buffer hp im0);
          (hr, im2) = register_buffer hp (be_id syn) dom cuda_envelope im1;
          im3 = snd (create_buffer (hp\<lparr>bd_generation := StrongGeneration 2\<rparr>) im2);
          lifecycle = (case get_registration (rr_registration hr) im3 of
              None \<Rightarrow> RL_UNREGISTERED | Some r \<Rightarrow> r_lifecycle r);
          can = be_can_register (device_descriptor (cd_device_at rt)) (held_backend (be_id syn) syn im3)
      in report (can \<noteq> '''' \<or> cp_device_remote_register probe \<noteq> CS_SUPPORTED)
           (report (lifecycle = RL_STALE)
             (report (rr_ok hr)
               (report (cp_device_remote_register probe = CS_NOT_SUPPORTED) s))))"

text \<open>The whole program: its six reports and its exit code. Without pinned memory the \<open>memcpy\<close> to it
  is undefined, so a run in which the second checked call fails has no result.\<close>

definition cuda_main :: "'f CudaRuntime \<Rightarrow> (bool list \<times> int) option" where
  "cuda_main rt =
     (if \<not> cd_success rt 1 then None
      else (let s = (ck rt ^^ 5) (cuda_feed rt (cuda_time_copies rt (cuda_check_device rt
                      (cuda_check_pinned rt (cuda_time_kernel rt (cuda_prepare rt (cuda_begin rt)))))))
            in Some (cu_reports s, if cu_fail s = 0 then 0 else 1)))"

section \<open>What the kernel computes\<close>

lemma of_nat_32:
  assumes "m < 2 ^ 31"
  shows "unat (word_of_nat m :: 32 word) = m" and "sint (word_of_nat m :: 32 word) = int m"
proof -
  show "unat (word_of_nat m :: 32 word) = m" using assms by (simp add: unat_of_nat take_bit_nat_eq_self)
  have "sint (word_of_int (int m) :: 32 word) = int m"
    unfolding sint_sbintrunc' using assms by (intro signed_take_bit_int_eq_self) simp_all
  then show "sint (word_of_nat m :: 32 word) = int m" by simp
qed

lemma kernel_index:
  assumes "b < blocks" and "t < threads" and "blocks * threads < 2 ^ 31"
  shows "unat (thread_index (word_of_nat threads) (word_of_nat b) (word_of_nat t)) = b * threads + t"
    and "sint (thread_index (word_of_nat threads) (word_of_nat b) (word_of_nat t)) = int (b * threads + t)"
proof -
  have le: "b * threads + t < blocks * threads"
  proof -
    have "b * threads + t < (b + 1) * threads" using assms(2) by simp
    also have "\<dots> \<le> blocks * threads" using assms(1) by (intro mult_right_mono) simp_all
    finally show ?thesis .
  qed
  have eq: "thread_index (word_of_nat threads) (word_of_nat b) (word_of_nat t) =
      (word_of_nat (b * threads + t) :: 32 word)"
    by (simp add: thread_index_def)
  have small: "b * threads + t < 2 ^ 31" using le assms(3) by linarith
  show "unat (thread_index (word_of_nat threads) (word_of_nat b) (word_of_nat t)) = b * threads + t"
    unfolding eq by (rule of_nat_32(1) [OF small])
  show "sint (thread_index (word_of_nat threads) (word_of_nat b) (word_of_nat t)) = int (b * threads + t)"
    unfolding eq by (rule of_nat_32(2) [OF small])
qed


lemma launch_grid_length [simp]: "length (launch_grid fadd dim a b n order out) = length out"
  unfolding launch_grid_def
  by (induction order arbitrary: out) (simp_all add: add_kernel_def Let_def)

text \<open>Every element that some thread of the order guards and names is computed; the others stay.\<close>

lemma launch_grid_nth:
  assumes "\<And>th. th \<in> set order \<Longrightarrow> sint (thread_index dim (fst th) (snd th)) < sint n \<Longrightarrow>
      unat (thread_index dim (fst th) (snd th)) < length out"
    and "i < length out"
  shows "launch_grid fadd dim a b n order out ! i =
    (if \<exists>th \<in> set order. unat (thread_index dim (fst th) (snd th)) = i \<and>
         sint (thread_index dim (fst th) (snd th)) < sint n
     then fadd (a ! i) (b ! i) else out ! i)"
  using assms unfolding launch_grid_def
proof (induction order arbitrary: out)
  case (Cons th order)
  let ?i = "thread_index dim (fst th) (snd th)"
  have "fold (add_kernel fadd dim a b n) order (add_kernel fadd dim a b n th out) ! i =
      (if \<exists>th \<in> set order. unat (thread_index dim (fst th) (snd th)) = i \<and>
           sint (thread_index dim (fst th) (snd th)) < sint n
       then fadd (a ! i) (b ! i) else add_kernel fadd dim a b n th out ! i)"
    by (rule Cons.IH) (use Cons.prems in \<open>auto simp: add_kernel_def Let_def\<close>)
  moreover have "add_kernel fadd dim a b n th out ! i =
      (if unat ?i = i \<and> sint ?i < sint n then fadd (a ! i) (b ! i) else out ! i)"
    using Cons.prems(2) by (auto simp: add_kernel_def Let_def nth_list_update)
  ultimately show ?case by (auto simp del: fold_simps simp: fold_simps(2))
qed simp

text \<open>The kernel computes the pointwise sum, whatever the order in which the threads of the grid run
  and even if some run twice.\<close>

lemma launch_grid_sums:
  assumes "set order = set (kernel_grid blocks threads)" and "n \<le> blocks * threads"
    and "blocks * threads < 2 ^ 31" and "length out = n" and "length a = n" and "length b = n"
  shows "launch_grid fadd (word_of_nat threads) a b (word_of_nat n) order out = map2 fadd a b"
proof (rule nth_equalityI)
  fix i assume "i < length (launch_grid fadd (word_of_nat threads) a b (word_of_nat n) order out)"
  then have i: "i < n" by (simp add: assms(4))
  have n: "sint (word_of_nat n :: 32 word) = int n" using assms(2,3) by (intro of_nat_32) simp
  have grid: "\<exists>b < blocks. \<exists>t < threads. th = (word_of_nat b, word_of_nat t)" if "th \<in> set order" for th
    using that unfolding assms(1) kernel_grid_def set_product set_map set_upt atLeast0LessThan by blast
  have threads: "0 < threads" using i assms(2) by (cases threads) auto
  have "i div threads < blocks"
    using i assms(2) by (simp add: div_less_iff_less_mult threads)
  moreover have "i mod threads < threads" using threads by simp
  ultimately have mem: "(word_of_nat (i div threads), word_of_nat (i mod threads)) \<in> set order"
    and idx: "unat (thread_index (word_of_nat threads) (word_of_nat (i div threads)) (word_of_nat (i mod threads))) = i"
      "sint (thread_index (word_of_nat threads) (word_of_nat (i div threads)) (word_of_nat (i mod threads))) = int i"
    using kernel_index [of "i div threads" blocks "i mod threads" threads] assms(3)
    unfolding assms(1) by (auto simp: kernel_grid_def)
  have "launch_grid fadd (word_of_nat threads) a b (word_of_nat n) order out ! i = fadd (a ! i) (b ! i)"
  proof (subst launch_grid_nth)
    fix th assume "th \<in> set order" "sint (thread_index (word_of_nat threads) (fst th) (snd th)) < sint (word_of_nat n :: 32 word)"
    with grid [of th] show "unat (thread_index (word_of_nat threads) (fst th) (snd th)) < length out"
      by (auto simp: n assms(4) kernel_index [OF _ _ assms(3)] simp flip: of_nat_mult of_nat_add)
  qed (use i mem idx n in \<open>force simp: assms(4)\<close>)+
  then show "launch_grid fadd (word_of_nat threads) a b (word_of_nat n) order out ! i = map2 fadd a b ! i"
    using i assms(5,6) by simp
qed (simp add: assms)


section \<open>What every run has counted\<close>

definition cu_tallied :: "'f CudaRuntime \<Rightarrow> 'f CudaRun \<Rightarrow> bool" where
  "cu_tallied rt s \<longleftrightarrow>
     (cu_fail s = 0 \<longleftrightarrow> (\<forall>k < cu_calls s. cd_success rt k) \<and> list_all id (cu_reports s))"

lemma ck_fields [simp]:
  "cu_calls (ck rt s) = Suc (cu_calls s)" "cu_launches (ck rt s) = cu_launches s"
  "cu_reports (ck rt s) = cu_reports s" "cu_pinned (ck rt s) = cu_pinned s" "cu_a (ck rt s) = cu_a s"
  "cu_b (ck rt s) = cu_b s" "cu_out (ck rt s) = cu_out s" "cu_dev (ck rt s) = cu_dev s"
  "cu_res (ck rt s) = cu_res s"
  by (simp_all add: ck_def)

lemma ck_fail: "cu_fail (ck rt s) = (if cd_success rt (cu_calls s) then cu_fail s else cu_fail s + 1)"
  by (simp add: ck_def)

lemma launch_fields [simp]:
  "cu_calls (launch_add rt s) = cu_calls s" "cu_reports (launch_add rt s) = cu_reports s"
  "cu_a (launch_add rt s) = cu_a s" "cu_b (launch_add rt s) = cu_b s"
  "cu_pinned (launch_add rt s) = cu_pinned s"
  by (simp_all add: launch_add_def)

lemma report_fields [simp]:
  "cu_calls (report ok s) = cu_calls s" "cu_reports (report ok s) = cu_reports s @ [ok]"
  "cu_out (report ok s) = cu_out s"
  by (simp_all add: report_def)

lemma cu_tallied_ck [simp]: "cu_tallied rt s \<Longrightarrow> cu_tallied rt (ck rt s)"
  by (auto simp: cu_tallied_def less_Suc_eq ck_fail split: if_splits)

lemma cu_tallied_frame [simp]:
  "cu_tallied rt (s\<lparr>cu_pinned := xs\<rparr>) \<longleftrightarrow> cu_tallied rt s" "cu_tallied rt (s\<lparr>cu_a := xs\<rparr>) \<longleftrightarrow> cu_tallied rt s"
  "cu_tallied rt (s\<lparr>cu_b := xs\<rparr>) \<longleftrightarrow> cu_tallied rt s" "cu_tallied rt (s\<lparr>cu_out := xs\<rparr>) \<longleftrightarrow> cu_tallied rt s"
  "cu_tallied rt (s\<lparr>cu_dev := xs\<rparr>) \<longleftrightarrow> cu_tallied rt s" "cu_tallied rt (s\<lparr>cu_res := xs\<rparr>) \<longleftrightarrow> cu_tallied rt s"
  "cu_tallied rt (launch_add rt s) \<longleftrightarrow> cu_tallied rt s"
  by (simp_all add: cu_tallied_def launch_add_def)

lemma cu_tallied_report [simp]: "cu_tallied rt s \<Longrightarrow> cu_tallied rt (report ok s)"
  by (auto simp: cu_tallied_def report_def)

lemma funpow_keeps: "(\<And>s. P s \<Longrightarrow> P (f s)) \<Longrightarrow> P s \<Longrightarrow> P ((f ^^ n) s)"
  by (induction n) simp_all

lemma cu_tallied_funpow [simp]:
  "cu_tallied rt s \<Longrightarrow> cu_tallied rt ((ck rt ^^ n) s)" "cu_tallied rt s \<Longrightarrow> cu_tallied rt ((launch_add rt ^^ n) s)"
  by (rule funpow_keeps; simp)+

lemma ck_funpow_fields [simp]:
  "cu_calls ((ck rt ^^ n) s) = cu_calls s + n" "cu_reports ((ck rt ^^ n) s) = cu_reports s"
  "cu_a ((ck rt ^^ n) s) = cu_a s" "cu_b ((ck rt ^^ n) s) = cu_b s"
  "cu_out ((ck rt ^^ n) s) = cu_out s"
  by (induction n) simp_all

lemma launch_funpow_fields [simp]:
  "cu_calls ((launch_add rt ^^ n) s) = cu_calls s" "cu_reports ((launch_add rt ^^ n) s) = cu_reports s"
  by (induction n) simp_all

lemma timed_copies_fields [simp]:
  "cu_calls (((\<lambda>s. ck_copy rt to_a (cu_pinned s) s) ^^ n) s) = cu_calls s + n"
  "cu_reports (((\<lambda>s. ck_copy rt to_a (cu_pinned s) s) ^^ n) s) = cu_reports s"
  "cu_calls (((\<lambda>s. ck_copy rt to_pinned (cu_out s) s) ^^ n) s) = cu_calls s + n"
  "cu_reports (((\<lambda>s. ck_copy rt to_pinned (cu_out s) s) ^^ n) s) = cu_reports s"
  "cu_tallied rt s \<Longrightarrow> cu_tallied rt (((\<lambda>s. ck_copy rt to_a (cu_pinned s) s) ^^ n) s)"
  "cu_tallied rt s \<Longrightarrow> cu_tallied rt (((\<lambda>s. ck_copy rt to_pinned (cu_out s) s) ^^ n) s)"
  by (induction n) (simp_all add: ck_copy_def)

lemmas cuda_steps = cuda_prepare_def cuda_time_kernel_def cuda_check_pinned_def cuda_check_device_def
  ck_copy_def ck_alloc_def Let_def

lemma cuda_time_copies_counts [simp]:
  "cu_calls (cuda_time_copies rt s) = cu_calls s + 52" "cu_reports (cuda_time_copies rt s) = cu_reports s"
  "cu_tallied rt s \<Longrightarrow> cu_tallied rt (cuda_time_copies rt s)"
  by (simp_all add: cuda_time_copies_def Let_def)

lemma cuda_steps_tallied:
  "cu_tallied rt (cuda_begin rt)"
  "cu_tallied rt s \<Longrightarrow> cu_tallied rt (cuda_prepare rt s)" "cu_tallied rt s \<Longrightarrow> cu_tallied rt (cuda_time_kernel rt s)"
  "cu_tallied rt s \<Longrightarrow> cu_tallied rt (cuda_check_pinned rt s)" "cu_tallied rt s \<Longrightarrow> cu_tallied rt (cuda_check_device rt s)"
  "cu_tallied rt s \<Longrightarrow> cu_tallied rt (cuda_feed rt s)"
  by (simp_all add: cuda_steps cuda_feed_def split_def cuda_begin_def)
     (simp add: cu_tallied_def ck_fail)

lemma cuda_steps_counts [simp]:
  "cu_calls (cuda_begin rt) = 1" "cu_calls (cuda_prepare rt s) = cu_calls s + 7"
  "cu_calls (cuda_time_kernel rt s) = cu_calls s + 9" "cu_calls (cuda_check_pinned rt s) = cu_calls s + 1"
  "cu_calls (cuda_check_device rt s) = cu_calls s + 3"
  "cu_calls (cuda_feed rt s) = cu_calls s"
  "cu_reports (cuda_begin rt) = []" "cu_reports (cuda_prepare rt s) = cu_reports s"
  "cu_reports (cuda_time_kernel rt s) = cu_reports s"
  by (simp_all add: cuda_steps cuda_feed_def split_def cuda_begin_def)


section \<open>The reports about the registry\<close>

text \<open>The probe never claims that memory can be registered for remote access.\<close>

lemma probe_never_supported:
  "cp_device_remote_register (probe_cuda_capabilities count properties) \<noteq> CS_SUPPORTED"
  "cp_host_pinned_remote_register (probe_cuda_capabilities count properties) \<noteq> CS_SUPPORTED"
  by (simp_all add: probe_cuda_capabilities_def Let_def split: option.split)

definition cuda_usable :: "'f CudaRuntime \<Rightarrow> bool" where
  "cuda_usable rt \<longleftrightarrow> (\<exists>c > 0. cd_count rt = Some c) \<and> cd_properties rt \<noteq> None"

lemma probe_not_supported_iff:
  "cp_device_remote_register (probe_cuda_capabilities (cd_count rt) (cd_properties rt)) = CS_NOT_SUPPORTED
     \<longleftrightarrow> cuda_usable rt"
  by (auto simp: probe_cuda_capabilities_def cuda_usable_def Let_def split: option.split)

text \<open>The pinned memory can be registered when it is on a page boundary and ends below \<open>2^64\<close>.\<close>

definition pinned_registrable :: "u64 \<Rightarrow> bool" where
  "pinned_registrable p \<longleftrightarrow> 4096 dvd unat p \<and> unat p + 2 ^ 22 < 2 ^ 64"

lemma pinned_descriptor_fields [simp]:
  "bd_id (pinned_descriptor p) = StrongId 1" "bd_generation (pinned_descriptor p) = StrongGeneration 1"
  "bd_byte_length (pinned_descriptor p) = 4194304" "bd_alignment (pinned_descriptor p) = 4096"
  "bd_domain (pinned_descriptor p) = MD_SYNTHETIC_REMOTE_CAPABLE"
  "bp_address (bd_base (pinned_descriptor p)) = p"
  "bd_requested_access (pinned_descriptor p) = access_mask AR_REMOTE_READ OR access_mask AR_REMOTE_WRITE"
  by (simp_all add: pinned_descriptor_def cuda_bytes_def cuda_n_def)

lemma pinned_can_register:
  "syn_can_register (pinned_descriptor p) (syn_create seed) = '''' \<longleftrightarrow> pinned_registrable p"
proof -
  have "bv_ok (validate_range (pinned_descriptor p)) \<longleftrightarrow> pinned_registrable p"
    unfolding validate_range_ok_iff pinned_registrable_def by simp
  then show ?thesis
    unfolding syn_can_register_ok
    by (simp add: domain_supported_def syn_capabilities_def)
       (simp add: syn_create_def access_has_def)
qed

lemma cuda_scene:
  "create_protection_domain (StrongId 1) (StrongId 1)
     (set_authority cuda_snapshot (snd (add_backend (Some (SyntheticObj (syn_create 99))) new_impl))) =
   scene_start 99"
  "cuda_envelope = envelope 1 1"
  by (simp_all add: scene_start_def cuda_snapshot_def snapshot_def cuda_envelope_def envelope_def)

lemma reallocation_makes_stale:
  assumes "bd_id d = StrongId 1" and "bd_generation d = StrongGeneration 1"
  shows "map_option r_lifecycle (get_registration (StrongId 1)
      (snd (create_buffer (d\<lparr>bd_generation := StrongGeneration 2\<rparr>) (scene_registered seed d)))) = Some RL_STALE"
  using assms
  by (simp add: create_buffer_def get_registration_def Let_def split_def reallocated_reg_def is_live_def)

lemma cuda_feed_reports:
  "cu_reports (cuda_feed rt s) =
     cu_reports s @ [cuda_usable rt, pinned_registrable (cd_pinned_at rt),
       pinned_registrable (cd_pinned_at rt), True]"
proof -
  let ?hp = "pinned_descriptor (cd_pinned_at rt)"
  have reg: "register_buffer ?hp scene_bid (fst (scene_start 99)) (envelope 1 1)
      (snd (create_buffer ?hp (snd (scene_start 99)))) = scene_register 99 ?hp"
    by (simp add: scene_register_def)
  have unsup: "cp_device_remote_register (probe_cuda_capabilities (cd_count rt) (cd_properties rt)) \<noteq> CS_SUPPORTED"
    by (rule probe_never_supported)
  show ?thesis
  proof (cases "pinned_registrable (cd_pinned_at rt)")
    case True
    then have can: "syn_can_register ?hp (syn_create 99) = ''''" by (simp add: pinned_can_register)
    have valid: "id_valid (bd_id ?hp)" by simp
    obtain r where r: "get_registration (StrongId 1) (snd (create_buffer
        (?hp\<lparr>bd_generation := StrongGeneration 2\<rparr>) (scene_registered 99 ?hp))) = Some r"
      "r_lifecycle r = RL_STALE"
      using reallocation_makes_stale [of ?hp 99] by auto
    show ?thesis
      using scene_registration [OF can valid] True unsup r
      by (simp add: cuda_feed_def cuda_scene reg split_def Let_def probe_not_supported_iff)
  next
    case False
    then have can: "syn_can_register ?hp (syn_create 99) \<noteq> ''''" by (simp add: pinned_can_register)
    have valid: "id_valid (bd_id ?hp)" by simp
    have none: "get_registration i (snd (create_buffer (?hp\<lparr>bd_generation := StrongGeneration 2\<rparr>) (scene_created 99 ?hp))) = None" for i
      by (simp add: create_buffer_def get_registration_def Let_def split_def)
    show ?thesis
      using scene_refused [OF can valid] False unsup
      by (simp add: cuda_feed_def cuda_scene reg split_def Let_def probe_not_supported_iff none)
  qed
qed


section \<open>When the program passes\<close>

text \<open>A faithful device: every launch runs the threads of its grid, in some order, and memory has
  the size that was asked for.\<close>

definition cuda_faithful :: "'f CudaRuntime \<Rightarrow> bool" where
  "cuda_faithful rt \<longleftrightarrow>
     (\<forall>l. set (cd_order rt l) = set (kernel_grid cuda_blocks cuda_threads)) \<and>
     (\<forall>k. length (cd_left rt k) = cuda_n)"

abbreviation cuda_sums :: "'f CudaRuntime \<Rightarrow> 'f list" where
  "cuda_sums rt \<equiv> map2 (cd_plus rt) (h_ref rt) (h_ref rt)"

definition loaded :: "'f CudaRuntime \<Rightarrow> 'f CudaRun \<Rightarrow> bool" where
  "loaded rt s \<longleftrightarrow> cu_a s = h_ref rt \<and> cu_b s = h_ref rt \<and> length (cu_out s) = cuda_n"

lemma h_ref_length [simp]: "length (h_ref rt) = cuda_n"
  by (simp add: h_ref_def)

lemma launch_loaded:
  assumes "cuda_faithful rt" and "loaded rt s"
  shows "loaded rt (launch_add rt s)" and "cu_out (launch_add rt s) = cuda_sums rt"
proof -
  have "launch_grid (cd_plus rt) (word_of_nat cuda_threads) (h_ref rt) (h_ref rt) (word_of_nat cuda_n)
      (cd_order rt (cu_launches s)) (cu_out s) = cuda_sums rt"
    by (rule launch_grid_sums [where blocks = cuda_blocks])
      (use assms in \<open>simp_all add: cuda_faithful_def loaded_def\<close>,
       simp_all add: cuda_blocks_def cuda_threads_def cuda_n_def)
  with assms(2) show "loaded rt (launch_add rt s)" "cu_out (launch_add rt s) = cuda_sums rt"
    by (simp_all add: launch_add_def loaded_def)
qed

lemma parity_sums: "parity rt (cuda_sums rt)"
  by (simp add: parity_def list_all_iff)


lemma prepared:
  assumes "cuda_faithful rt" and "\<And>k. k < 78 \<Longrightarrow> cd_success rt k" and "cu_calls s = 1"
  shows "loaded rt (cuda_prepare rt s)" and "cu_out (cuda_prepare rt s) = cuda_sums rt"
proof -
  obtain s4 where s4: "cuda_prepare rt s = ck rt (launch_add rt s4)" and "loaded rt s4"
  proof
    let ?s1 = "to_pinned (h_ref rt) (ck_alloc rt to_pinned s)"
    let ?s2 = "ck_alloc rt to_out (ck_alloc rt to_b (ck_alloc rt to_a ?s1))"
    let ?s3 = "ck_copy rt to_a (cu_pinned ?s2) ?s2"
    show "cuda_prepare rt s = ck rt (launch_add rt (ck_copy rt to_b (h_ref rt) ?s3))"
      by (simp add: cuda_prepare_def Let_def)
    show "loaded rt (ck_copy rt to_b (h_ref rt) ?s3)"
      using assms by (simp add: loaded_def ck_copy_def ck_alloc_def cuda_faithful_def)
  qed
  with launch_loaded [OF assms(1)] show "loaded rt (cuda_prepare rt s)" "cu_out (cuda_prepare rt s) = cuda_sums rt"
    by (simp_all add: loaded_def)
qed

lemma timed:
  assumes "cuda_faithful rt" and "loaded rt s"
  shows "loaded rt (cuda_time_kernel rt s)" and "cu_out (cuda_time_kernel rt s) = cuda_sums rt"
proof -
  let ?s1 = "(ck rt ^^ 3) s"
  have "loaded rt ?s1" using assms(2) by (simp add: loaded_def)
  then have nine: "loaded rt ((launch_add rt ^^ 9) ?s1)"
    by (rule funpow_keeps [rotated]) (rule launch_loaded [OF assms(1)])
  have ten: "(launch_add rt ^^ 10) ?s1 = launch_add rt ((launch_add rt ^^ 9) ?s1)"
    by (simp add: numeral_eq_Suc)
  from launch_loaded [OF assms(1) nine] show "loaded rt (cuda_time_kernel rt s)"
    and "cu_out (cuda_time_kernel rt s) = cuda_sums rt"
    unfolding cuda_time_kernel_def Let_def ten by (simp_all add: loaded_def)
qed

lemma pinned_checked:
  assumes "cd_success rt (cu_calls s)" and "cu_out s = cuda_sums rt"
  shows "cu_reports (cuda_check_pinned rt s) = cu_reports s @ [True]"
    and "cu_out (cuda_check_pinned rt s) = cuda_sums rt"
proof -
  have "map (\<lambda>i. cuda_sums rt ! i) [0..<cuda_n] = cuda_sums rt"
    by (rule nth_equalityI) simp_all
  then show "cu_reports (cuda_check_pinned rt s) = cu_reports s @ [True]"
    and "cu_out (cuda_check_pinned rt s) = cuda_sums rt"
    using assms parity_sums [of rt] by (simp_all add: cuda_check_pinned_def ck_copy_def Let_def)
qed

lemma device_checked:
  assumes "cd_success rt (cu_calls s + 1)" and "cd_success rt (cu_calls s + 2)" and "cu_out s = cuda_sums rt"
  shows "cu_reports (cuda_check_device rt s) = cu_reports s @ [True]"
  using assms parity_sums [of rt] by (simp add: cuda_check_device_def ck_copy_def ck_alloc_def Let_def)


definition cuda_measured :: "'f CudaRuntime \<Rightarrow> 'f CudaRun" where
  "cuda_measured rt =
     cuda_check_device rt (cuda_check_pinned rt (cuda_time_kernel rt (cuda_prepare rt (cuda_begin rt))))"

lemma measured_reports:
  assumes "cuda_faithful rt" and "\<And>k. k < 78 \<Longrightarrow> cd_success rt k"
  shows "cu_reports (cuda_measured rt) = [True, True]"
proof -
  let ?s1 = "cuda_time_kernel rt (cuda_prepare rt (cuda_begin rt))"
  have out: "cu_out ?s1 = cuda_sums rt"
    by (rule timed(2) [OF assms(1) prepared(1) [OF assms]]) simp_all
  have pinned: "cu_reports (cuda_check_pinned rt ?s1) = [True]"
    "cu_out (cuda_check_pinned rt ?s1) = cuda_sums rt"
    using pinned_checked [of rt ?s1] out assms(2) by simp_all
  show ?thesis
    unfolding cuda_measured_def using device_checked [of rt "cuda_check_pinned rt ?s1"] pinned assms(2) by simp
qed

lemma cuda_main_eq:
  fixes rt :: "'a CudaRuntime"
  assumes "cd_success rt 1"
  obtains s :: "'a CudaRun" where "cuda_main rt = Some (cu_reports s, if cu_fail s = 0 then 0 else 1)"
    "cu_reports s = cu_reports (cuda_measured rt) @
       [cuda_usable rt, pinned_registrable (cd_pinned_at rt), pinned_registrable (cd_pinned_at rt), True]"
    "cu_fail s = 0 \<longleftrightarrow> (\<forall>k < 78. cd_success rt k) \<and> list_all id (cu_reports s)"
proof -
  let ?s = "(ck rt ^^ 5) (cuda_feed rt (cuda_time_copies rt (cuda_measured rt)))"
  have "cuda_main rt = Some (cu_reports ?s, if cu_fail ?s = 0 then 0 else 1)"
    using assms by (simp add: cuda_main_def cuda_measured_def Let_def)
  moreover have "cu_reports ?s = cu_reports (cuda_measured rt) @
      [cuda_usable rt, pinned_registrable (cd_pinned_at rt), pinned_registrable (cd_pinned_at rt), True]"
    by (simp add: cuda_feed_reports)
  moreover have "cu_tallied rt ?s" by (simp add: cuda_measured_def cuda_steps_tallied)
  moreover have "cu_calls ?s = 78" by (simp add: cuda_measured_def)
  ultimately show thesis by (intro that [of ?s]) (simp_all add: cu_tallied_def)
qed

text \<open>C36. The CUDA proof means what it prints. On a device that runs the threads of every launch, in
  whatever order, the program exits with zero exactly when all 78 checked calls succeed, the probe
  finds a usable device, and the pinned memory lies on a page boundary and ends below \<open>2^64\<close>; when
  the calls succeed the two parity checks pass, since the kernel computes the pointwise sum. It has
  no result exactly when the pinned memory was not allocated, and its last report passes in every
  run.\<close>

theorem cuda_proof_passes_iff:
  fixes rt :: "'a CudaRuntime"
  assumes "cuda_faithful rt"
  shows "(cuda_main rt = None \<longleftrightarrow> \<not> cd_success rt 1) \<and>
    ((\<exists>reports. cuda_main rt = Some (reports, 0)) \<longleftrightarrow>
      (\<forall>k < 78. cd_success rt k) \<and> cuda_usable rt \<and> pinned_registrable (cd_pinned_at rt)) \<and>
    ((\<forall>k < 78. cd_success rt k) \<longrightarrow>
      map_option fst (cuda_main rt) =
        Some [True, True, cuda_usable rt, pinned_registrable (cd_pinned_at rt),
          pinned_registrable (cd_pinned_at rt), True]) \<and>
    (\<forall>reports code. cuda_main rt = Some (reports, code) \<longrightarrow> last reports)"
proof (cases "cd_success rt 1")
  case True
  obtain s :: "'a CudaRun" where s: "cuda_main rt = Some (cu_reports s, if cu_fail s = 0 then 0 else 1)"
    "cu_reports s = cu_reports (cuda_measured rt) @
       [cuda_usable rt, pinned_registrable (cd_pinned_at rt), pinned_registrable (cd_pinned_at rt), True]"
    "cu_fail s = 0 \<longleftrightarrow> (\<forall>k < 78. cd_success rt k) \<and> list_all id (cu_reports s)"
    by (rule cuda_main_eq [OF True])
  have both: "(\<forall>k < 78. cd_success rt k) \<longrightarrow> cu_reports (cuda_measured rt) = [True, True]"
    using measured_reports [OF assms] by blast
  show ?thesis
    using True both by (cases "\<forall>k < 78. cd_success rt k") (auto simp: s)
next
  case False
  then have "\<not> (\<forall>k < 78. cd_success rt k)" by (auto intro: exI [of _ "1 :: nat"])
  moreover have "cuda_main rt = None" using False by (simp add: cuda_main_def)
  ultimately show ?thesis using False by auto
qed

text \<open>A device that runs the threads in the order of the grid, with integers for floats.\<close>

definition demo_cuda :: "int CudaRuntime" where
  "demo_cuda =
     \<lparr>cd_success = \<lambda>k. True, cd_left = \<lambda>k. replicate cuda_n 0,
      cd_order = \<lambda>l. kernel_grid cuda_blocks cuda_threads, cd_float = int, cd_plus = (+),
      cd_pinned_at = 0x7F0000000000, cd_device_at = 0x7F1000000000, cd_count = Some 1,
      cd_properties = Some (12, 0, ''RTX 5090'')\<rparr>"

theorem cuda_proof_passes_iff_witness: "\<exists>reports. cuda_main demo_cuda = Some (reports, 0)"
proof -
  have "cuda_faithful demo_cuda" by (simp add: cuda_faithful_def demo_cuda_def)
  moreover have "cuda_usable demo_cuda" "pinned_registrable (cd_pinned_at demo_cuda)"
    by (simp_all add: cuda_usable_def pinned_registrable_def demo_cuda_def)
  ultimately show ?thesis using cuda_proof_passes_iff [of demo_cuda] by (simp add: demo_cuda_def)
qed

end
