(* ===== verification/Examples.thy ===== *)
theory Examples
  imports Scenario Cli System
begin

text \<open>
  The example programs (\<open>examples/01_buffer_identity.cpp\<close> to \<open>15_explain_access.cpp\<close>). A program is
  the lines it prints and its exit code; the registry, the backends and the file format are the
  models of the other theories. \<open>examples_print\<close> states what they print. Example 02 asks the pinning
  probe of the portable build; the Windows build is in \<open>HostMemory\<close>.
\<close>

section \<open>The programs\<close>

definition generation_newer :: "'tag StrongGeneration \<Rightarrow> 'tag StrongGeneration \<Rightarrow> bool" where
  "generation_newer lhs rhs \<longleftrightarrow> gen_value lhs > gen_value rhs"

text \<open>\<open>make_buffer(1, 1, SYNTHETIC_REMOTE_CAPABLE, 4096, access)\<close>, and the two masks it is called with.\<close>

definition example_buffer :: "AccessMask \<Rightarrow> BufferDescriptor" where
  "example_buffer access = make_buffer 1 1 MD_SYNTHETIC_REMOTE_CAPABLE 4096 access"

abbreviation writes :: AccessMask where
  "writes \<equiv> access_mask AR_REMOTE_WRITE"

abbreviation reads_writes :: AccessMask where
  "reads_writes \<equiv> access_mask AR_REMOTE_READ OR access_mask AR_REMOTE_WRITE"

definition example_request ::
    "RegistrationId \<Rightarrow> u64 \<Rightarrow> AuthorityEnvelope \<Rightarrow> ProtectionDomainId \<Rightarrow> RemoteAccessRequest" where
  "example_request reg len env pd =
     \<lparr>q_transfer_id = no_id, q_source_registration = reg, q_offset = 0, q_length = len,
      q_kind = OP_WRITE, q_required_rights = access_mask AR_REMOTE_WRITE,
      q_expected_buffer_generation = StrongGeneration 1,
      q_expected_registration_generation = StrongGeneration 1,
      q_expected_remote_key_generation = StrongGeneration 1, q_attempt = no_id, q_dispatch = no_id,
      q_authority = env, q_domain = pd, q_backend = be_id (SyntheticObj (syn_create 1)),
      q_transport = no_id, q_nic = no_id, q_process = StrongId 1, q_node = StrongId 1, q_sim_seed = 0\<rparr>"

text \<open>\<open>BufferId\<close> and \<open>RegistrationId\<close> are different types, and neither converts to the other.\<close>

definition example_01 :: "string list \<times> int" where
  "example_01 =
     ([msg ''BufferId=7 RegistrationId(7) equal types='' @ bit_text False @ msg '' interchangeable='' @
         bit_text False,
       msg ''buffer generation 7 < 8: '' @
         bit_text (generation_newer (StrongGeneration 8 :: BufferGeneration) (StrongGeneration 7)),
       msg ''authority is incarnation-scoped: fresh boot must never be fenced by a stale boot's higher generation.''],
      0)"

definition example_02 :: "bool \<Rightarrow> string list \<times> int" where
  "example_02 allocated =
     (let p = ref_probe_host_pinning allocated (push_bit 20 1)
      in ([msg ''host-pin probe: ok='' @ bit_text (pp_ok p) @ msg '' committed='' @
             bit_text (pp_allocation_committed p) @ msg '' locked='' @ bit_text (pp_locked p) @
             msg '' bytes='' @ int_to_str (pp_bytes p) @ msg '' provenance='' @
             provenance_name (pp_provenance p) @ msg '' detail='' @ pp_detail p,
           msg ''honest note: host pinning proves memory preparation, not RNIC registration.''],
          0))"

text \<open>\<open>RegistrationRecord rec; rt.get_registration(id, rec)\<close>, by the members that are printed: their
  values in a record that was not found are the defaults.\<close>

definition lifecycle_of :: "RegistrationId \<Rightarrow> Impl \<Rightarrow> RegistrationLifecycle \<times> Freshness \<times> Provenance" where
  "lifecycle_of i rt =
     (case get_registration i rt of
        None \<Rightarrow> (RL_UNREGISTERED, FR_UNKNOWN, PV_UNKNOWN)
      | Some r \<Rightarrow> (r_lifecycle r, r_freshness r, r_provenance r))"

definition key_generation_of :: "RegistrationId \<Rightarrow> Impl \<Rightarrow> u64" where
  "key_generation_of i rt =
     (case get_registration i rt of
        None \<Rightarrow> 0 | Some r \<Rightarrow> gen_value (rk_key_generation (r_remote_key r)))"

definition example_03 :: "string list \<times> int" where
  "example_03 =
     (let (r, rt) = scene_register 1 (example_buffer reads_writes);
          (lifecycle, freshness, provenance) = lifecycle_of (rr_registration r) rt
      in ([msg ''lifecycle: '' @ lifecycle_name lifecycle @ msg '' freshness='' @
             freshness_name freshness @ msg '' provenance='' @ provenance_name provenance],
          if rr_ok r then 0 else 1))"

definition example_04 :: "string list \<times> int" where
  "example_04 =
     (let d = example_buffer writes;
          rt = snd (scene_register 1 d);
          bid = be_id (SyntheticObj (syn_create 1));
          pd = fst (scene_start 1);
          name = (\<lambda>r. if rr_ok r then ''REUSE_HIT'' else ''REUSE_MISS'');
          (reuse, rt1) = register_buffer_reuse d bid pd (envelope 1 1) rt;
          miss = fst (register_buffer_reuse (d\<lparr>bd_generation := StrongGeneration 2\<rparr>) bid pd (envelope 1 1) rt1)
      in ([msg ''reuse='' @ name reuse @ msg '' explanation='' @ rr_explanation reuse,
           msg ''bumped generation reuse='' @ name miss @ msg '' explanation='' @ rr_explanation miss], 0))"

text \<open>Examples 05, 07, 10 and 15 register and then ask for one access.\<close>

definition example_access ::
    "AccessMask \<Rightarrow> u64 \<Rightarrow> AuthorityEnvelope \<Rightarrow> ProtectionDomainId \<Rightarrow> RemoteAccessRequest \<times> AccessDecision" where
  "example_access access len env pd =
     (let (r, rt) = scene_register 1 (example_buffer access);
          q = example_request (rr_registration r) len env pd
      in (q, fst (validate_remote_access q rt)))"

definition example_05 :: "string list \<times> int" where
  "example_05 =
     (let d = snd (example_access reads_writes 8 (envelope 1 1) (fst (scene_start 1)))
      in ([msg ''remote write='' @ ad_code d @ msg '' explanation='' @ ad_explanation d], 0))"

definition example_06 :: "string list \<times> int" where
  "example_06 =
     (let (r, rt) = scene_register 1 (example_buffer writes);
          ((ok, ex), rt1) = rotate_key (rr_registration r) rt
      in ([msg ''key generation '' @ int_to_str (key_generation_of (rr_registration r) rt) @ msg '' -> '' @
             int_to_str (key_generation_of (rr_registration r) rt1) @ msg '' (old key now stale)'', ex], 0))"

definition example_07 :: "string list \<times> int" where
  "example_07 =
     (let d = snd (example_access reads_writes 4 (envelope 1 1) (StrongId 999))
      in ([msg ''cross-domain access='' @ ad_code d @ msg '' explanation='' @ ad_explanation d], 0))"

text \<open>The second call of \<open>release_lease\<close> stands in the same argument list as the counter; it changes
  nothing, so the order in which the two are evaluated does not matter.\<close>

definition example_08 :: "string list \<times> int" where
  "example_08 =
     (let (r, rt) = scene_register 1 (example_buffer writes);
          (lr, rt1) = acquire_lease (rr_registration r) (envelope 1 1) writes rt;
          rt2 = snd (release_lease (l_id (la_lease lr)) rt1)
      in ([msg ''lease acquired='' @ bit_text (la_ok lr) @ msg '' count='' @
             int_to_str (a_active_leases (im_acct rt1)),
           msg ''lease released count='' @ int_to_str (a_active_leases (im_acct rt2)) @
             msg '' duplicate='' @ bit_text (fst (release_lease (l_id (la_lease lr)) rt2))], 0))"

definition example_09 :: "string list \<times> int" where
  "example_09 =
     (let (r, rt) = scene_register 1 (example_buffer writes);
          rz = fst (revoke (rr_registration r) RV_HARD_REVOKE rt)
      in ([msg ''hard revoke ok='' @ bit_text (rv_ok rz) @ msg '' keys='' @
             bit_text (rv_keys_invalidated rz) @ msg '' lifecycle='' @ lifecycle_name (rv_lifecycle rz) @
             msg '' explanation='' @ rv_explanation rz], 0))"

definition example_10 :: "string list \<times> int" where
  "example_10 =
     (let d = snd (example_access writes 4 (envelope 99 1) (fst (scene_start 1)))
      in ([msg ''stale authority access='' @ ad_code d @ msg '' explanation='' @ ad_explanation d], 0))"

text \<open>The second registry gets the same backend object, which holds the registration.\<close>

definition example_11 :: "FileOutcome \<Rightarrow> files \<Rightarrow> string list \<times> int" where
  "example_11 os fs =
     (let path = ''rdma-buffer-example.bin'';
          rt = snd (scene_register 1 (example_buffer writes));
          fs1 = snd (save path os rt fs);
          rt2 = set_authority (snapshot 1 1)
            (snd (add_backend (map_of (im_backends rt) (be_id (SyntheticObj (syn_create 1)))) new_impl));
          ((ok, err, rep), rt3) = recover (fs1 path) default_report rt2;
          found = List.map_filter (\<lambda>i. get_registration i rt3) (registrations rt3)
      in (map (\<lambda>r. msg ''recovered registration lifecycle='' @ lifecycle_name (r_lifecycle r) @
                 msg '' freshness='' @ freshness_name (r_freshness r) @ msg '' (not live)'') found @
          [msg ''recovered registrations='' @ int_to_str (rp_recovered_registrations rep) @
             msg '' any='' @ bit_text (found \<noteq> [])], 0))"

text \<open>\<open>None\<close> where \<open>simulate_remote\<close> does not return.\<close>

definition example_12 :: "(string list \<times> int) option" where
  "example_12 =
     (let rt = snd (scene_register 7 (example_buffer writes))
      in case map_of (im_backends rt) (be_id (SyntheticObj (syn_create 7))) of
           Some (SyntheticObj b) \<Rightarrow>
             map_option (\<lambda>(oc, ex, delta).
               ([msg ''synthetic remote write='' @ access_outcome_name oc @ msg '' delta='' @
                   int_to_str delta @ msg '' provenance=SYNTHETIC ('' @ ex @ msg '')''], 0))
               (syn_simulate_remote OP_WRITE 0 64 1 b)
         | _ \<Rightarrow> None)"

definition example_13 :: "string list \<times> int" where
  "example_13 =
     ([msg ''The multiprocess restart proof is run by rdma-buffer-coordinator --scenario with worker OS processes.'',
       msg ''A fresh WorkerBootId + CoordinatorEpoch never fence a fresh incarnation.''], 0)"

definition example_14 :: "string list \<times> int" where
  "example_14 =
     (let can = syn_can_register (make_buffer 1 1 MD_CUDA_DEVICE 4096 writes) (syn_create 1)
      in ([msg ''CUDA_DEVICE remote_registration=UNSUPPORTED ('' @ (if can = '''' then ''UNKNOWN'' else can) @ msg '')'',
           msg ''honest note: CUDA device memory is not claimed as RDMA-registerable without a physical backend.''],
          0))"

definition example_15 :: "string list \<times> int" where
  "example_15 =
     (let (q, d) = example_access reads_writes 8 (envelope 1 1) (fst (scene_start 1))
      in ([explain_remote_access q d,
           explain_backend_capability (syn_capabilities (syn_create 1)) MD_SYNTHETIC_REMOTE_CAPABLE writes], 0))"


section \<open>What they print\<close>

lemma small_numbers:
  "int_to_str 0 = ''0''" "int_to_str 1 = ''1''" "int_to_str 2 = ''2''" "int_to_str 8 = ''8''"
  "int_to_str 99 = ''99''"
  by (code_simp)+

lemma example_buffer_fields [simp]:
  "bd_id (example_buffer a) = StrongId 1" "bd_generation (example_buffer a) = StrongGeneration 1"
  "bd_domain (example_buffer a) = MD_SYNTHETIC_REMOTE_CAPABLE"
  "bd_byte_length (example_buffer a) = 4096" "bd_requested_access (example_buffer a) = a"
  "bd_alignment (example_buffer a) = 4096" "bp_address (bd_base (example_buffer a)) = 4096"
  by (simp_all add: example_buffer_def make_buffer_def)

lemma example_can_register:
  "\<not> access_has a AR_REMOTE_ATOMIC \<Longrightarrow> syn_can_register (example_buffer a) (syn_create seed) = ''''"
  by (simp add: syn_can_register_ok validate_range_ok_iff domain_supported_def syn_capabilities_def)
    (simp add: syn_create_def)

lemma no_atomic: "\<not> access_has 8 AR_REMOTE_ATOMIC" "\<not> access_has 12 AR_REMOTE_ATOMIC"
  by (simp_all add: access_has_def)

lemma example_registers:
  assumes "\<not> access_has a AR_REMOTE_ATOMIC"
  obtains rr where "scene_register seed (example_buffer a) = (rr, scene_registered seed (example_buffer a))"
    "rr_ok rr" "rr_registration rr = StrongId 1"
  by (rule scene_registers [OF example_can_register [OF assms], of seed]) (simp, blast)

lemma scene_authority [simp]: "ad_outcome (validate_authority (snapshot 1 1) (envelope 1 1)) = AO_ALLOW"
  using snapshot_agrees by (simp add: validate_authority_allow_iff)

lemma scene_no_leases [simp]: "a_active_leases (im_acct (scene_registered seed d)) = 0"
  by (simp add: scene_registered_def registered_impl_def account_registration_commit_def
      scene_created_def zero_accounting_def)

lemma prints_03: "example_03 = ([''lifecycle: ACTIVE freshness=VALID provenance=SYNTHETIC''], 0)"
  by (rule example_registers [OF no_atomic(2), of 1])
    (simp add: example_03_def lifecycle_of_def msg_def)

lemma prints_06:
  "example_06 = ([''key generation 1 -> 2 (old key now stale)'', ''remote key rotated to generation 2''], 0)"
  by (rule example_registers [OF no_atomic(1), of 1])
    (simp add: example_06_def key_generation_of_def rotate_key_def rotated_reg_def get_registration_def
      gen_next_def small_numbers Let_def split_def msg_def)

lemma prints_08:
  "example_08 = ([''lease acquired=1 count=1'', ''lease released count=0 duplicate=0''], 0)"
  by (rule example_registers [OF no_atomic(1), of 1])
    (simp add: example_08_def acquire_lease_def release_lease_def new_lease_def small_numbers
      bit_text_def access_superset_def increment_def decr_def decrement_def Let_def msg_def)

lemma prints_09:
  "example_09 = ([''hard revoke ok=1 keys=1 lifecycle=REVOKED explanation=registration 1 HARD_REVOKE revoke; lifecycle=REVOKED keys_invalidated=true reason=hard revoke''], 0)"
  by (rule example_registers [OF no_atomic(1), of 1])
    (simp add: example_09_def revoke_def hard_revoked_reg_def explain_revocation_def small_numbers
      bit_text_def bool_text_def Let_def split_def msg_def)


text \<open>The four examples that ask for an access.\<close>

definition scene_decision :: "AccessMask \<Rightarrow> RemoteAccessRequest \<Rightarrow> AccessDecision" where
  "scene_decision a q = fst (validate_remote_access q (scene_registered 1 (example_buffer a)))"

lemma example_access_eq:
  assumes "\<not> access_has a AR_REMOTE_ATOMIC"
  shows "example_access a len env pd =
    (example_request (StrongId 1) len env pd, scene_decision a (example_request (StrongId 1) len env pd))"
  by (rule example_registers [OF assms, of 1]) (simp add: example_access_def scene_decision_def Let_def)

lemma current_access_allowed:
  "ad_outcome (scene_decision 12 (example_request (StrongId 1) 8 (envelope 1 1) (StrongId 1))) = AO_ALLOW"
proof -
  obtain rr where rr: "scene_register 1 (example_buffer 12) =
      (rr, scene_registered 1 (example_buffer 12))" "rr_ok rr" "rr_registration rr = StrongId 1"
    by (rule example_registers [OF no_atomic(2)])
  have call: "register_buffer (example_buffer 12) scene_bid (StrongId 1) (envelope 1 1)
      (scene_created 1 (example_buffer 12)) = (rr, scene_registered 1 (example_buffer 12))"
    using rr(1) scene_call [of "example_buffer 12" 1] by simp
  show ?thesis
    using registered_access [OF call rr(2), of "example_request (StrongId 1) 8 (envelope 1 1) (StrongId 1)"]
      snapshot_agrees
    by (auto simp: scene_decision_def rr(3) example_request_def expects_def names_id_def
        access_superset_def access_has_def intrinsic_right_def)
qed

lemma current_access:
  "scene_decision 12 (example_request (StrongId 1) 8 (envelope 1 1) (StrongId 1)) =
     \<lparr>ad_outcome = AO_ALLOW, ad_code = ''ALLOW'', ad_explanation = ''remote WRITE allowed''\<rparr>"
  using allowed_explanation [of "example_request (StrongId 1) 8 (envelope 1 1) (StrongId 1)"
      "scene_registered 1 (example_buffer 12)"] current_access_allowed
  by (simp add: says_def scene_decision_def make_decision_def example_request_def msg_def)

lemma foreign_domain:
  "scene_decision 12 (example_request (StrongId 1) 4 (envelope 1 1) (StrongId 999)) =
     make_decision AO_REJECT_DOMAIN (msg ''protection domain mismatch'')"
  unfolding scene_decision_def validate_remote_access_def
  by (simp add: example_request_def scene_backend_def) (simp add: syn_create_def)

lemma stale_epoch:
  "scene_decision 8 (example_request (StrongId 1) 4 (envelope 99 1) (StrongId 1)) =
     make_decision AO_REJECT_STALE_EPOCH
       (msg ''CoordinatorEpoch mismatch: request 99 is not current 1.'')"
  unfolding scene_decision_def validate_remote_access_def
  by (simp add: example_request_def validate_authority_def envelope_def snapshot_def small_numbers
      gen_valid_def msg_def)


lemma prints_access:
  "example_05 = ([''remote write=ALLOW explanation=remote WRITE allowed''], 0)"
  "example_07 = ([''cross-domain access=REJECT_DOMAIN explanation=protection domain mismatch''], 0)"
  "example_10 = ([''stale authority access=REJECT_STALE_EPOCH explanation=CoordinatorEpoch mismatch: request 99 is not current 1.''], 0)"
  "example_15 =
     ([''remote WRITE registration=1 offset=0 length=8 result=ALLOW: remote WRITE allowed'',
       ''backend domain=SYNTHETIC_REMOTE_CAPABLE dom_supported=true remote_read=SUPPORTED remote_write=SUPPORTED remote_atomic=NOT_SUPPORTED provenance=SYNTHETIC requested_rights=0x8''], 0)"
proof -
  have start: "fst (scene_start 1) = StrongId 1" by (simp add: scene_start_eq)
  show "example_05 = ([''remote write=ALLOW explanation=remote WRITE allowed''], 0)"
    by (simp add: example_05_def example_access_eq [OF no_atomic(2)] start current_access msg_def)
  show "example_07 = ([''cross-domain access=REJECT_DOMAIN explanation=protection domain mismatch''], 0)"
    by (simp add: example_07_def example_access_eq [OF no_atomic(2)] foreign_domain make_decision_def msg_def)
  show "example_10 = ([''stale authority access=REJECT_STALE_EPOCH explanation=CoordinatorEpoch mismatch: request 99 is not current 1.''], 0)"
    by (simp add: example_10_def example_access_eq [OF no_atomic(1)] start stale_epoch make_decision_def msg_def)
  have caps: "explain_backend_capability (syn_capabilities (syn_create 1)) MD_SYNTHETIC_REMOTE_CAPABLE 8 =
      ''backend domain=SYNTHETIC_REMOTE_CAPABLE dom_supported=true remote_read=SUPPORTED remote_write=SUPPORTED remote_atomic=NOT_SUPPORTED provenance=SYNTHETIC requested_rights=0x8''"
    by code_simp
  show "example_15 =
     ([''remote WRITE registration=1 offset=0 length=8 result=ALLOW: remote WRITE allowed'',
       ''backend domain=SYNTHETIC_REMOTE_CAPABLE dom_supported=true remote_read=SUPPORTED remote_write=SUPPORTED remote_atomic=NOT_SUPPORTED provenance=SYNTHETIC requested_rights=0x8''], 0)"
    by (simp add: example_15_def example_access_eq [OF no_atomic(2)] start current_access caps)
      (simp add: explain_remote_access_def example_request_def small_numbers msg_def)
qed

lemma prints_01:
  "example_01 =
     ([''BufferId=7 RegistrationId(7) equal types=0 interchangeable=0'', ''buffer generation 7 < 8: 1'',
       ''authority is incarnation-scoped: fresh boot must never be fenced by a stale boot's higher generation.''], 0)"
  by (simp add: example_01_def bit_text_def generation_newer_def msg_def)

lemma prints_13:
  "example_13 =
     ([''The multiprocess restart proof is run by rdma-buffer-coordinator --scenario with worker OS processes.'',
       ''A fresh WorkerBootId + CoordinatorEpoch never fence a fresh incarnation.''], 0)"
  by (simp add: example_13_def msg_def)

lemma prints_14:
  "example_14 =
     ([''CUDA_DEVICE remote_registration=UNSUPPORTED (DOMAIN_UNSUPPORTED)'',
       ''honest note: CUDA device memory is not claimed as RDMA-registerable without a physical backend.''], 0)"
proof -
  have "syn_can_register (make_buffer 1 1 MD_CUDA_DEVICE 4096 8) (syn_create 1) = ''DOMAIN_UNSUPPORTED''"
    by code_simp
  then show ?thesis by (simp add: example_14_def msg_def)
qed

text \<open>The pinning probe never claims that memory was pinned, whatever the allocation answers.\<close>

lemma prints_02:
  "example_02 True =
     ([''host-pin probe: ok=0 committed=1 locked=0 bytes=1048576 provenance=UNKNOWN detail=allocation committed + touched; VirtualLock unsupported on this platform'',
       ''honest note: host pinning proves memory preparation, not RNIC registration.''], 0)"
  "example_02 False =
     ([''host-pin probe: ok=0 committed=0 locked=0 bytes=1048576 provenance=UNKNOWN detail=allocation failed: commit_pages: allocation failed'',
       ''honest note: host pinning proves memory preparation, not RNIC registration.''], 0)"
proof -
  have "int_to_str 1048576 = ''1048576''" by (simp add: int_to_str_def digits.simps digit_char_def)
  then show "example_02 True =
     ([''host-pin probe: ok=0 committed=1 locked=0 bytes=1048576 provenance=UNKNOWN detail=allocation committed + touched; VirtualLock unsupported on this platform'',
       ''honest note: host pinning proves memory preparation, not RNIC registration.''], 0)"
    and "example_02 False =
     ([''host-pin probe: ok=0 committed=0 locked=0 bytes=1048576 provenance=UNKNOWN detail=allocation failed: commit_pages: allocation failed'',
       ''honest note: host pinning proves memory preparation, not RNIC registration.''], 0)"
    by (simp_all add: example_02_def ref_probe_host_pinning_def bit_text_def Let_def msg_def)
qed

lemma prints_04:
  "example_04 =
     ([''reuse=REUSE_HIT explanation=reuse of buffer 1 generation 1 against registration 1: REUSE_HIT'',
       ''bumped generation reuse=REUSE_MISS explanation=reuse of buffer 1 generation 2 against registration 1: REUSE_MISS: BufferGeneration changed from 1 to 2 after memory reallocation''], 0)"
proof -
  obtain rr where rr: "scene_register 1 (example_buffer 8) = (rr, scene_registered 1 (example_buffer 8))"
    by (rule example_registers [OF no_atomic(1)])
  have key: "id_valid (rk_id (r_remote_key (scene_record 1 (example_buffer 8))))"
    by (simp add: id_valid_def syn_region_def)
  have hit: "reuse_miss_reason (example_buffer 8) (scene_record 1 (example_buffer 8)) scene_bid
      (StrongId 1) (envelope 1 1) = ''''"
    using key by (simp add: reuse_miss_reason_def access_superset_def envelope_def)
  have miss: "reuse_miss_reason (example_buffer 8\<lparr>bd_generation := StrongGeneration 2\<rparr>)
      (scene_record 1 (example_buffer 8)) scene_bid (StrongId 1) (envelope 1 1) =
      ''BufferGeneration changed from 1 to 2 after memory reallocation''"
    by (simp add: reuse_miss_reason_def small_numbers msg_def)
  have start: "fst (scene_start 1) = StrongId 1" by (simp add: scene_start_eq)
  show ?thesis
    by (simp add: example_04_def rr start register_buffer_reuse_def hit miss explain_reuse_def
        rr_reject_def default_register_result_def on_acct_def small_numbers Let_def msg_def)
qed


lemma example_backend_entry:
  "syn_best_handle 1 (sb_entries (scene_backend seed d cx)) '''' = syn_make_handle (syn_region seed 1)"
  "map_of (sb_entries (scene_backend seed d cx)) (syn_make_handle (syn_region seed 1)) = Some (scene_entry seed d cx)"
  "sb_remote_write_supported (scene_backend seed d cx)" "syn_make_handle (syn_region seed 1) \<noteq> ''''"
  by (simp_all add: scene_backend_def scene_entry_def syn_make_handle_def) (simp add: syn_create_def)

lemma prints_12:
  "\<exists>delta. example_12 = Some ([''synthetic remote write=ALLOW delta='' @ int_to_str delta @
     '' provenance=SYNTHETIC (Synthetic remote ALLOW simulated (provenance=SYNTHETIC).)''], 0) \<and> delta < 64"
proof -
  obtain rr where rr: "scene_register 7 (example_buffer 8) = (rr, scene_registered 7 (example_buffer 8))"
    by (rule example_registers [OF no_atomic(1)])
  let ?cx = "scene_context 7 (example_buffer 8)" and ?b = "scene_backend 7 (example_buffer 8) (scene_context 7 (example_buffer 8))"
  have fields: "br_handle (se_reg (scene_entry 7 (example_buffer 8) ?cx)) = syn_make_handle (syn_region 7 1)"
    "\<not> se_revoked (scene_entry 7 (example_buffer 8) ?cx)"
    "\<not> se_revalidate_required (scene_entry 7 (example_buffer 8) ?cx)"
    "bk_remote_key_generation (br_keys (se_reg (scene_entry 7 (example_buffer 8) ?cx))) = StrongGeneration 1"
    "se_key_generation (scene_entry 7 (example_buffer 8) ?cx) = StrongGeneration 1"
    "br_registered_length (se_reg (scene_entry 7 (example_buffer 8) ?cx)) = 4096"
    "access_has (br_granted_access (se_reg (scene_entry 7 (example_buffer 8) ?cx))) AR_REMOTE_WRITE"
    by (simp_all add: scene_entry_def syn_make_registration_def access_has_def)
  have "syn_query \<lparr>rh_memory_region_id = br_memory_region_id (se_reg (scene_entry 7 (example_buffer 8) ?cx)),
      rh_handle = br_handle (se_reg (scene_entry 7 (example_buffer 8) ?cx))\<rparr>
      (br_keys (se_reg (scene_entry 7 (example_buffer 8) ?cx))) OP_WRITE 0 64 ?b =
      (AO_ALLOW, msg ''Synthetic backend permits this remote operation.'')"
    by (simp add: syn_query_def example_backend_entry fields)
  then have "\<exists>delta < 64. syn_simulate_remote OP_WRITE 0 64 1 ?b =
      Some (AO_ALLOW, msg ''Synthetic remote ALLOW simulated (provenance=SYNTHETIC).'', delta)"
    by (auto simp: syn_simulate_remote_def example_backend_entry Let_def msg_def word_mod_less_divisor)
  then obtain delta where "delta < 64" "syn_simulate_remote OP_WRITE 0 64 1 ?b =
      Some (AO_ALLOW, msg ''Synthetic remote ALLOW simulated (provenance=SYNTHETIC).'', delta)" by blast
  then show ?thesis
    by (intro exI [of _ delta]) (simp add: example_12_def rr msg_def)
qed

lemma recovered_single:
  assumes "im_registrations im = []" and "ps_registrations s = [r]"
  shows "im_registrations (recovered_impl s im a) = [(r_id r, recovered_reg r)]"
  by (simp add: recovered_impl_def assms)

abbreviation example_recovering :: Impl where
  "example_recovering \<equiv> set_authority (snapshot 1 1)
     (snd (add_backend (map_of (im_backends (scene_registered 1 (example_buffer writes)))
        (be_id (SyntheticObj (syn_create 1)))) new_impl))"

text \<open>Example 11, given what the saved file is and what recovering from it returns.\<close>

lemma example_11_result:
  assumes "scene_register 1 (example_buffer writes) = (rr, scene_registered 1 (example_buffer writes))"
    and "snd (save ''rdma-buffer-example.bin'' os (scene_registered 1 (example_buffer writes)) fs)
      ''rdma-buffer-example.bin'' = file"
    and "recover file default_report example_recovering = ((ok, err, rep), rt3)"
    and "im_registrations rt3 = [(i, r)]" and "r_lifecycle r = RL_REVALIDATION_REQUIRED"
    and "r_freshness r = FR_REVALIDATION_REQUIRED" and "rp_recovered_registrations rep = 1"
  shows "example_11 os fs =
    ([''recovered registration lifecycle=REVALIDATION_REQUIRED freshness=REVALIDATION_REQUIRED (not live)'',
      ''recovered registrations=1 any=1''], 0)"
  unfolding example_11_def Let_def assms(1) snd_conv assms(2) assms(3) prod.case
  by (simp add: assms(4-) registrations_def get_registration_def List.map_filter_def small_numbers
      bit_text_def msg_def)

lemma scene_start_reached: "seq_reach (snd (scene_start 1))"
proof -
  have "snd (scene_start 1) = exec (OpCreateDomain (StrongId 1) (StrongId 1)) (exec (OpSetAuthority (snapshot 1 1))
      (exec (OpAddBackend (Some (SyntheticObj (syn_create 1)))) new_impl))"
    by (simp add: scene_start_def)
  moreover have one: "seq_reach (exec (OpAddBackend (Some (SyntheticObj (syn_create 1)))) new_impl)"
    by (rule seq_reach.op [OF seq_reach.init]) (simp add: new_impl_def)
  have two: "seq_reach (exec (OpSetAuthority (snapshot 1 1))
      (exec (OpAddBackend (Some (SyntheticObj (syn_create 1)))) new_impl))"
    by (rule seq_reach.op [OF one]) (simp add: new_impl_def add_backend_def)
  moreover have "seq_reach (exec (OpCreateDomain (StrongId 1) (StrongId 1)) (exec (OpSetAuthority (snapshot 1 1))
      (exec (OpAddBackend (Some (SyntheticObj (syn_create 1)))) new_impl)))"
    by (rule seq_reach.op [OF two]) (simp add: new_impl_def add_backend_def set_authority_def)
  ultimately show ?thesis by (simp only:)
qed

lemma example_state_fits: "state_fits (persistable_state (scene_registered 1 (example_buffer 8)))"
proof -
  let ?im = "scene_registered 1 (example_buffer 8)"
  have handle: "length (syn_make_handle (syn_region 1 1)) \<le> 20"
    unfolding syn_make_handle_def to_hex_def using length_digits [of "unat (id_value (syn_region 1 1))" 16 16]
      unsigned_less [of "id_value (syn_region 1 1)"] by simp
  then have "registration_fits (logical_registration (scene_record 1 (example_buffer 8)))"
    by (simp add: registration_fits_def logical_registration_def max_count_def)
  moreover have "list_all backend_info_fits (backend_summaries_unlocked ?im)"
    by (simp add: backend_info_fits_def backend_summaries_unlocked_def scene_backend_def
        syn_create_def syn_capabilities_def max_count_def)
  ultimately show ?thesis
    by (simp add: state_fits_def persistable_state_def default_persistable_def max_count_def
        backend_summaries_unlocked_def) (simp add: scene_registered_def registered_impl_def
        scene_created_def scene_start_eq new_impl_def)
qed

lemma prints_11:
  assumes "fo_saves os"
  shows "example_11 os fs =
    ([''recovered registration lifecycle=REVALIDATION_REQUIRED freshness=REVALIDATION_REQUIRED (not live)'',
      ''recovered registrations=1 any=1''], 0)"
proof -
  let ?im = "scene_registered 1 (example_buffer 8)"
  obtain rr where rr: "scene_register 1 (example_buffer 8) = (rr, ?im)"
    by (rule example_registers [OF no_atomic(1)])
  have "seq_reach (scene_created 1 (example_buffer 8))"
    using scene_start_reached seq_reach.op [of "snd (scene_start 1)" "OpCreateBuffer (example_buffer 8)"] scene_create [of "example_buffer 8" 1]
    by (simp add: scene_start_eq new_impl_def)
  from seq_reach.registering [OF this, of "example_buffer 8" scene_bid "StrongId 1" "envelope 1 1"]
  have seq: "seq_reach ?im" using rr scene_call [of "example_buffer 8" 1] by simp
  note fits = example_state_fits
  have named: "buffers_named ?im" by (simp add: buffers_named_def gen_valid_def)
  let ?rt2 = example_recovering
  obtain a where rec: "recover (Some (serialize (persistable_state ?im))) default_report ?rt2 =
      ((True, '''', default_report\<lparr>rp_recovered_buffers := rp_recovered_buffers default_report +
           (of_nat (length (im_buffers (recovered_impl (kept ?im) ?rt2 a))) - of_nat (length (im_buffers ?rt2))),
         rp_recovered_domains := rp_recovered_domains default_report +
           (of_nat (length (im_domains (recovered_impl (kept ?im) ?rt2 a))) - of_nat (length (im_domains ?rt2))),
         rp_recovered_registrations := rp_recovered_registrations default_report +
           of_nat (length (ps_registrations (kept ?im))),
         rp_persistence_ok := True, rp_semantic_digest := semantic_digest (kept ?im)\<rparr>),
       recovered_impl (kept ?im) ?rt2 a)"
    using recover_state_eq [of "kept ?im" ?rt2 default_report]
    by (auto simp: recover_def saved_parses [OF seq fits named])
  have regs: "ps_registrations (kept ?im) = [without_policy (logical_registration (scene_record 1 (example_buffer 8)))]"
    by (simp add: state_kept_def persistable_state_def)
  have empty: "im_registrations ?rt2 = []" by (simp add: set_authority_def add_backend_def new_impl_def)
  have saved: "snd (save path os ?im fs) path = Some (serialize (persistable_state ?im))" for path
    using assms by (simp add: save_def write_file_def fo_saves_def Let_def)
  show ?thesis
    by (rule example_11_result [OF _ _ rec recovered_single [OF empty regs]])
      (simp_all add: rr saved regs recovered_reg_def without_policy_def logical_registration_def
        default_report_def)
qed


text \<open>What the example programs print, by evaluation of the models: a registration that is active
  and valid, a reuse that misses once the buffer's generation moved, a write that is allowed, a
  rotated key, a refusal for a foreign domain, one lease that is released once, a hard revocation,
  a refusal of a stale epoch, a recovered registration that is not live when the file can be
  written, a synthetic write, and CUDA memory that the synthetic backend does not register.
  Example 02 is that of the portable build, when the allocation succeeds; the delta example 12
  prints is a number below 64, left open here; examples 01, 13 and the notes are constant lines.\<close>

theorem examples_print:
  assumes "fo_saves os"
  shows "example_01 =
      ([''BufferId=7 RegistrationId(7) equal types=0 interchangeable=0'', ''buffer generation 7 < 8: 1'',
        ''authority is incarnation-scoped: fresh boot must never be fenced by a stale boot's higher generation.''], 0)
    \<and> example_02 True =
      ([''host-pin probe: ok=0 committed=1 locked=0 bytes=1048576 provenance=UNKNOWN detail=allocation committed + touched; VirtualLock unsupported on this platform'',
       ''honest note: host pinning proves memory preparation, not RNIC registration.''], 0)
    \<and> example_03 = ([''lifecycle: ACTIVE freshness=VALID provenance=SYNTHETIC''], 0)
    \<and> example_04 =
      ([''reuse=REUSE_HIT explanation=reuse of buffer 1 generation 1 against registration 1: REUSE_HIT'',
        ''bumped generation reuse=REUSE_MISS explanation=reuse of buffer 1 generation 2 against registration 1: REUSE_MISS: BufferGeneration changed from 1 to 2 after memory reallocation''], 0)
    \<and> example_05 = ([''remote write=ALLOW explanation=remote WRITE allowed''], 0)
    \<and> example_06 = ([''key generation 1 -> 2 (old key now stale)'', ''remote key rotated to generation 2''], 0)
    \<and> example_07 = ([''cross-domain access=REJECT_DOMAIN explanation=protection domain mismatch''], 0)
    \<and> example_08 = ([''lease acquired=1 count=1'', ''lease released count=0 duplicate=0''], 0)
    \<and> example_09 = ([''hard revoke ok=1 keys=1 lifecycle=REVOKED explanation=registration 1 HARD_REVOKE revoke; lifecycle=REVOKED keys_invalidated=true reason=hard revoke''], 0)
    \<and> example_10 = ([''stale authority access=REJECT_STALE_EPOCH explanation=CoordinatorEpoch mismatch: request 99 is not current 1.''], 0)
    \<and> example_11 os fs =
      ([''recovered registration lifecycle=REVALIDATION_REQUIRED freshness=REVALIDATION_REQUIRED (not live)'',
        ''recovered registrations=1 any=1''], 0)
    \<and> (\<exists>delta. example_12 = Some ([''synthetic remote write=ALLOW delta='' @ int_to_str delta @
        '' provenance=SYNTHETIC (Synthetic remote ALLOW simulated (provenance=SYNTHETIC).)''], 0) \<and> delta < 64)
    \<and> example_13 =
      ([''The multiprocess restart proof is run by rdma-buffer-coordinator --scenario with worker OS processes.'',
        ''A fresh WorkerBootId + CoordinatorEpoch never fence a fresh incarnation.''], 0)
    \<and> example_14 =
      ([''CUDA_DEVICE remote_registration=UNSUPPORTED (DOMAIN_UNSUPPORTED)'',
        ''honest note: CUDA device memory is not claimed as RDMA-registerable without a physical backend.''], 0)
    \<and> example_15 =
      ([''remote WRITE registration=1 offset=0 length=8 result=ALLOW: remote WRITE allowed'',
        ''backend domain=SYNTHETIC_REMOTE_CAPABLE dom_supported=true remote_read=SUPPORTED remote_write=SUPPORTED remote_atomic=NOT_SUPPORTED provenance=SYNTHETIC requested_rights=0x8''], 0)"
  by (intro conjI prints_01 prints_02 prints_03 prints_04 prints_access prints_06 prints_08 prints_09
      prints_11 [OF assms] prints_12 prints_13 prints_14)

lemma examples_print_witness:
  "\<exists>os. fo_saves os \<and> example_11 os Map.empty =
      ([''recovered registration lifecycle=REVALIDATION_REQUIRED freshness=REVALIDATION_REQUIRED (not live)'',
        ''recovered registrations=1 any=1''], 0)"
proof -
  let ?os = "\<lparr>fo_opens = True, fo_short_write = None, fo_removes = True, fo_renames = True\<rparr>"
  have "fo_saves ?os" by (simp add: fo_saves_def)
  then show ?thesis using examples_print [of ?os Map.empty] by blast
qed

end
