(* ===== verification/Spec2Isabelle.thy ===== *)
theory Spec2Isabelle
  imports LeaseAccounting Races Protocol Recovery Transport Worker Coordinator Cli Lifetime HostMemory Ledger
    Teardown Lifecycles LeaseRuns System Cuda Examples
begin

text \<open>
  RDMA Buffer: a C++ runtime that decides who may access registered memory remotely.

  The program. \<open>class Rdmabuffer\<close> (\<open>src/registry.cpp\<close>) is a registry guarded by one mutex. It
  holds buffers, protection domains, registrations, leases, the current authority (coordinator
  epoch, worker boot, generations) and nineteen accounting counters. Registering a buffer asks a
  backend (\<open>IBackend\<close>) for a handle and keys; \<open>validate_remote_access\<close> then judges each remote
  request against the authority, the record, its key and the backend. \<open>register_buffer\<close> and
  \<open>deregister\<close> call the backend with the mutex released, so other threads run between their
  critical sections. The registry can be saved to a file and recovered after a restart. A
  coordinator and worker processes exchange checksummed frames over TCP and drive the registry;
  a command line tool runs single commands on it.

  \<^bold>\<open>Theories and code\<close> (paths under \<open>src/\<close> of the repository)

  \<^item> \<open>Prelude\<close>: identities and generations (\<open>include/rdmabuffer/identity.hpp\<close>, \<open>generation.hpp\<close>),
    words, \<open>std::unordered_map\<close> as association lists (\<open>umap\<close>), rendering of integers, shared
    lemma collections.
  \<^item> \<open>Enums\<close>, \<open>BufferModel\<close>, \<open>Authority\<close>, \<open>Accounting\<close>, \<open>Records\<close>, \<open>Explain\<close>: the value types and
    pure functions of the headers of the same names and of \<open>src/explain.cpp\<close>.
  \<^item> \<open>Backend\<close>: the backend contract as the locales \<open>ibackend\<close> and \<open>fresh_backend\<close>. \<open>Synthetic\<close> and
    \<open>Reference\<close>: the two backends, each an interpretation of the contract; \<open>Dispatch\<close>: the virtual
    calls over both, again an interpretation.
  \<^item> \<open>HostMemory\<close>: \<open>src/windows_os.cpp\<close> in both builds and the pinning probe of the Windows build.
  \<^item> \<open>Registry\<close>: every operation of \<open>Rdmabuffer::Impl\<close> except saving and recovering. The state is the
    record \<open>Impl\<close>; an operation takes it and returns its result with the new state. The two
    operations that release the mutex are the compositions of their critical sections
    (\<open>register_prepare\<close>, \<open>register_backend\<close>, \<open>register_commit\<close>; \<open>deregister_prepare\<close>,
    \<open>deregister_backend\<close>, \<open>deregister_finish\<close>).
  \<^item> \<open>Registration\<close>, \<open>Access\<close>: when a registration succeeds and what it leaves; when a request is
    allowed (\<open>access_ok\<close> is the declarative condition).
  \<^item> \<open>Runs\<close>, \<open>Frames\<close>, \<open>Concurrency\<close>, \<open>Races\<close>: the changes a record can undergo (\<open>reg_step\<close>); the
    tables that an operation leaves alone; any number of threads, one critical section or backend
    call per step (\<open>sys_step\<close>: every operation but \<open>recover\<close>, which \<open>Lifetime\<close> adds; \<open>save\<close> and the
    queries change no state and are no steps); what holds of every interleaving of these operations,
    and runs that reach states the code does not mean to reach.
  \<^item> \<open>Ledger\<close>: what the registry promises about remote access, as a specification without records,
    threads or backends: an identity is unissued, reserved, open or closed (\<open>phase_step\<close>), and a
    request is allowed only under the one grant of an open identity. \<open>Lifecycles\<close>: the lifecycle of a
    record through interleaved runs, against the table \<open>can_transition\<close>, and the fate of a soft
    revocation. \<open>LeaseRuns\<close>: leases in interleaved runs (\<open>lease_run\<close>). None of these runs recovers a
    file.
  \<^item> \<open>Invariant\<close>, \<open>LeaseAccounting\<close>: runs in which calls do not overlap and no file is recovered
    (\<open>seq_reach\<close>), their invariants, leases and counters. \<open>Teardown\<close>: those of these runs in which
    nobody but the registry uses its backends and no identity or handle has run out (\<open>managed\<close>),
    and how a registry is taken down.
  \<^item> \<open>Bytes\<close>, \<open>Crc32\<close>, \<open>Wire\<close>, \<open>Protocol\<close>: the byte reader and writer (\<open>bytes.hpp\<close>), the checksum
    (\<open>src/crc32.cpp\<close>), the payload codec (\<open>codec.hpp\<close>), the frames (\<open>src/protocol.cpp\<close>). The locale
    \<open>codec\<close> states the round trip law once; each encoder and decoder pair is an interpretation.
  \<^item> \<open>Persistence\<close>, \<open>Recovery\<close>: the format of saved states with its integrity loops
    (\<open>src/persistence.cpp\<close>), \<open>Impl::save\<close> and \<open>Impl::recover\<close>. \<open>Lifetime\<close>: interleaved runs with
    recovery from any file at any moment (\<open>life_step\<close>), and what becomes of recovered registrations
    in them.
  \<^item> \<open>Transport\<close>, \<open>Worker\<close>, \<open>Coordinator\<close>, \<open>Cli\<close>: \<open>recv_all\<close>, \<open>send_all\<close>, \<open>send_frame\<close>, \<open>recv_frame\<close> and
    the \<open>main\<close> functions of \<open>tools/worker.cpp\<close>, \<open>tools/coordinator.cpp\<close> and
    \<open>tools/rdma_buffer_cli.cpp\<close>. The coordinator has its own copies of the four functions
    (\<open>coord_recv_all\<close> and so on). \<open>System\<close>: the options and the listener of the coordinator, the command lines it starts
    workers with, and the whole scenario as sessions over carriers of frames, in particular pairs of
    sockets.
  \<^item> \<open>Scenario\<close>: the runtime that the drivers set up (\<open>examples/example_util.hpp\<close>). \<open>Cuda\<close>: the capability
    probe (\<open>src/cuda_backend.cu\<close>) and the CUDA proof program with its kernel (\<open>src/cuda_proof.cu\<close>).
    \<open>Examples\<close>: the fifteen programs of \<open>examples/\<close>.

  \<^bold>\<open>What is proved\<close>

  \<^item> Access. The decision procedure is the conjunction it should be (\<open>remote_access_allowed_iff\<close>); a
    fresh registration is open to exactly what its descriptor asked for; revoking, rotating the
    key and deregistering close a registration for good under every interleaving without
    recovery. Every such interleaving is a run of the ledger, and what it allows the ledger allows
    (\<open>registry_refines_ledger\<close>).
  \<^item> State. Without overlap a live registration is the one in its buffer's slot, in an active
    domain, current and unrevoked, and unique for its buffer. In a managed run deregistering fails
    only on an outstanding lease or a pending soft revocation, and releasing the leases and
    deregistering drains a registry but for pending soft revocations, after which no lease and no
    slot is left and the counters of registrations, leases and keys are zero
    (\<open>deregister_succeeds_iff\<close>, \<open>registry_drains\<close>). With overlap lease counts are exact and a
    deregistered registration had no lease (\<open>LeaseRuns\<close>); but two live registrations of a buffer,
    and one in a destroyed domain, are reachable. A record changes its lifecycle by the table, but
    for the step from active to revoked, and two states that the table lets go on are final
    (\<open>lifecycle_follows_table\<close>). With recovery as well, the tables keep their type through every
    lifetime.
  \<^item> Bytes. Every payload, frame and saved state is read back as written; \<open>decode_frame\<close> accepts
    exactly the encodings of sendable frames; damage within four consecutive bytes is always found,
    in a frame and in a file; no decoder leaves its bytes; whatever \<open>parse\<close> returns is sound.
  \<^item> Recovery. Saving is not torn; recovery opens nothing and restores what the format carries; a
    file within the bounds of the format is refused in exactly the two cases in which the registry
    let a bad identity in. A recovered registration whose identity was handed out stays closed, but
    for a \<open>register_buffer\<close> in flight that holds the identity and reopens it
    (\<open>recovered_registration_stays_closed\<close>, \<open>recovery_reopens_in_flight\<close>); a key from before a
    restart is accepted after it.
  \<^item> Processes. \<open>recv_frame\<close> on a stream refines \<open>decode_frame\<close>, whatever pieces the calls return,
    and takes a bounded number of calls; the coordinator refuses stale authority whatever its peers
    send; over connected sockets its scenario passes, from the command line to the exit codes of
    coordinator and workers (\<open>system_scenario_succeeds\<close>); the command line tool returns
    on every input, with the exit code and the usage text stated; the pinning probe, when its
    allocation succeeds, returns except at the very end of the address space, and touches every page.
  \<^item> Drivers. The CUDA kernel computes the pointwise sum whatever the order of its threads, and the
    program exits with zero exactly on a usable device on which every call succeeds
    (\<open>cuda_proof_passes_iff\<close>). The lines of the examples, on their fixed inputs, are evaluated in
    \<open>Examples\<close>.

  \<^bold>\<open>Bounds and assumptions\<close>

  \<^item> Integers keep their width: identities, generations, sizes and counters are 64-bit words that
    wrap. Lemmas that need a counter not to have wrapped say so in a hypothesis (a next identity
    below the last word, fewer than \<open>2 ^ 57\<close> registrations per backend for distinct handles), and
    \<open>sys_step\<close> begins a registration only below the last registration identity, and
    \<open>lease_step\<close> goes on only below the last lease identity.
  \<^item> The round trip of a saved state needs the lists within \<open>max_count\<close>, which is the bound \<open>parse\<close>
    puts on them, and that of a frame the payload within \<open>max_payload\<close> (a frame then has at most
    16777248 bytes, so that the conversions of the tools to \<open>int\<close> do not overflow).
  \<^item> No loop of the model runs on fuel. \<open>recv_all\<close> and \<open>send_all\<close> are proved to terminate by the bytes
    that are missing; the loop over pages in \<open>HostMemory\<close> is a partial function, \<open>None\<close> where it does
    not end; all other loops are structural.
  \<^item> \<open>recv\<close> and \<open>send\<close> are arguments; \<open>delivers\<close> and \<open>emits\<close> are what a stream socket promises. A call
    of \<open>recv\<close> returns at most what was asked for, and nothing at the end or on an error. The
    answers of the operating system to \<open>save\<close> and to the worker are arguments without hypotheses. A
    connection of the coordinator is the pair of answers of \<open>recv_frame\<close> on it; in \<open>System\<close> they come
    from the worker at the other end, over sockets that lose nothing (\<open>connected_sockets\<close>). How a
    command line is split into arguments is an argument with the hypothesis \<open>splits_commands\<close> on
    the three command lines of the scenario.
  \<^item> The CUDA runtime is an argument: which calls succeed, what memory holds after an allocation or
    a failed copy, the order of the threads, and the arithmetic of floats. \<open>cuda_faithful\<close> says that
    a launch runs the threads of its grid and that an allocation has the length asked for.
  \<^item> An unordered map is an association list; the order of its elements, which the C++ library leaves
    open, is that of insertion. Only saved lists and printed lines depend on it.

  \<^bold>\<open>Not modelled\<close>

  \<^item> The contents of host memory in the pinning probes, and the time measurements of the CUDA proof.
  \<^item> Start and termination of processes, address conversion, and what the coordinator and the workers
    print. Of the listening socket only the failures of the three calls that open it.
  \<^item> Backend calls are single steps of an interleaving; the data races (two unlocked reads of the
    backend table, and the counters read through \<open>accounting\<close>) are reported as findings and have no
    model.
  \<^item> Tests and benchmarks: they call the library, and their assertions are not part of it.
\<close>

end
